(* ===== verification/Prelude.thy ===== *)
theory Prelude
  imports Main "HOL-Library.Word" "HOL-Library.Monad_Syntax"
begin

text \<open>
  Shared vocabulary of the development: the machine types of the eBPF programs, the
  exceptions the Python code can raise, the state-and-exception monad in which the Python
  functions are written (a raised exception keeps every effect made before it), and the
  generic lemmas on lists and monadic code that the components use.
\<close>

named_theorems py_simps \<open>evaluation of the state-and-exception monad\<close>
named_theorems layout_simps \<open>byte layouts of packed structures\<close>

subsection \<open>Machine types\<close>

type_synonym u8 = "8 word"
type_synonym u16 = "16 word"
type_synonym u32 = "32 word"
type_synonym u64 = "64 word"
type_synonym bytes = "u8 list"

subsection \<open>Python exceptions and the state-and-exception monad\<close>

datatype py_error =
    StructError                     \<comment> \<open>\<^verbatim>\<open>struct.error\<close>\<close>
  | OSError int                     \<comment> \<open>\<^verbatim>\<open>OSError(errno, ...)\<close>\<close>
  | IndexError
  | KeyError
  | ValueError
  | TypeError
  | AttributeError
  | OverflowError
  | ZeroDivisionError
  | RuntimeError string
  | CalledProcessError int          \<comment> \<open>with the return code\<close>

type_synonym 'a res = "py_error + 'a"
type_synonym ('s, 'a) py = "'s \<Rightarrow> 'a res \<times> 's"

definition py_return :: "'a \<Rightarrow> ('s, 'a) py" where
  "py_return x s = (Inr x, s)"

definition py_raise :: "py_error \<Rightarrow> ('s, 'a) py" where
  "py_raise e s = (Inl e, s)"

definition py_bind :: "('s, 'a) py \<Rightarrow> ('a \<Rightarrow> ('s, 'b) py) \<Rightarrow> ('s, 'b) py" where
  "py_bind m f s = (case m s of (Inl e, s') \<Rightarrow> (Inl e, s') | (Inr x, s') \<Rightarrow> f x s')"

text \<open>A pure computation that may raise, run inside effectful code.\<close>

definition py_lift :: "'a res \<Rightarrow> ('s, 'a) py" where
  "py_lift r s = (r, s)"

text \<open>\<^verbatim>\<open>try: m  except E: h\<close>, where \<open>catches\<close> says which exceptions are of class \<open>E\<close>.\<close>

definition py_except :: "(py_error \<Rightarrow> bool) \<Rightarrow> ('s, 'a) py \<Rightarrow> ('s, 'a) py \<Rightarrow> ('s, 'a) py" where
  "py_except catches m h s =
     (case m s of
        (Inl e, s') \<Rightarrow> if catches e then h s' else (Inl e, s')
      | (Inr x, s') \<Rightarrow> (Inr x, s'))"

text \<open>\<^verbatim>\<open>for x in xs: body(x)\<close>\<close>

fun py_for :: "'x list \<Rightarrow> ('x \<Rightarrow> ('s, unit) py) \<Rightarrow> ('s, unit) py" where
  "py_for [] body = py_return ()"
| "py_for (x # xs) body = py_bind (body x) (\<lambda>_. py_for xs body)"

text \<open>Pure code that may raise: the exception half of the monad.\<close>

definition res_bind :: "'a res \<Rightarrow> ('a \<Rightarrow> 'b res) \<Rightarrow> 'b res" where
  "res_bind r f = (case r of Inl e \<Rightarrow> Inl e | Inr x \<Rightarrow> f x)"

fun res_map :: "('a \<Rightarrow> 'b res) \<Rightarrow> 'a list \<Rightarrow> 'b list res" where
  "res_map f [] = Inr []"
| "res_map f (x # xs) = res_bind (f x) (\<lambda>y. res_bind (res_map f xs) (\<lambda>ys. Inr (y # ys)))"

text \<open>
  A triple over the monad: from every state in \<open>P\<close> the code ends in \<open>Q x\<close> when it returns
  \<open>x\<close> and in \<open>E\<close> when it raises.
\<close>

definition py_hoare :: "('s \<Rightarrow> bool) \<Rightarrow> ('s, 'a) py \<Rightarrow> ('a \<Rightarrow> 's \<Rightarrow> bool) \<Rightarrow> ('s \<Rightarrow> bool) \<Rightarrow> bool" where
  "py_hoare P m Q E \<longleftrightarrow>
     (\<forall>s. P s \<longrightarrow> (case m s of (Inr x, s') \<Rightarrow> Q x s' | (Inl _, s') \<Rightarrow> E s'))"

lemma py_return_apply [py_simps]: "py_return x s = (Inr x, s)"
  by (simp add: py_return_def)

lemma py_raise_apply [py_simps]: "py_raise e s = (Inl e, s)"
  by (simp add: py_raise_def)

lemma py_lift_apply [py_simps]: "py_lift r s = (r, s)"
  by (simp add: py_lift_def)

lemma py_bind_Inr [py_simps]: "m s = (Inr x, s') \<Longrightarrow> py_bind m f s = f x s'"
  by (simp add: py_bind_def)

lemma py_bind_Inl [py_simps]: "m s = (Inl e, s') \<Longrightarrow> py_bind m f s = (Inl e, s')"
  by (simp add: py_bind_def)

lemma py_except_Inr [py_simps]: "m s = (Inr x, s') \<Longrightarrow> py_except c m h s = (Inr x, s')"
  by (simp add: py_except_def)

lemma py_except_Inl [py_simps]:
  "m s = (Inl e, s') \<Longrightarrow> py_except c m h s = (if c e then h s' else (Inl e, s'))"
  by (simp add: py_except_def)

lemma res_bind_simps [simp]:
  "res_bind (Inl e) f = Inl e"
  "res_bind (Inr x) f = f x"
  by (simp_all add: res_bind_def)

lemma res_bind_eq_Inr [simp]: "res_bind r f = Inr y \<longleftrightarrow> (\<exists>x. r = Inr x \<and> f x = Inr y)"
  by (cases r) auto

lemma res_map_Inr: "(\<And>x. x \<in> set xs \<Longrightarrow> f x = Inr (g x)) \<Longrightarrow> res_map f xs = Inr (map g xs)"
  by (induction xs) auto

text \<open>
  A loop keeps an invariant that its body keeps, whether the body returns or raises.
\<close>

lemma py_for_invariant:
  assumes "I s" and "\<And>x s. x \<in> set xs \<Longrightarrow> I s \<Longrightarrow> I (snd (body x s))"
  shows "I (snd (py_for xs body s))"
  using assms
proof (induction xs arbitrary: s)
  case Nil
  then show ?case by (simp add: py_simps)
next
  case (Cons x xs)
  obtain r s' where body: "body x s = (r, s')" by (cases "body x s")
  with Cons.prems have "I s'" by (metis list.set_intros(1) snd_conv)
  with Cons body show ?case by (cases r) (simp_all add: py_simps)
qed

lemma py_hoareI:
  assumes "\<And>s x s'. P s \<Longrightarrow> m s = (Inr x, s') \<Longrightarrow> Q x s'"
    and "\<And>s e s'. P s \<Longrightarrow> m s = (Inl e, s') \<Longrightarrow> E s'"
  shows "py_hoare P m Q E"
  using assms by (auto simp: py_hoare_def split: prod.splits sum.splits)

lemma py_hoareD:
  "py_hoare P m Q E \<Longrightarrow> P s \<Longrightarrow> m s = (Inr x, s') \<Longrightarrow> Q x s'"
  "py_hoare P m Q E \<Longrightarrow> P s \<Longrightarrow> m s = (Inl e, s') \<Longrightarrow> E s'"
  by (force simp: py_hoare_def)+

lemma py_hoare_state: "py_hoare P m (\<lambda>_. E) E \<Longrightarrow> P s \<Longrightarrow> E (snd (m s))"
  by (cases "m s"; cases "fst (m s)") (auto dest: py_hoareD)

lemma hoare_bind:
  assumes "py_hoare P m R E" "\<And>x. py_hoare (R x) (f x) Q E"
  shows "py_hoare P (py_bind m f) Q E"
proof (rule py_hoareI)
  fix s x s' assume "P s" "py_bind m f s = (Inr x, s')"
  then show "Q x s'"
    by (auto simp: py_bind_def split: prod.splits sum.splits
        intro: py_hoareD(1) [OF assms(2)] py_hoareD(1) [OF assms(1)])
next
  fix s e s' assume "P s" "py_bind m f s = (Inl e, s')"
  then show "E s'"
    by (auto simp: py_bind_def split: prod.splits sum.splits
        intro: py_hoareD(2) [OF assms(2)] py_hoareD [OF assms(1)])
qed

lemma hoare_return: "(\<And>s. P s \<Longrightarrow> Q x s) \<Longrightarrow> py_hoare P (py_return x) Q E"
  by (simp add: py_hoare_def py_return_def)

lemma hoare_lift:
  assumes "\<And>x s. r = Inr x \<Longrightarrow> P s \<Longrightarrow> Q x s" "\<And>e s. r = Inl e \<Longrightarrow> P s \<Longrightarrow> E s"
  shows "py_hoare P (py_lift r) Q E"
  using assms by (auto simp: py_hoare_def py_lift_def split: sum.splits)

lemma hoare_lift_bind:
  assumes "\<And>x. r = Inr x \<Longrightarrow> py_hoare P (f x) Q E" "\<And>s. P s \<Longrightarrow> E s"
  shows "py_hoare P (py_bind (py_lift r) f) Q E"
  using assms by (auto simp: py_hoare_def py_bind_def py_lift_def split: sum.splits)

lemma hoare_weaken:
  assumes "py_hoare P' m Q' E'" "\<And>s. P s \<Longrightarrow> P' s" "\<And>x s. Q' x s \<Longrightarrow> Q x s" "\<And>s. E' s \<Longrightarrow> E s"
  shows "py_hoare P m Q E"
  using assms(2-4) py_hoareD [OF assms(1)] by (intro py_hoareI) blast+

lemma hoare_for:
  assumes "\<And>x. x \<in> set xs \<Longrightarrow> py_hoare I (body x) (\<lambda>_. I) E"
  shows "py_hoare I (py_for xs body) (\<lambda>_. I) E"
  using assms
proof (induction xs)
  case Nil
  then show ?case by (simp add: hoare_return)
next
  case (Cons x xs)
  then show ?case by (auto intro!: hoare_bind)
qed

subsection \<open>Lists\<close>

lemma take_prefix_length [simp]: "length xs = n \<Longrightarrow> take n (xs @ ys) = xs"
  by simp

lemma drop_prefix_length [simp]: "length xs = n \<Longrightarrow> drop n (xs @ ys) = ys"
  by simp

text \<open>Python slicing \<^verbatim>\<open>b[i:j]\<close> for \<open>0 \<le> i\<close> and \<open>0 \<le> j\<close>.\<close>

definition slice :: "nat \<Rightarrow> nat \<Rightarrow> 'a list \<Rightarrow> 'a list" where
  "slice i j xs = take (j - i) (drop i xs)"

lemma length_slice: "length (slice i j xs) = min (j - i) (length xs - i)"
  by (simp add: slice_def min.commute)

lemma slice_append_skip [simp]:
  "length xs \<le> i \<Longrightarrow> slice i j (xs @ ys) = slice (i - length xs) (j - length xs) ys"
  by (simp add: slice_def)

lemma slice_append_in [simp]:
  "j \<le> length xs \<Longrightarrow> slice i j (xs @ ys) = slice i j xs"
  by (simp add: slice_def)

lemma slice_all [simp]: "length xs = j \<Longrightarrow> slice 0 j xs = xs"
  by (simp add: slice_def)

end
