(* ===== verification/Py_Struct.thy ===== *)
theory Py_Struct
  imports Prelude
begin

text \<open>
  The part of Python's \<^verbatim>\<open>struct\<close> module and of \<^verbatim>\<open>int.from_bytes\<close> that the agent and the
  netlink clients use: unsigned fields of 1, 2, 4 and 8 bytes and the signed 4-byte field,
  with the standard sizes and no padding (the prefixes \<^verbatim>\<open><\<close>, \<^verbatim>\<open>=\<close>, \<^verbatim>\<open>>\<close> and \<^verbatim>\<open>!\<close>; \<^verbatim>\<open>=\<close> is
  little-endian on the x86-64 hosts the code runs on). \<^verbatim>\<open>struct.pack\<close> raises \<^verbatim>\<open>struct.error\<close>
  when a value does not fit its field, and \<^verbatim>\<open>struct.unpack\<close> when the buffer has the wrong
  length. The lemmas are the round trips in both directions and the lengths.
\<close>

subsection \<open>Integers as bytes\<close>

fun le_bytes :: "nat \<Rightarrow> int \<Rightarrow> bytes" where
  "le_bytes 0 v = []"
| "le_bytes (Suc n) v = word_of_int v # le_bytes n (v div 256)"

fun le_int :: "bytes \<Rightarrow> int" where
  "le_int [] = 0"
| "le_int (b # bs) = uint b + 256 * le_int bs"

datatype endian = Little | Big

definition int_bytes :: "endian \<Rightarrow> nat \<Rightarrow> int \<Rightarrow> bytes" where
  "int_bytes e n v = (case e of Little \<Rightarrow> le_bytes n v | Big \<Rightarrow> rev (le_bytes n v))"

definition bytes_int :: "endian \<Rightarrow> bytes \<Rightarrow> int" where
  "bytes_int e bs = (case e of Little \<Rightarrow> le_int bs | Big \<Rightarrow> le_int (rev bs))"

subsection \<open>Format characters\<close>

datatype fmt_char = FmtB | FmtH | FmtI | FmtQ | Fmt_i

fun fmt_size :: "fmt_char \<Rightarrow> nat" where
  "fmt_size FmtB = 1"
| "fmt_size FmtH = 2"
| "fmt_size FmtI = 4"
| "fmt_size FmtQ = 8"
| "fmt_size Fmt_i = 4"

fun fmt_min :: "fmt_char \<Rightarrow> int" where
  "fmt_min Fmt_i = - (2 ^ 31)"
| "fmt_min _ = 0"

fun fmt_sup :: "fmt_char \<Rightarrow> int" where
  "fmt_sup Fmt_i = 2 ^ 31"
| "fmt_sup c = 256 ^ fmt_size c"

definition fmt_ok :: "fmt_char \<Rightarrow> int \<Rightarrow> bool" where
  "fmt_ok c v \<longleftrightarrow> fmt_min c \<le> v \<and> v < fmt_sup c"

definition fmt_read :: "fmt_char \<Rightarrow> int \<Rightarrow> int" where
  "fmt_read c v = (if v < fmt_sup c then v else v - 256 ^ fmt_size c)"

definition calcsize :: "fmt_char list \<Rightarrow> nat" where
  "calcsize fs = sum_list (map fmt_size fs)"

subsection \<open>\<^verbatim>\<open>struct.pack\<close>, \<^verbatim>\<open>struct.unpack\<close> and \<^verbatim>\<open>struct.unpack_from\<close>\<close>

fun struct_pack :: "endian \<Rightarrow> fmt_char list \<Rightarrow> int list \<Rightarrow> bytes res" where
  "struct_pack e [] [] = Inr []"
| "struct_pack e (c # cs) (v # vs) =
     (if fmt_ok c v
      then res_bind (struct_pack e cs vs) (\<lambda>bs. Inr (int_bytes e (fmt_size c) v @ bs))
      else Inl StructError)"
| "struct_pack e _ _ = Inl StructError"

fun struct_fields :: "endian \<Rightarrow> fmt_char list \<Rightarrow> bytes \<Rightarrow> int list" where
  "struct_fields e [] bs = []"
| "struct_fields e (c # cs) bs =
     fmt_read c (bytes_int e (take (fmt_size c) bs)) # struct_fields e cs (drop (fmt_size c) bs)"

definition struct_unpack :: "endian \<Rightarrow> fmt_char list \<Rightarrow> bytes \<Rightarrow> int list res" where
  "struct_unpack e fs bs =
     (if length bs = calcsize fs then Inr (struct_fields e fs bs) else Inl StructError)"

definition struct_unpack_from :: "endian \<Rightarrow> fmt_char list \<Rightarrow> bytes \<Rightarrow> nat \<Rightarrow> int list res" where
  "struct_unpack_from e fs bs off =
     (if off + calcsize fs \<le> length bs then Inr (struct_fields e fs (drop off bs))
      else Inl StructError)"

subsection \<open>Lengths and round trips\<close>

lemma length_le_bytes [simp, layout_simps]: "length (le_bytes n v) = n"
  by (induction n v rule: le_bytes.induct) auto

lemma length_int_bytes [simp, layout_simps]: "length (int_bytes e n v) = n"
  by (cases e) (auto simp: int_bytes_def)

lemma le_int_le_bytes: "le_int (le_bytes n v) = v mod 256 ^ n"
proof (induction n v rule: le_bytes.induct)
  case (1 v)
  then show ?case by simp
next
  case (2 n v)
  have "le_int (le_bytes (Suc n) v) = v mod 256 + 256 * (v div 256 mod 256 ^ n)"
    using "2.IH" by (simp add: uint_word_of_int)
  also have "\<dots> = v mod (256 * 256 ^ n)"
    by (simp add: zmod_zmult2_eq)
  finally show ?case by simp
qed

lemma le_int_nonneg [simp]: "0 \<le> le_int bs"
  by (induction bs) auto

lemma le_int_bound: "le_int bs < 256 ^ length bs"
proof (induction bs)
  case Nil
  then show ?case by simp
next
  case (Cons b bs)
  have "uint b < 256" using uint_lt2p [of b] by simp
  with Cons show ?case by simp
qed

lemma le_bytes_le_int [simp]: "length bs = n \<Longrightarrow> le_bytes n (le_int bs) = bs"
proof (induction bs arbitrary: n)
  case Nil
  then show ?case by simp
next
  case (Cons b bs)
  have u: "0 \<le> uint b" "uint b < 256" using uint_lt2p [of b] by simp_all
  have d: "(uint b + 256 * le_int bs) div 256 = le_int bs" using u by simp
  have w: "(word_of_int (uint b + 256 * le_int bs) :: u8) = b"
  proof (rule word_uint_eqI)
    show "uint (word_of_int (uint b + 256 * le_int bs) :: u8) = uint b"
      using u unfolding uint_word_of_int by simp
  qed
  obtain m where "n = Suc m" "length bs = m" using Cons.prems by (cases n) auto
  with Cons.IH [of m] d w show ?case by simp
qed

lemma le_bytes_inj: "0 \<le> v \<Longrightarrow> v < 256 ^ n \<Longrightarrow> 0 \<le> v' \<Longrightarrow> v' < 256 ^ n \<Longrightarrow>
    le_bytes n v = le_bytes n v' \<longleftrightarrow> v = v'"
  by (metis le_int_le_bytes mod_pos_pos_trivial)

lemma bytes_int_int_bytes: "bytes_int e (int_bytes e n v) = v mod 256 ^ n"
  by (cases e) (simp_all add: bytes_int_def int_bytes_def le_int_le_bytes)

lemma fmt_read_mod: "fmt_ok c v \<Longrightarrow> fmt_read c (v mod 256 ^ fmt_size c) = v"
proof (cases c)
  case Fmt_i
  assume "fmt_ok c v"
  with Fmt_i have b: "- 2147483648 \<le> v" "v < 2147483648" by (simp_all add: fmt_ok_def)
  show ?thesis
  proof (cases "0 \<le> v")
    case True
    with b Fmt_i show ?thesis by (simp add: fmt_read_def)
  next
    case False
    have "v mod 4294967296 = (v + 4294967296) mod 4294967296" by simp
    also have "\<dots> = v + 4294967296" using b False by (intro mod_pos_pos_trivial) linarith+
    finally have "v mod 4294967296 = v + 4294967296" .
    with b False Fmt_i show ?thesis by (simp add: fmt_read_def)
  qed
qed (simp_all add: fmt_ok_def fmt_read_def)

lemma struct_pack_length: "struct_pack e fs vs = Inr bs \<Longrightarrow> length bs = calcsize fs"
  by (induction e fs vs arbitrary: bs rule: struct_pack.induct)
    (auto simp: calcsize_def split: if_splits)

lemma struct_fields_pack:
  "struct_pack e fs vs = Inr bs \<Longrightarrow> struct_fields e fs (bs @ rest) = vs"
proof (induction e fs vs arbitrary: bs rule: struct_pack.induct)
  case (2 e c cs v vs)
  from "2.prems" obtain bs' where ok: "fmt_ok c v" and p: "struct_pack e cs vs = Inr bs'"
    and bs: "bs = int_bytes e (fmt_size c) v @ bs'"
    by (auto split: if_splits)
  from "2.IH" [OF ok p] ok show ?case
    by (simp add: bs bytes_int_int_bytes fmt_read_mod)
qed auto

lemma struct_unpack_pack: "struct_pack e fs vs = Inr bs \<Longrightarrow> struct_unpack e fs bs = Inr vs"
  using struct_fields_pack [of e fs vs bs "[]"] struct_pack_length [of e fs vs bs]
  by (simp add: struct_unpack_def)

lemma struct_pack_raises_iff:
  assumes "length vs = length fs"
  shows "(\<exists>bs. struct_pack e fs vs = Inr bs) \<longleftrightarrow> list_all2 fmt_ok fs vs"
  using assms
  by (induction e fs vs rule: struct_pack.induct) auto

lemma struct_pack_cases:
  obtains (ok) bs where "struct_pack e fs vs = Inr bs" | (err) "struct_pack e fs vs = Inl StructError"
proof (cases "struct_pack e fs vs")
  case (Inl x)
  moreover have "struct_pack e fs vs = Inl x \<Longrightarrow> x = StructError"
    by (induction e fs vs rule: struct_pack.induct)
      (auto simp: res_bind_def split: if_splits sum.splits)
  ultimately show thesis using err by simp
qed (use ok in simp)

end
