(* ===== verification/Bpf_Syscall.thy ===== *)
theory Bpf_Syscall
  imports Py_Struct
begin

text \<open>
  \<^verbatim>\<open>loader/bpf_syscall.py\<close>: the attribute structures of bpf(2), the wrapper \<^verbatim>\<open>_bpf\<close>, one
  function per map command and the descriptor cache \<^verbatim>\<open>PinnedMapCache\<close>. The system call
  itself is a parameter \<open>sys\<close>: given the command, the attribute structure, its size and the
  kernel's state it yields the return value, \<^verbatim>\<open>errno\<close>, the contents of the value buffer
  afterwards and the new kernel state. A pointer field of the structure is modelled by the
  buffer it points to, and the null pointer by \<open>None\<close>.
\<close>

subsection \<open>Constants\<close>

definition BPF_MAP_LOOKUP_ELEM :: int where "BPF_MAP_LOOKUP_ELEM = 1"
definition BPF_MAP_UPDATE_ELEM :: int where "BPF_MAP_UPDATE_ELEM = 2"
definition BPF_MAP_DELETE_ELEM :: int where "BPF_MAP_DELETE_ELEM = 3"
definition BPF_OBJ_GET :: int where "BPF_OBJ_GET = 7"

definition BPF_ANY :: int where "BPF_ANY = 0"
definition BPF_NOEXIST :: int where "BPF_NOEXIST = 1"
definition BPF_EXIST :: int where "BPF_EXIST = 2"

subsection \<open>Attribute structures\<close>

record bpf_attr_obj =
  attr_pathname :: string
  attr_bpf_fd :: u32
  attr_file_flags :: u32

record bpf_attr_map_elem =
  attr_map_fd :: u32
  attr_pad :: u32
  attr_key :: "bytes option"
  attr_value :: "bytes option"
  attr_flags :: u64

datatype bpf_attr = AttrObj bpf_attr_obj | AttrMapElem bpf_attr_map_elem

text \<open>A freshly constructed \<^verbatim>\<open>ctypes.Structure\<close> is zeroed.\<close>

definition new_attr_obj :: bpf_attr_obj where
  "new_attr_obj = \<lparr>attr_pathname = '''', attr_bpf_fd = 0, attr_file_flags = 0\<rparr>"

definition new_attr_map_elem :: bpf_attr_map_elem where
  "new_attr_map_elem =
     \<lparr>attr_map_fd = 0, attr_pad = 0, attr_key = None, attr_value = None, attr_flags = 0\<rparr>"

text \<open>\<^verbatim>\<open>ctypes.sizeof\<close> of the two structures.\<close>

fun attr_sizeof :: "bpf_attr \<Rightarrow> nat" where
  "attr_sizeof (AttrObj _) = 8 + 4 + 4"
| "attr_sizeof (AttrMapElem _) = 4 + 4 + 8 + 8 + 8"

text \<open>\<^verbatim>\<open>ctypes.create_string_buffer\<close> on bytes appends a NUL; on a size it is zero-filled.\<close>

definition string_buffer :: "bytes \<Rightarrow> bytes" where
  "string_buffer b = b @ [0]"

definition sized_buffer :: "nat \<Rightarrow> bytes" where
  "sized_buffer n = replicate n 0"

subsection \<open>The system call and its wrappers\<close>

type_synonym 'k bpf_sys = "int \<Rightarrow> bpf_attr \<Rightarrow> nat \<Rightarrow> 'k \<Rightarrow> (int \<times> int \<times> bytes) \<times> 'k"

definition bpf_raw :: "'k bpf_sys \<Rightarrow> int \<Rightarrow> bpf_attr \<Rightarrow> nat \<Rightarrow> ('k, int \<times> bytes) py" where
  "bpf_raw sys cmd attr sz k =
     (case sys cmd attr sz k of
        ((ret, errno, out), k') \<Rightarrow>
          (if ret < 0 then Inl (OSError errno) else Inr (ret, out), k'))"

definition bpf_obj_get :: "'k bpf_sys \<Rightarrow> string \<Rightarrow> ('k, int) py" where
  "bpf_obj_get sys pinned_path =
     (let attr = AttrObj (new_attr_obj\<lparr>attr_pathname := pinned_path @ [CHR 0x00]\<rparr>)
      in py_bind (bpf_raw sys BPF_OBJ_GET attr (attr_sizeof attr)) (\<lambda>(ret, _). py_return ret))"

definition bpf_map_update_elem ::
    "'k bpf_sys \<Rightarrow> int \<Rightarrow> bytes \<Rightarrow> bytes \<Rightarrow> int \<Rightarrow> ('k, unit) py" where
  "bpf_map_update_elem sys map_fd key val flags =
     (let attr = AttrMapElem (new_attr_map_elem
            \<lparr>attr_map_fd := word_of_int map_fd,
             attr_key := Some (string_buffer key),
             attr_value := Some (string_buffer val),
             attr_flags := word_of_int flags\<rparr>)
      in py_bind (bpf_raw sys BPF_MAP_UPDATE_ELEM attr (attr_sizeof attr)) (\<lambda>_. py_return ()))"

definition bpf_map_lookup_elem ::
    "'k bpf_sys \<Rightarrow> int \<Rightarrow> bytes \<Rightarrow> nat \<Rightarrow> ('k, bytes) py" where
  "bpf_map_lookup_elem sys map_fd key value_size =
     (let attr = AttrMapElem (new_attr_map_elem
            \<lparr>attr_map_fd := word_of_int map_fd,
             attr_key := Some (string_buffer key),
             attr_value := Some (sized_buffer value_size)\<rparr>)
      in py_bind (bpf_raw sys BPF_MAP_LOOKUP_ELEM attr (attr_sizeof attr))
           (\<lambda>(_, val_buf). py_return val_buf))"

definition bpf_map_delete_elem :: "'k bpf_sys \<Rightarrow> int \<Rightarrow> bytes \<Rightarrow> ('k, unit) py" where
  "bpf_map_delete_elem sys map_fd key =
     (let attr = AttrMapElem (new_attr_map_elem
            \<lparr>attr_map_fd := word_of_int map_fd, attr_key := Some (string_buffer key)\<rparr>)
      in py_bind (bpf_raw sys BPF_MAP_DELETE_ELEM attr (attr_sizeof attr)) (\<lambda>_. py_return ()))"

subsection \<open>\<^verbatim>\<open>PinnedMapCache\<close>\<close>

record pinned_map_cache =
  pin_base :: string
  cache_fds :: "string \<rightharpoonup> int"

text \<open>What the agent's code reads and writes: its descriptor cache and the kernel.\<close>

record 'k world =
  cache :: pinned_map_cache
  kern :: 'k

definition pmc_init :: "string \<Rightarrow> pinned_map_cache" where
  "pmc_init base = \<lparr>pin_base = base, cache_fds = Map.empty\<rparr>"

definition on_kern :: "('k, 'a) py \<Rightarrow> ('k world, 'a) py" where
  "on_kern m w = (case m (kern w) of (r, k') \<Rightarrow> (r, w\<lparr>kern := k'\<rparr>))"

definition pin_path :: "'k world \<Rightarrow> string \<Rightarrow> string" where
  "pin_path w name = pin_base (cache w) @ ''/'' @ name"

definition pmc_fd :: "'k bpf_sys \<Rightarrow> string \<Rightarrow> ('k world, int) py" where
  "pmc_fd sys name w =
     (case cache_fds (cache w) name of
        None \<Rightarrow>
          py_bind (on_kern (bpf_obj_get sys (pin_path w name)))
            (\<lambda>fd w'. (Inr fd, w'\<lparr>cache := (cache w')\<lparr>cache_fds := (cache_fds (cache w'))(name \<mapsto> fd)\<rparr>\<rparr>)) w
      | Some fd \<Rightarrow> (Inr fd, w))"

definition pmc_update :: "'k bpf_sys \<Rightarrow> string \<Rightarrow> bytes \<Rightarrow> bytes \<Rightarrow> int \<Rightarrow> ('k world, unit) py" where
  "pmc_update sys name key val flags =
     py_bind (pmc_fd sys name) (\<lambda>fd. on_kern (bpf_map_update_elem sys fd key val flags))"

definition pmc_lookup :: "'k bpf_sys \<Rightarrow> string \<Rightarrow> bytes \<Rightarrow> nat \<Rightarrow> ('k world, bytes) py" where
  "pmc_lookup sys name key value_size =
     py_bind (pmc_fd sys name) (\<lambda>fd. on_kern (bpf_map_lookup_elem sys fd key value_size))"

definition pmc_delete :: "'k bpf_sys \<Rightarrow> string \<Rightarrow> bytes \<Rightarrow> ('k world, unit) py" where
  "pmc_delete sys name key =
     py_bind (pmc_fd sys name) (\<lambda>fd. on_kern (bpf_map_delete_elem sys fd key))"

lemma pin_path_inj [simp]:
  "pin_path w n = pin_path w m \<longleftrightarrow> n = m"
  by (simp add: pin_path_def)

lemma pin_path_kern [simp]: "pin_path (w\<lparr>kern := k\<rparr>) n = pin_path w n"
  by (simp add: pin_path_def)

text \<open>A name that is already cached costs no system call.\<close>

lemma pmc_fd_cached [py_simps]:
  "cache_fds (cache w) name = Some fd \<Longrightarrow> pmc_fd sys name w = (Inr fd, w)"
  by (simp add: pmc_fd_def)

end
