(* ===== verification/Bpf_Kernel.thy ===== *)
theory Bpf_Kernel
  imports Bpf_Syscall
begin

text \<open>
  What the agent relies on from the kernel, as the locale \<open>bpf_kernel\<close>: the documented
  behaviour of bpf(2) on pinned hash, LRU-hash and array maps. \<open>view k p\<close> is the contents
  of the map pinned at path \<open>p\<close>, \<open>fd_path\<close> what a descriptor refers to, and \<open>fd_avail\<close>
  how many descriptors the process may still open. The client lemmas, proved once in
  the locale, say what each operation of \<^verbatim>\<open>PinnedMapCache\<close> does to the maps. A recording
  kernel, which keeps every state a concurrent reader can observe between two system calls,
  satisfies the same contract (\<open>traced_kernel\<close>), and so does an executable reference kernel.
\<close>

subsection \<open>Map declarations\<close>

datatype map_type = HashMap | LruHashMap | ArrayMap

record map_def =
  map_type :: map_type
  key_size :: nat
  value_size :: nat
  max_entries :: nat

type_synonym store = "string \<Rightarrow> bytes \<rightharpoonup> bytes"

definition has_room :: "map_def \<Rightarrow> (bytes \<rightharpoonup> bytes) \<Rightarrow> bytes \<Rightarrow> bool" where
  "has_room d m key =
     (case map_type d of
        HashMap \<Rightarrow> m key \<noteq> None \<or> card (dom m) < max_entries d
      | LruHashMap \<Rightarrow> True
      | ArrayMap \<Rightarrow> le_int key < int (max_entries d))"

text \<open>
  The effect of a successful insertion: the key holds the value and nothing else changes,
  except that a full LRU map may evict other keys.
\<close>

definition stored :: "map_def \<Rightarrow> 'n \<Rightarrow> bytes \<Rightarrow> bytes \<Rightarrow>
    ('n \<Rightarrow> bytes \<rightharpoonup> bytes) \<Rightarrow> ('n \<Rightarrow> bytes \<rightharpoonup> bytes) \<Rightarrow> bool" where
  "stored d n key val A A' \<longleftrightarrow>
     A' n key = Some val \<and>
     (\<forall>k. k \<noteq> key \<longrightarrow> A' n k = A n k \<or> map_type d = LruHashMap \<and> A' n k = None) \<and>
     (\<forall>m. m \<noteq> n \<longrightarrow> A' m = A m)"

subsection \<open>The agent's view of the kernel\<close>

text \<open>
  \<open>rules\<close> is the contents of the maps as the agent names them. \<open>world_ok\<close> is the agent's
  invariant: every cached descriptor refers to the map it is cached for, the maps of the
  table \<open>defs\<close> are pinned under the base directory, and there are enough descriptors left
  to open those of them that are not open yet.
\<close>

definition rules :: "('k \<Rightarrow> store) \<Rightarrow> 'k world \<Rightarrow> store" where
  "rules view w n = view (kern w) (pin_path w n)"

definition cache_ok :: "('k \<Rightarrow> u32 \<rightharpoonup> string) \<Rightarrow> 'k world \<Rightarrow> bool" where
  "cache_ok fd_path w \<longleftrightarrow>
     (\<forall>n fd. cache_fds (cache w) n = Some fd \<longrightarrow>
        0 \<le> fd \<and> fd < 2 ^ 31 \<and> fd_path (kern w) (word_of_int fd) = Some (pin_path w n))"

definition fds_ready :: "('k \<Rightarrow> nat) \<Rightarrow> string set \<Rightarrow> 'k world \<Rightarrow> bool" where
  "fds_ready fd_avail N w \<longleftrightarrow>
     finite N \<and> card {n \<in> N. cache_fds (cache w) n = None} \<le> fd_avail (kern w)"

definition world_ok :: "(string \<Rightarrow> map_def option) \<Rightarrow> ('k \<Rightarrow> u32 \<rightharpoonup> string) \<Rightarrow> ('k \<Rightarrow> nat) \<Rightarrow>
    (string \<rightharpoonup> map_def) \<Rightarrow> 'k world \<Rightarrow> bool" where
  "world_ok pinned fd_path fd_avail defs w \<longleftrightarrow>
     cache_ok fd_path w \<and> fds_ready fd_avail (dom defs) w \<and>
     (\<forall>n d. defs n = Some d \<longrightarrow> pinned (pin_path w n) = Some d)"

subsection \<open>Recording every observable state\<close>

text \<open>
  The recording kernel appends the state after each system call to a list. The agent issues
  system calls one at a time, so these states, with the initial one, are all that a packet
  processed while an agent operation runs can observe.
\<close>

definition traced :: "'k bpf_sys \<Rightarrow> ('k \<times> 'k list) bpf_sys" where
  "traced sys cmd attr sz kt =
     (case sys cmd attr sz (fst kt) of (r, k') \<Rightarrow> (r, (k', snd kt @ [k'])))"

definition observed :: "('k \<Rightarrow> store) \<Rightarrow> ('k \<times> 'k list) world \<Rightarrow> store list" where
  "observed view w = map (\<lambda>k n. view k (pin_path w n)) (snd (kern w))"

text \<open>
  From \<open>w\<close> to \<open>w'\<close> a reader sees only the old contents until, last, the new ones: the
  operation has one visibility point.
\<close>

definition one_commit :: "('k \<Rightarrow> store) \<Rightarrow> ('k \<times> 'k list) world \<Rightarrow> ('k \<times> 'k list) world \<Rightarrow> bool" where
  "one_commit view w w' \<longleftrightarrow>
     (\<exists>pre. observed view w' = observed view w @ pre @ [rules (view \<circ> fst) w'] \<and>
        set pre \<subseteq> {rules (view \<circ> fst) w})"

abbreviation ENOENT :: int where "ENOENT \<equiv> 2"
abbreviation E2BIG :: int where "E2BIG \<equiv> 7"

definition obj_get_attr :: "string \<Rightarrow> bpf_attr" where
  "obj_get_attr p = AttrObj (new_attr_obj\<lparr>attr_pathname := p @ [CHR 0x00]\<rparr>)"

definition elem_attr :: "u32 \<Rightarrow> bytes \<Rightarrow> bytes option \<Rightarrow> bpf_attr" where
  "elem_attr fd kb vb =
     AttrMapElem (new_attr_map_elem\<lparr>attr_map_fd := fd, attr_key := Some kb, attr_value := vb\<rparr>)"

lemma bpf_raw_traced:
  "bpf_raw (traced sys) c a z kt = (r, kt') \<Longrightarrow> snd kt' = snd kt @ [fst kt']"
  by (auto simp: bpf_raw_def traced_def split: prod.splits)

lemma py_bind_return_state:
  "py_bind m (\<lambda>x. py_return (f x)) s = (r, s') \<Longrightarrow> \<exists>r'. m s = (r', s')"
  by (auto simp: py_bind_def py_return_def split: prod.splits sum.splits)

lemma one_call_traced:
  "bpf_obj_get (traced sys) p kt = (r1, kt1) \<Longrightarrow> snd kt1 = snd kt @ [fst kt1]"
  "bpf_map_update_elem (traced sys) fd key val fl kt = (r2, kt2) \<Longrightarrow> snd kt2 = snd kt @ [fst kt2]"
  "bpf_map_lookup_elem (traced sys) fd key vs kt = (r3, kt3) \<Longrightarrow> snd kt3 = snd kt @ [fst kt3]"
  "bpf_map_delete_elem (traced sys) fd key kt = (r4, kt4) \<Longrightarrow> snd kt4 = snd kt @ [fst kt4]"
  by (auto simp: bpf_obj_get_def bpf_map_update_elem_def bpf_map_lookup_elem_def
      bpf_map_delete_elem_def Let_def case_prod_unfold
      dest!: py_bind_return_state bpf_raw_traced)

lemma observed_one_call:
  assumes "snd kt' = snd (kern w) @ [fst kt']"
  shows "observed view (w\<lparr>kern := kt'\<rparr>) =
    observed view w @ [rules (view \<circ> fst) (w\<lparr>kern := kt'\<rparr>)]"
  using assms by (simp add: observed_def rules_def pin_path_def fun_eq_iff)

subsection \<open>The contract\<close>

locale bpf_kernel =
  fixes sys :: "'k bpf_sys"
    and pinned :: "string \<Rightarrow> map_def option"
    and view :: "'k \<Rightarrow> store"
    and fd_path :: "'k \<Rightarrow> u32 \<rightharpoonup> string"
    and fd_avail :: "'k \<Rightarrow> nat"
  assumes view_sizes: "pinned p = Some d \<Longrightarrow> view k p key = Some v \<Longrightarrow>
      length key = key_size d \<and> length v = value_size d"
    and obj_get_ok: "pinned p = Some d \<Longrightarrow> 0 < fd_avail k \<Longrightarrow>
      \<exists>fd e out k'. sys 7 (obj_get_attr p) 16 k = ((fd, e, out), k') \<and> 0 \<le> fd \<and> fd < 2 ^ 31 \<and>
        fd_path k (word_of_int fd) = None \<and> fd_path k' = (fd_path k)(word_of_int fd \<mapsto> p) \<and>
        view k' = view k \<and> fd_avail k' = fd_avail k - 1"
    and obj_get_err: "pinned p = None \<or> fd_avail k = 0 \<Longrightarrow>
      \<exists>e out k'. sys 7 (obj_get_attr p) 16 k = ((-1, e, out), k') \<and>
        fd_path k' = fd_path k \<and> view k' = view k \<and> fd_avail k' = fd_avail k"
    and update_ok: "fd_path k fd = Some p \<Longrightarrow> pinned p = Some d \<Longrightarrow>
      key_size d \<le> length kb \<Longrightarrow> value_size d \<le> length vb \<Longrightarrow>
      has_room d (view k p) (take (key_size d) kb) \<Longrightarrow>
      \<exists>e out k'. sys 2 (elem_attr fd kb (Some vb)) 32 k = ((0, e, out), k') \<and>
        fd_path k' = fd_path k \<and> fd_avail k' = fd_avail k \<and>
        stored d p (take (key_size d) kb) (take (value_size d) vb) (view k) (view k')"
    and update_err: "fd_path k fd = Some p \<Longrightarrow> pinned p = Some d \<Longrightarrow>
      key_size d \<le> length kb \<Longrightarrow> value_size d \<le> length vb \<Longrightarrow>
      \<not> has_room d (view k p) (take (key_size d) kb) \<Longrightarrow>
      \<exists>out k'. sys 2 (elem_attr fd kb (Some vb)) 32 k = ((-1, E2BIG, out), k') \<and>
        fd_path k' = fd_path k \<and> fd_avail k' = fd_avail k \<and> view k' = view k"
    and lookup_ok: "fd_path k fd = Some p \<Longrightarrow> pinned p = Some d \<Longrightarrow>
      key_size d \<le> length kb \<Longrightarrow> length vb = value_size d \<Longrightarrow>
      view k p (take (key_size d) kb) = Some v \<Longrightarrow>
      \<exists>e k'. sys 1 (elem_attr fd kb (Some vb)) 32 k = ((0, e, v), k') \<and>
        fd_path k' = fd_path k \<and> fd_avail k' = fd_avail k \<and> view k' = view k"
    and lookup_err: "fd_path k fd = Some p \<Longrightarrow> pinned p = Some d \<Longrightarrow>
      key_size d \<le> length kb \<Longrightarrow> length vb = value_size d \<Longrightarrow>
      view k p (take (key_size d) kb) = None \<Longrightarrow>
      \<exists>out k'. sys 1 (elem_attr fd kb (Some vb)) 32 k = ((-1, ENOENT, out), k') \<and>
        fd_path k' = fd_path k \<and> fd_avail k' = fd_avail k \<and> view k' = view k"
    and delete_ok: "fd_path k fd = Some p \<Longrightarrow> pinned p = Some d \<Longrightarrow> map_type d \<noteq> ArrayMap \<Longrightarrow>
      key_size d \<le> length kb \<Longrightarrow> view k p (take (key_size d) kb) \<noteq> None \<Longrightarrow>
      \<exists>e out k'. sys 3 (elem_attr fd kb None) 32 k = ((0, e, out), k') \<and>
        fd_path k' = fd_path k \<and> fd_avail k' = fd_avail k \<and>
        view k' = (view k)(p := (view k p)(take (key_size d) kb := None))"
    and delete_err: "fd_path k fd = Some p \<Longrightarrow> pinned p = Some d \<Longrightarrow> map_type d \<noteq> ArrayMap \<Longrightarrow>
      key_size d \<le> length kb \<Longrightarrow> view k p (take (key_size d) kb) = None \<Longrightarrow>
      \<exists>out k'. sys 3 (elem_attr fd kb None) 32 k = ((-1, ENOENT, out), k') \<and>
        fd_path k' = fd_path k \<and> fd_avail k' = fd_avail k \<and> view k' = view k"
begin

lemmas sys_defs = bpf_obj_get_def bpf_map_update_elem_def bpf_map_lookup_elem_def
  bpf_map_delete_elem_def BPF_OBJ_GET_def BPF_MAP_UPDATE_ELEM_def BPF_MAP_LOOKUP_ELEM_def
  BPF_MAP_DELETE_ELEM_def Let_def string_buffer_def

lemma obj_get_spec:
  assumes "pinned p = Some d"
  shows "0 < fd_avail k \<Longrightarrow> \<exists>fd k'. bpf_obj_get sys p k = (Inr fd, k') \<and> 0 \<le> fd \<and> fd < 2 ^ 31 \<and>
      fd_path k (word_of_int fd) = None \<and> fd_path k' = (fd_path k)(word_of_int fd \<mapsto> p) \<and>
      view k' = view k \<and> fd_avail k' = fd_avail k - 1"
  using obj_get_ok [OF assms, of k]
  by (auto simp: sys_defs bpf_raw_def py_bind_def py_return_def obj_get_attr_def)

lemma update_elem_spec:
  assumes "fd_path k (word_of_int fd) = Some p" "pinned p = Some d"
    "length key = key_size d" "length val = value_size d"
  shows "has_room d (view k p) key \<Longrightarrow>
      \<exists>k'. bpf_map_update_elem sys fd key val 0 k = (Inr (), k') \<and> fd_path k' = fd_path k \<and>
        fd_avail k' = fd_avail k \<and> stored d p key val (view k) (view k')"
    and "\<not> has_room d (view k p) key \<Longrightarrow>
      \<exists>k'. bpf_map_update_elem sys fd key val 0 k = (Inl (OSError E2BIG), k') \<and>
        fd_path k' = fd_path k \<and> fd_avail k' = fd_avail k \<and> view k' = view k"
  using update_ok [OF assms(1,2), of "key @ [0]" "val @ [0]"]
    update_err [OF assms(1,2), of "key @ [0]" "val @ [0]"] assms(3,4)
  by (auto simp: sys_defs bpf_raw_def py_bind_def py_return_def elem_attr_def new_attr_map_elem_def)

lemma lookup_elem_spec:
  assumes "fd_path k (word_of_int fd) = Some p" "pinned p = Some d"
    "length key = key_size d" "vs = value_size d"
  shows "view k p key = Some v \<Longrightarrow>
      \<exists>k'. bpf_map_lookup_elem sys fd key vs k = (Inr v, k') \<and> fd_path k' = fd_path k \<and>
        fd_avail k' = fd_avail k \<and> view k' = view k"
    and "view k p key = None \<Longrightarrow>
      \<exists>k'. bpf_map_lookup_elem sys fd key vs k = (Inl (OSError ENOENT), k') \<and>
        fd_path k' = fd_path k \<and> fd_avail k' = fd_avail k \<and> view k' = view k"
  using lookup_ok [OF assms(1,2), of "key @ [0]" "sized_buffer vs"]
    lookup_err [OF assms(1,2), of "key @ [0]" "sized_buffer vs"] assms(3,4)
  by (auto simp: sys_defs bpf_raw_def py_bind_def py_return_def elem_attr_def
      new_attr_map_elem_def sized_buffer_def)

lemma delete_elem_spec:
  assumes "fd_path k (word_of_int fd) = Some p" "pinned p = Some d" "map_type d \<noteq> ArrayMap"
    "length key = key_size d"
  shows "view k p key \<noteq> None \<Longrightarrow>
      \<exists>k'. bpf_map_delete_elem sys fd key k = (Inr (), k') \<and> fd_path k' = fd_path k \<and>
        fd_avail k' = fd_avail k \<and> view k' = (view k)(p := (view k p)(key := None))"
    and "view k p key = None \<Longrightarrow>
      \<exists>k'. bpf_map_delete_elem sys fd key k = (Inl (OSError ENOENT), k') \<and>
        fd_path k' = fd_path k \<and> fd_avail k' = fd_avail k \<and> view k' = view k"
  using delete_ok [OF assms(1-3), of "key @ [0]"]
    delete_err [OF assms(1-3), of "key @ [0]"] assms(4)
  by (auto simp: sys_defs bpf_raw_def py_bind_def py_return_def elem_attr_def
      new_attr_map_elem_def)

text \<open>The operations of \<^verbatim>\<open>PinnedMapCache\<close> on a world that satisfies the agent's invariant.\<close>

lemma world_ok_same_fds:
  assumes "world_ok pinned fd_path fd_avail defs w"
    and "fd_path k' = fd_path (kern w)" "fd_avail k' = fd_avail (kern w)"
  shows "world_ok pinned fd_path fd_avail defs (w\<lparr>kern := k'\<rparr>)"
  using assms by (simp add: world_ok_def cache_ok_def fds_ready_def)

lemma pmc_fd_spec:
  assumes ok: "world_ok pinned fd_path fd_avail defs w" and d: "defs n = Some d"
  obtains fd w' where "pmc_fd sys n w = (Inr fd, w')"
    "world_ok pinned fd_path fd_avail defs w'" "rules view w' = rules view w"
    "fd_path (kern w') (word_of_int fd) = Some (pin_path w n)"
    "pinned (pin_path w n) = Some d" "pin_base (cache w') = pin_base (cache w)"
proof (cases "cache_fds (cache w) n")
  case (Some fd)
  with that [of fd w] ok d show thesis by (simp add: pmc_fd_def world_ok_def cache_ok_def)
next
  case None
  have pin: "pinned (pin_path w n) = Some d" using ok d by (simp add: world_ok_def)
  let ?N = "{m \<in> dom defs. cache_fds (cache w) m = None}"
  have fin: "finite (dom defs)" and le: "card ?N \<le> fd_avail (kern w)"
    using ok by (simp_all add: world_ok_def fds_ready_def)
  have mem: "n \<in> ?N" using None d by auto
  with fin have pos: "0 < card ?N" by (auto simp: card_gt_0_iff)
  with le have "0 < fd_avail (kern w)" by linarith
  from obj_get_spec [OF pin this] obtain fd k' where
    get: "bpf_obj_get sys (pin_path w n) (kern w) = (Inr fd, k')" and fd: "0 \<le> fd" "fd < 2 ^ 31"
    and fresh: "fd_path (kern w) (word_of_int fd) = None"
    and fp: "fd_path k' = (fd_path (kern w))(word_of_int fd \<mapsto> pin_path w n)"
    and vw: "view k' = view (kern w)" and av: "fd_avail k' = fd_avail (kern w) - 1"
    by auto
  let ?w = "w\<lparr>kern := k', cache := (cache w)\<lparr>cache_fds := (cache_fds (cache w))(n \<mapsto> fd)\<rparr>\<rparr>"
  have call: "pmc_fd sys n w = (Inr fd, ?w)"
    using None get by (simp add: pmc_fd_def py_bind_def on_kern_def)
  have path: "pin_path ?w m = pin_path w m" for m by (simp add: pin_path_def)
  have "{m \<in> dom defs. cache_fds (cache ?w) m = None} = ?N - {n}" by auto
  then have ready: "fds_ready fd_avail (dom defs) ?w"
    using fin le mem pos av by (simp add: fds_ready_def card_Diff_singleton)
  have other: "(word_of_int f :: u32) \<noteq> word_of_int fd" if "cache_fds (cache w) m = Some f" for m f
    using ok that fresh unfolding world_ok_def cache_ok_def by (metis option.distinct(1))
  have "cache_ok fd_path ?w"
    using ok fd unfolding world_ok_def cache_ok_def by (auto simp: path fp dest: other)
  with ready have "world_ok pinned fd_path fd_avail defs ?w"
    using ok by (simp add: world_ok_def path)
  moreover have "rules view ?w = rules view w" by (rule ext) (simp add: rules_def path vw)
  ultimately show thesis using that [OF call] pin by (simp add: fp)
qed

lemma pmc_update_spec:
  assumes ok: "world_ok pinned fd_path fd_avail defs w" and d: "defs n = Some d"
    and len: "length key = key_size d" "length val = value_size d"
  obtains w' where
    "pmc_update sys n key val BPF_ANY w =
       ((if has_room d (rules view w n) key then Inr () else Inl (OSError E2BIG)), w')"
    "world_ok pinned fd_path fd_avail defs w'" "pin_base (cache w') = pin_base (cache w)"
    "if has_room d (rules view w n) key then stored d n key val (rules view w) (rules view w')
     else rules view w' = rules view w"
proof -
  obtain fd w1 where fd: "pmc_fd sys n w = (Inr fd, w1)"
    and ok1: "world_ok pinned fd_path fd_avail defs w1" and r1: "rules view w1 = rules view w"
    and fp: "fd_path (kern w1) (word_of_int fd) = Some (pin_path w n)"
    and pin: "pinned (pin_path w n) = Some d" and base: "pin_base (cache w1) = pin_base (cache w)"
    by (rule pmc_fd_spec [OF ok d])
  have path: "pin_path w1 m = pin_path w m" for m using base by (simp add: pin_path_def)
  have room: "has_room d (view (kern w1) (pin_path w n)) key \<longleftrightarrow> has_room d (rules view w n) key"
    using fun_cong [OF r1, of n] by (simp add: rules_def path)
  show thesis
  proof (cases "has_room d (rules view w n) key")
    case True
    with update_elem_spec(1) [OF fp pin len] room obtain k' where
      u: "bpf_map_update_elem sys fd key val 0 (kern w1) = (Inr (), k')"
      "fd_path k' = fd_path (kern w1)" "fd_avail k' = fd_avail (kern w1)"
      and st: "stored d (pin_path w n) key val (view (kern w1)) (view k')"
      by auto
    have "stored d n key val (rules view w) (rules view (w1\<lparr>kern := k'\<rparr>))"
      using st by (auto simp: stored_def rules_def path r1 [symmetric])
    with True that [of "w1\<lparr>kern := k'\<rparr>"] fd u base world_ok_same_fds [OF ok1 u(2,3)] show thesis
      by (simp add: pmc_update_def py_simps on_kern_def BPF_ANY_def)
  next
    case False
    with update_elem_spec(2) [OF fp pin len] room obtain k' where
      u: "bpf_map_update_elem sys fd key val 0 (kern w1) = (Inl (OSError E2BIG), k')"
      "fd_path k' = fd_path (kern w1)" "fd_avail k' = fd_avail (kern w1)" "view k' = view (kern w1)"
      by auto
    have "rules view (w1\<lparr>kern := k'\<rparr>) = rules view w"
      using u(4) by (auto simp: rules_def r1 [symmetric])
    with False that [of "w1\<lparr>kern := k'\<rparr>"] fd u base world_ok_same_fds [OF ok1 u(2,3)] show thesis
      by (simp add: pmc_update_def py_simps on_kern_def BPF_ANY_def)
  qed
qed

lemma pmc_lookup_spec:
  assumes ok: "world_ok pinned fd_path fd_avail defs w" and d: "defs n = Some d"
    and len: "length key = key_size d" "vs = value_size d"
  obtains w' where
    "pmc_lookup sys n key vs w =
       ((case rules view w n key of Some v \<Rightarrow> Inr v | None \<Rightarrow> Inl (OSError ENOENT)), w')"
    "world_ok pinned fd_path fd_avail defs w'" "pin_base (cache w') = pin_base (cache w)"
    "rules view w' = rules view w"
proof -
  obtain fd w1 where fd: "pmc_fd sys n w = (Inr fd, w1)"
    and ok1: "world_ok pinned fd_path fd_avail defs w1" and r1: "rules view w1 = rules view w"
    and fp: "fd_path (kern w1) (word_of_int fd) = Some (pin_path w n)"
    and pin: "pinned (pin_path w n) = Some d" and base: "pin_base (cache w1) = pin_base (cache w)"
    by (rule pmc_fd_spec [OF ok d])
  have path: "pin_path w1 m = pin_path w m" for m using base by (simp add: pin_path_def)
  have vw: "view (kern w1) (pin_path w n) key = rules view w n key"
    using fun_cong [OF r1, of n] by (simp add: rules_def path)
  obtain k' where u: "bpf_map_lookup_elem sys fd key vs (kern w1) =
      ((case rules view w n key of Some v \<Rightarrow> Inr v | None \<Rightarrow> Inl (OSError ENOENT)), k')"
    "fd_path k' = fd_path (kern w1)" "fd_avail k' = fd_avail (kern w1)" "view k' = view (kern w1)"
    using lookup_elem_spec [OF fp pin len] vw by (cases "rules view w n key") auto
  have "rules view (w1\<lparr>kern := k'\<rparr>) = rules view w"
    using u(4) by (auto simp: rules_def r1 [symmetric])
  with that [of "w1\<lparr>kern := k'\<rparr>"] fd u base world_ok_same_fds [OF ok1 u(2,3)] show thesis
    by (simp add: pmc_lookup_def py_simps on_kern_def)
qed

lemma pmc_delete_spec:
  assumes ok: "world_ok pinned fd_path fd_avail defs w" and d: "defs n = Some d"
    and len: "length key = key_size d" "map_type d \<noteq> ArrayMap"
  obtains w' where
    "pmc_delete sys n key w =
       ((if rules view w n key = None then Inl (OSError ENOENT) else Inr ()), w')"
    "world_ok pinned fd_path fd_avail defs w'" "pin_base (cache w') = pin_base (cache w)"
    "rules view w' = (rules view w)(n := (rules view w n)(key := None))"
proof -
  obtain fd w1 where fd: "pmc_fd sys n w = (Inr fd, w1)"
    and ok1: "world_ok pinned fd_path fd_avail defs w1" and r1: "rules view w1 = rules view w"
    and fp: "fd_path (kern w1) (word_of_int fd) = Some (pin_path w n)"
    and pin: "pinned (pin_path w n) = Some d" and base: "pin_base (cache w1) = pin_base (cache w)"
    by (rule pmc_fd_spec [OF ok d])
  have path: "pin_path w1 m = pin_path w m" for m using base by (simp add: pin_path_def)
  have vw: "view (kern w1) (pin_path w n) key = rules view w n key"
    using fun_cong [OF r1, of n] by (simp add: rules_def path)
  obtain k' where u: "bpf_map_delete_elem sys fd key (kern w1) =
      ((if rules view w n key = None then Inl (OSError ENOENT) else Inr ()), k')"
    "fd_path k' = fd_path (kern w1)" "fd_avail k' = fd_avail (kern w1)"
    "view k' = (view (kern w1))(pin_path w n := (view (kern w1) (pin_path w n))(key := None))"
  proof (cases "rules view w n key")
    case None
    then have "(view (kern w1) (pin_path w n))(key := None) = view (kern w1) (pin_path w n)"
      using vw by (simp add: fun_upd_idem)
    with None delete_elem_spec(2) [OF fp pin len(2,1)] vw that show thesis by auto
  next
    case Some
    with delete_elem_spec(1) [OF fp pin len(2,1)] vw that show thesis by auto
  qed
  have "rules view (w1\<lparr>kern := k'\<rparr>) = (rules view w)(n := (rules view w n)(key := None))"
    using u(4) by (auto simp: rules_def path fun_eq_iff r1 [symmetric])
  with that [of "w1\<lparr>kern := k'\<rparr>"] fd u base world_ok_same_fds [OF ok1 u(2,3)] show thesis
    by (simp add: pmc_delete_def py_simps on_kern_def)
qed

text \<open>The recording kernel satisfies the contract.\<close>

lemma traced_kernel:
  "bpf_kernel (traced sys) pinned (view \<circ> fst) (fd_path \<circ> fst) (fd_avail \<circ> fst)"
proof (unfold_locales, goal_cases)
  case (1 p d k key v)
  then show ?case using view_sizes by simp
next
  case (2 p d k)
  then show ?case using obj_get_ok [of p d "fst k"] by (auto simp: traced_def)
next
  case (3 p k)
  then show ?case using obj_get_err [of p "fst k"] by (auto simp: traced_def)
next
  case (4 k fd p d kb vb)
  then show ?case using update_ok [of "fst k" fd p d kb vb] by (auto simp: traced_def)
next
  case (5 k fd p d kb vb)
  then show ?case using update_err [of "fst k" fd p d kb vb] by (auto simp: traced_def)
next
  case (6 k fd p d kb vb v)
  then show ?case using lookup_ok [of "fst k" fd p d kb vb v] by (auto simp: traced_def)
next
  case (7 k fd p d kb vb)
  then show ?case using lookup_err [of "fst k" fd p d kb vb] by (auto simp: traced_def)
next
  case (8 k fd p d kb)
  then show ?case using delete_ok [of "fst k" fd p d kb] by (auto simp: traced_def)
next
  case (9 k fd p d kb)
  then show ?case using delete_err [of "fst k" fd p d kb] by (auto simp: traced_def)
qed

lemma pmc_fd_observed:
  assumes ok: "world_ok pinned (fd_path \<circ> fst) (fd_avail \<circ> fst) defs w" and d: "defs n = Some d"
    and call: "pmc_fd (traced sys) n w = (r, w')"
  shows "\<exists>pre. observed view w' = observed view w @ pre \<and> set pre \<subseteq> {rules (view \<circ> fst) w}"
proof (cases "cache_fds (cache w) n")
  case (Some fd)
  with call show ?thesis by (auto simp: pmc_fd_def)
next
  case None
  obtain r1 kt where get: "bpf_obj_get (traced sys) (pin_path w n) (kern w) = (r1, kt)"
    by (rule prod.exhaust)
  have kt: "kern w' = kt" and base: "pin_base (cache w') = pin_base (cache w)"
    using call None get
    by (auto simp: pmc_fd_def py_bind_def on_kern_def split: sum.splits prod.splits)
  have "observed view w' = observed view (w\<lparr>kern := kt\<rparr>)"
    "rules (view \<circ> fst) w' = rules (view \<circ> fst) (w\<lparr>kern := kt\<rparr>)"
    using kt base by (auto simp: observed_def rules_def pin_path_def fun_eq_iff)
  moreover have "rules (view \<circ> fst) w' = rules (view \<circ> fst) w"
    using bpf_kernel.pmc_fd_spec [OF traced_kernel ok d] call by (metis snd_conv)
  ultimately show ?thesis
    using observed_one_call [OF one_call_traced(1) [OF get], where view = view] by auto
qed

lemma traced_op_commit:
  assumes ok: "world_ok pinned (fd_path \<circ> fst) (fd_avail \<circ> fst) defs w" and d: "defs n = Some d"
    and one: "\<And>fd kt r kt'. m fd kt = (r, kt') \<Longrightarrow> snd kt' = snd kt @ [fst kt']"
    and call: "py_bind (pmc_fd (traced sys) n) (\<lambda>fd. on_kern (m fd)) w = (r, w')"
  shows "one_commit view w w'"
proof -
  obtain fd w1 where fd: "pmc_fd (traced sys) n w = (Inr fd, w1)"
    and rules1: "rules (view \<circ> fst) w1 = rules (view \<circ> fst) w"
    by (rule bpf_kernel.pmc_fd_spec [OF traced_kernel ok d])
  obtain r2 kt where m: "m fd (kern w1) = (r2, kt)" by (rule prod.exhaust)
  then have w': "w' = w1\<lparr>kern := kt\<rparr>" using call fd by (simp add: py_simps on_kern_def)
  show ?thesis
    using pmc_fd_observed [OF ok d fd] observed_one_call [OF one [OF m], where view = view]
    by (auto simp: one_commit_def w')
qed

lemma pmc_commit:
  assumes "world_ok pinned (fd_path \<circ> fst) (fd_avail \<circ> fst) defs w" "defs n = Some d"
  shows "pmc_update (traced sys) n key val fl w = (r1, w1) \<Longrightarrow> one_commit view w w1"
    and "pmc_lookup (traced sys) n key vs w = (r2, w2) \<Longrightarrow> one_commit view w w2"
    and "pmc_delete (traced sys) n key w = (r3, w3) \<Longrightarrow> one_commit view w w3"
  unfolding pmc_update_def pmc_lookup_def pmc_delete_def
  by (erule traced_op_commit [OF assms, rotated], erule one_call_traced)+

end

end
