(* ===== verification/Upf_Maps.thy ===== *)
theory Upf_Maps
  imports Bpf_Kernel
begin

text \<open>
  \<^verbatim>\<open>bpf/upf_maps.h\<close>: the structures stored in the BPF maps, the map declarations the agent
  writes through, and the metric indices. A structure is a record of machine words; reading
  it out of a map value is a sequence of little-endian loads at the C offsets. \<open>tables_of\<close>
  is the typed contents of the rule maps that the datapath programs see when the agent has
  left the raw bytes \<open>A\<close> in them.
\<close>

subsection \<open>Loads from raw memory (little-endian host)\<close>

definition rd8 :: "bytes \<Rightarrow> nat \<Rightarrow> u8" where
  "rd8 bs off = word_of_int (le_int (slice off (off + 1) bs))"

definition rd16 :: "bytes \<Rightarrow> nat \<Rightarrow> u16" where
  "rd16 bs off = word_of_int (le_int (slice off (off + 2) bs))"

definition rd32 :: "bytes \<Rightarrow> nat \<Rightarrow> u32" where
  "rd32 bs off = word_of_int (le_int (slice off (off + 4) bs))"

definition rd64 :: "bytes \<Rightarrow> nat \<Rightarrow> u64" where
  "rd64 bs off = word_of_int (le_int (slice off (off + 8) bs))"

definition key32 :: "u32 \<Rightarrow> bytes" where
  "key32 k = le_bytes 4 (uint k)"

subsection \<open>Value structures\<close>

record session_val =
  sess_pdr_id :: u32
  sess_qer_id :: u32
  sess_far_id :: u32
  sess_pad :: u32

record pdr_val =
  pdr_far_id :: u32
  pdr_qer_id :: u32
  pdr_precedence :: u32
  pdr_urr_id :: u32

record far_val =
  far_action :: u32
  far_out_ifindex :: u32
  far_peer_ipv4_be :: u32
  far_out_teid_be :: u32

record qer_val =
  qer_mbr_ul_bps :: u64
  qer_mbr_dl_bps :: u64
  qer_burst_bytes :: u32
  qer_pad :: u32

record tc_bundle_slot =
  slot_far_id :: u32
  slot_qer_id :: u32
  slot_urr_id :: u32
  slot_precedence :: u32
  slot_generation :: u32
  slot_pad :: u32

record tc_bundle =
  bundle_active :: u32
  bundle_pad :: u32
  bundle_slot0 :: tc_bundle_slot
  bundle_slot1 :: tc_bundle_slot

record dl_ue_val =
  ue_teid_be :: u32
  ue_gnb_ipv4_be :: u32
  ue_qfi :: u16
  ue_pad :: u16

record upf_config =
  cfg_n3_addr_be :: u32

abbreviation FAR_DROP :: u32 where "FAR_DROP \<equiv> 0"
abbreviation FAR_FORWARD :: u32 where "FAR_FORWARD \<equiv> 1"
abbreviation FAR_BUFFER :: u32 where "FAR_BUFFER \<equiv> 2"

definition ld_session :: "bytes \<Rightarrow> session_val" where
  "ld_session b = \<lparr>sess_pdr_id = rd32 b 0, sess_qer_id = rd32 b 4, sess_far_id = rd32 b 8,
     sess_pad = rd32 b 12\<rparr>"

definition ld_pdr :: "bytes \<Rightarrow> pdr_val" where
  "ld_pdr b = \<lparr>pdr_far_id = rd32 b 0, pdr_qer_id = rd32 b 4, pdr_precedence = rd32 b 8,
     pdr_urr_id = rd32 b 12\<rparr>"

definition ld_far :: "bytes \<Rightarrow> far_val" where
  "ld_far b = \<lparr>far_action = rd32 b 0, far_out_ifindex = rd32 b 4, far_peer_ipv4_be = rd32 b 8,
     far_out_teid_be = rd32 b 12\<rparr>"

definition ld_qer :: "bytes \<Rightarrow> qer_val" where
  "ld_qer b = \<lparr>qer_mbr_ul_bps = rd64 b 0, qer_mbr_dl_bps = rd64 b 8, qer_burst_bytes = rd32 b 16,
     qer_pad = rd32 b 20\<rparr>"

definition ld_slot :: "bytes \<Rightarrow> tc_bundle_slot" where
  "ld_slot b = \<lparr>slot_far_id = rd32 b 0, slot_qer_id = rd32 b 4, slot_urr_id = rd32 b 8,
     slot_precedence = rd32 b 12, slot_generation = rd32 b 16, slot_pad = rd32 b 20\<rparr>"

definition ld_bundle :: "bytes \<Rightarrow> tc_bundle" where
  "ld_bundle b = \<lparr>bundle_active = rd32 b 0, bundle_pad = rd32 b 4,
     bundle_slot0 = ld_slot (drop 8 b), bundle_slot1 = ld_slot (drop 32 b)\<rparr>"

definition ld_dl_ue :: "bytes \<Rightarrow> dl_ue_val" where
  "ld_dl_ue b = \<lparr>ue_teid_be = rd32 b 0, ue_gnb_ipv4_be = rd32 b 4, ue_qfi = rd16 b 8,
     ue_pad = rd16 b 10\<rparr>"

definition ld_config :: "bytes \<Rightarrow> upf_config" where
  "ld_config b = \<lparr>cfg_n3_addr_be = rd32 b 0\<rparr>"

subsection \<open>Map declarations\<close>

definition upf_map_defs :: "(string \<times> map_def) list" where
  "upf_map_defs =
     [(''teid_session'',   \<lparr>map_type = LruHashMap, key_size = 4, value_size = 16, max_entries = 65536\<rparr>),
      (''pdr_table'',      \<lparr>map_type = HashMap,    key_size = 4, value_size = 16, max_entries = 4096\<rparr>),
      (''far_table'',      \<lparr>map_type = ArrayMap,   key_size = 4, value_size = 16, max_entries = 4096\<rparr>),
      (''qer_table'',      \<lparr>map_type = ArrayMap,   key_size = 4, value_size = 24, max_entries = 4096\<rparr>),
      (''tc_bundle_map'',  \<lparr>map_type = HashMap,    key_size = 4, value_size = 56, max_entries = 4096\<rparr>),
      (''dl_ue_map'',      \<lparr>map_type = HashMap,    key_size = 4, value_size = 12, max_entries = 65536\<rparr>),
      (''upf_config_map'', \<lparr>map_type = ArrayMap,   key_size = 4, value_size = 4, max_entries = 1\<rparr>)]"

definition upf_defs :: "string \<rightharpoonup> map_def" where
  "upf_defs = map_of upf_map_defs"

subsection \<open>Metric indices\<close>

datatype metric_idx =
    M_RX_TOTAL | M_RX_GTPU | M_RX_GPDU | M_HIT | M_MISS_TEID | M_MISS_PDR
  | M_PASS_NONGTP | M_PASS_CTRL | M_DROP_PARSE
  | M_TC_MISS_FAR | M_TC_FAR_DROP | M_TC_FAR_FORWARD | M_TC_FAR_BUFFER
  | M_TC_DECAP_ERR | M_TC_REDIRECT_ERR | M_TC_QER_PASS | M_TC_QER_DROP
  | M_TC_URR_UPDATED | M_TC_DL_HIT | M_TC_DL_MISS | M_TC_DL_ENCAP_ERR

text \<open>The enumerators in their order; an enumerator's value is its position.\<close>

definition metric_enum :: "metric_idx list" where
  "metric_enum =
     [M_RX_TOTAL, M_RX_GTPU, M_RX_GPDU, M_HIT, M_MISS_TEID, M_MISS_PDR,
      M_PASS_NONGTP, M_PASS_CTRL, M_DROP_PARSE,
      M_TC_MISS_FAR, M_TC_FAR_DROP, M_TC_FAR_FORWARD, M_TC_FAR_BUFFER,
      M_TC_DECAP_ERR, M_TC_REDIRECT_ERR, M_TC_QER_PASS, M_TC_QER_DROP,
      M_TC_URR_UPDATED, M_TC_DL_HIT, M_TC_DL_MISS, M_TC_DL_ENCAP_ERR]"

definition M_MAX :: nat where "M_MAX = length metric_enum"

lemma metric_enum_complete: "m \<in> set metric_enum" "distinct metric_enum"
  by (cases m; simp add: metric_enum_def) (simp add: metric_enum_def)

text \<open>The indices are an enumeration of the library, with the C order as its order.\<close>

instantiation metric_idx :: enum
begin

definition enum_metric_idx :: "metric_idx list" where
  "enum_metric_idx = metric_enum"

definition enum_all_metric_idx :: "(metric_idx \<Rightarrow> bool) \<Rightarrow> bool" where
  "enum_all_metric_idx P \<longleftrightarrow> list_all P metric_enum"

definition enum_ex_metric_idx :: "(metric_idx \<Rightarrow> bool) \<Rightarrow> bool" where
  "enum_ex_metric_idx P \<longleftrightarrow> list_ex P metric_enum"

instance
  by standard (auto simp: enum_metric_idx_def enum_all_metric_idx_def enum_ex_metric_idx_def
      metric_enum_complete list_all_iff list_ex_iff)

end

subsection \<open>The rule maps as the datapath reads them\<close>

record rule_tables =
  teid_session :: "u32 \<rightharpoonup> session_val"
  pdr_table :: "u32 \<rightharpoonup> pdr_val"
  far_table :: "u32 \<rightharpoonup> far_val"
  qer_table :: "u32 \<rightharpoonup> qer_val"
  tc_bundle_map :: "u32 \<rightharpoonup> tc_bundle"
  dl_ue_map :: "u32 \<rightharpoonup> dl_ue_val"
  upf_config_map :: "u32 \<rightharpoonup> upf_config"

definition tables_of :: "store \<Rightarrow> rule_tables" where
  "tables_of A =
     \<lparr>teid_session = (\<lambda>k. map_option ld_session (A ''teid_session'' (key32 k))),
      pdr_table = (\<lambda>k. map_option ld_pdr (A ''pdr_table'' (key32 k))),
      far_table = (\<lambda>k. map_option ld_far (A ''far_table'' (key32 k))),
      qer_table = (\<lambda>k. map_option ld_qer (A ''qer_table'' (key32 k))),
      tc_bundle_map = (\<lambda>k. map_option ld_bundle (A ''tc_bundle_map'' (key32 k))),
      dl_ue_map = (\<lambda>k. map_option ld_dl_ue (A ''dl_ue_map'' (key32 k))),
      upf_config_map = (\<lambda>k. map_option ld_config (A ''upf_config_map'' (key32 k)))\<rparr>"

text \<open>
  \<^verbatim>\<open>&bundle->slot[bundle->active & 1]\<close>: the slot a packet is decided by.
\<close>

definition active_slot :: "tc_bundle \<Rightarrow> tc_bundle_slot" where
  "active_slot b = (if and (bundle_active b) 1 = 0 then bundle_slot0 b else bundle_slot1 b)"

subsection \<open>Loads from concatenated fields\<close>

lemma rd_skip [layout_simps]:
  "length xs \<le> off \<Longrightarrow> rd8 (xs @ ys) off = rd8 ys (off - length xs)"
  "length xs \<le> off \<Longrightarrow> rd16 (xs @ ys) off = rd16 ys (off - length xs)"
  "length xs \<le> off \<Longrightarrow> rd32 (xs @ ys) off = rd32 ys (off - length xs)"
  "length xs \<le> off \<Longrightarrow> rd64 (xs @ ys) off = rd64 ys (off - length xs)"
  by (simp_all add: rd8_def rd16_def rd32_def rd64_def slice_def)

lemma rd_in [layout_simps]:
  "off + 1 \<le> length xs \<Longrightarrow> rd8 (xs @ ys) off = rd8 xs off"
  "off + 2 \<le> length xs \<Longrightarrow> rd16 (xs @ ys) off = rd16 xs off"
  "off + 4 \<le> length xs \<Longrightarrow> rd32 (xs @ ys) off = rd32 xs off"
  "off + 8 \<le> length xs \<Longrightarrow> rd64 (xs @ ys) off = rd64 xs off"
  by (simp_all add: rd8_def rd16_def rd32_def rd64_def)

lemma word_of_int_mod_pow:
  "LENGTH('a) = n \<Longrightarrow> (word_of_int (v mod 2 ^ n) :: 'a::len word) = word_of_int v"
  by (simp add: word_uint_eq_iff uint_word_of_int)

lemma rd_le_bytes [layout_simps]:
  "rd8 (le_bytes 1 v) 0 = word_of_int v"
  "rd16 (le_bytes 2 v) 0 = word_of_int v"
  "rd32 (le_bytes 4 v) 0 = word_of_int v"
  "rd64 (le_bytes 8 v) 0 = word_of_int v"
  using word_of_int_mod_pow [where 'a = 8] word_of_int_mod_pow [where 'a = 16]
    word_of_int_mod_pow [where 'a = 32] word_of_int_mod_pow [where 'a = 64]
  by (simp_all add: rd8_def rd16_def rd32_def rd64_def le_int_le_bytes del: le_bytes.simps)

lemma length_key32 [simp]: "length (key32 k) = 4"
  by (simp add: key32_def)

lemma key32_of_int: "0 \<le> v \<Longrightarrow> v < 2 ^ 32 \<Longrightarrow> key32 (word_of_int v) = le_bytes 4 v"
  by (simp add: key32_def uint_word_of_int)

lemma key32_inj [simp]: "key32 a = key32 b \<longleftrightarrow> a = b"
  using le_bytes_inj [of "uint a" 4 "uint b"] uint_lt2p [of a] uint_lt2p [of b]
  by (auto simp: key32_def word_uint_eq_iff)

lemma key32_rd32: "4 \<le> length b \<Longrightarrow> key32 (rd32 b 0) = take 4 b"
  using le_int_bound [of "take 4 b"]
  by (simp add: key32_def rd32_def slice_def uint_word_of_int del: le_bytes.simps)

lemma key32_exhaust: "length key = 4 \<Longrightarrow> \<exists>k. key = key32 k"
  by (metis key32_rd32 order_refl take_all)

end
