(* ===== verification/Agent_Encode.thy ===== *)
theory Agent_Encode
  imports Upf_Maps
begin

text \<open>
  The domain encoders of \<^verbatim>\<open>loader/agent.py\<close>: Python integers to the bytes of the C structures
  of \<^verbatim>\<open>bpf/upf_maps.h\<close>. The lemmas say when an encoder raises \<^verbatim>\<open>struct.error\<close> and that the
  bytes it returns, read at the C offsets, are the values that were encoded.
\<close>

definition enc_session :: "int \<Rightarrow> int \<Rightarrow> int \<Rightarrow> bytes res" where
  "enc_session pdr_id qer_id far_id =
     struct_pack Little [FmtI, FmtI, FmtI, FmtI] [pdr_id, qer_id, far_id, 0]"

definition enc_pdr :: "int \<Rightarrow> int \<Rightarrow> int \<Rightarrow> int \<Rightarrow> bytes res" where
  "enc_pdr far_id qer_id precedence urr_id =
     struct_pack Little [FmtI, FmtI, FmtI, FmtI] [far_id, qer_id, precedence, urr_id]"

definition enc_far :: "int \<Rightarrow> int \<Rightarrow> int \<Rightarrow> int \<Rightarrow> bytes res" where
  "enc_far action out_ifindex peer_ipv4_be out_teid_be =
     struct_pack Little [FmtI, FmtI, FmtI, FmtI] [action, out_ifindex, peer_ipv4_be, out_teid_be]"

definition enc_qer :: "int \<Rightarrow> int \<Rightarrow> int \<Rightarrow> bytes res" where
  "enc_qer mbr_ul_bps mbr_dl_bps burst_bytes =
     struct_pack Little [FmtQ, FmtQ, FmtI, FmtI] [mbr_ul_bps, mbr_dl_bps, burst_bytes, 0]"

definition enc_u32 :: "int \<Rightarrow> bytes res" where
  "enc_u32 v = struct_pack Little [FmtI] [v]"

definition enc_bundle_slot :: "int \<Rightarrow> int \<Rightarrow> int \<Rightarrow> int \<Rightarrow> int \<Rightarrow> bytes res" where
  "enc_bundle_slot far_id qer_id urr_id precedence generation =
     struct_pack Little [FmtI, FmtI, FmtI, FmtI, FmtI, FmtI]
       [far_id, qer_id, urr_id, precedence, generation, 0]"

definition enc_bundle :: "int \<Rightarrow> bytes \<Rightarrow> bytes \<Rightarrow> bytes res" where
  "enc_bundle active slot0_bytes slot1_bytes =
     res_bind (struct_pack Little [FmtI, FmtI] [active, 0])
       (\<lambda>hdr. Inr (hdr @ slot0_bytes @ slot1_bytes))"

subsection \<open>Ranges\<close>

definition in_u16 :: "int \<Rightarrow> bool" where "in_u16 v \<longleftrightarrow> 0 \<le> v \<and> v < 2 ^ 16"
definition in_u32 :: "int \<Rightarrow> bool" where "in_u32 v \<longleftrightarrow> 0 \<le> v \<and> v < 2 ^ 32"
definition in_u64 :: "int \<Rightarrow> bool" where "in_u64 v \<longleftrightarrow> 0 \<le> v \<and> v < 2 ^ 64"

lemma fmt_ok_ranges [simp]:
  "fmt_ok FmtH v = in_u16 v" "fmt_ok FmtI v = in_u32 v" "fmt_ok FmtQ v = in_u64 v"
  by (simp_all add: fmt_ok_def in_u16_def in_u32_def in_u64_def)

lemma in_u32_0 [simp]: "in_u32 0" "in_u32 1"
  by (simp_all add: in_u32_def)

lemma uint_word_of_int_u32: "in_u32 v \<Longrightarrow> uint (word_of_int v :: u32) = v"
  by (simp add: in_u32_def uint_word_of_int)

lemma uint_in_u32 [simp]: "in_u32 (uint (x :: u32))"
  using uint_lt2p [of x] by (simp add: in_u32_def)

lemma key32_word_of_int: "in_u32 v \<Longrightarrow> key32 (word_of_int v) = le_bytes 4 v"
  by (simp add: key32_of_int in_u32_def)

subsection \<open>The encoders in closed form\<close>

lemma enc_u32_eq: "enc_u32 v = (if in_u32 v then Inr (key32 (word_of_int v)) else Inl StructError)"
  by (simp add: enc_u32_def int_bytes_def key32_word_of_int del: le_bytes.simps)

lemma enc_session_eq: "enc_session p q f =
    (if in_u32 p \<and> in_u32 q \<and> in_u32 f
     then Inr (le_bytes 4 p @ le_bytes 4 q @ le_bytes 4 f @ le_bytes 4 0) else Inl StructError)"
  by (simp add: enc_session_def int_bytes_def del: le_bytes.simps)

lemma enc_pdr_eq: "enc_pdr f q p u =
    (if in_u32 f \<and> in_u32 q \<and> in_u32 p \<and> in_u32 u
     then Inr (le_bytes 4 f @ le_bytes 4 q @ le_bytes 4 p @ le_bytes 4 u) else Inl StructError)"
  by (simp add: enc_pdr_def int_bytes_def del: le_bytes.simps)

lemma enc_far_eq: "enc_far a i p t =
    (if in_u32 a \<and> in_u32 i \<and> in_u32 p \<and> in_u32 t
     then Inr (le_bytes 4 a @ le_bytes 4 i @ le_bytes 4 p @ le_bytes 4 t) else Inl StructError)"
  by (simp add: enc_far_def int_bytes_def del: le_bytes.simps)

lemma enc_qer_eq: "enc_qer ul dl b =
    (if in_u64 ul \<and> in_u64 dl \<and> in_u32 b
     then Inr (le_bytes 8 ul @ le_bytes 8 dl @ le_bytes 4 b @ le_bytes 4 0) else Inl StructError)"
  by (simp add: enc_qer_def int_bytes_def del: le_bytes.simps)

lemma enc_bundle_slot_eq: "enc_bundle_slot f q u p g =
    (if in_u32 f \<and> in_u32 q \<and> in_u32 u \<and> in_u32 p \<and> in_u32 g
     then Inr (le_bytes 4 f @ le_bytes 4 q @ le_bytes 4 u @ le_bytes 4 p @ le_bytes 4 g @ le_bytes 4 0)
     else Inl StructError)"
  by (simp add: enc_bundle_slot_def int_bytes_def del: le_bytes.simps)

lemma enc_bundle_eq: "enc_bundle a s0 s1 =
    (if in_u32 a then Inr (le_bytes 4 a @ le_bytes 4 0 @ s0 @ s1) else Inl StructError)"
  by (simp add: enc_bundle_def int_bytes_def del: le_bytes.simps)

lemmas enc_eqs = enc_u32_eq enc_session_eq enc_pdr_eq enc_far_eq enc_qer_eq enc_bundle_slot_eq
  enc_bundle_eq

subsection \<open>Reading back\<close>

lemma ld_enc_session: "enc_session p q f = Inr b \<Longrightarrow> length b = 16 \<and>
    ld_session b = \<lparr>sess_pdr_id = word_of_int p, sess_qer_id = word_of_int q,
      sess_far_id = word_of_int f, sess_pad = 0\<rparr>"
  by (auto simp: enc_session_eq ld_session_def layout_simps simp del: le_bytes.simps split: if_splits)

lemma ld_enc_pdr: "enc_pdr f q p u = Inr b \<Longrightarrow> length b = 16 \<and>
    ld_pdr b = \<lparr>pdr_far_id = word_of_int f, pdr_qer_id = word_of_int q,
      pdr_precedence = word_of_int p, pdr_urr_id = word_of_int u\<rparr>"
  by (auto simp: enc_pdr_eq ld_pdr_def layout_simps simp del: le_bytes.simps split: if_splits)

lemma ld_enc_far: "enc_far a i p t = Inr b \<Longrightarrow> length b = 16 \<and>
    ld_far b = \<lparr>far_action = word_of_int a, far_out_ifindex = word_of_int i,
      far_peer_ipv4_be = word_of_int p, far_out_teid_be = word_of_int t\<rparr>"
  by (auto simp: enc_far_eq ld_far_def layout_simps simp del: le_bytes.simps split: if_splits)

lemma ld_enc_qer: "enc_qer ul dl bu = Inr b \<Longrightarrow> length b = 24 \<and>
    ld_qer b = \<lparr>qer_mbr_ul_bps = word_of_int ul, qer_mbr_dl_bps = word_of_int dl,
      qer_burst_bytes = word_of_int bu, qer_pad = 0\<rparr>"
  by (auto simp: enc_qer_eq ld_qer_def layout_simps simp del: le_bytes.simps split: if_splits)

lemma ld_enc_slot: "enc_bundle_slot f q u p g = Inr b \<Longrightarrow> length b = 24 \<and>
    ld_slot (b @ rest) = \<lparr>slot_far_id = word_of_int f, slot_qer_id = word_of_int q,
      slot_urr_id = word_of_int u, slot_precedence = word_of_int p,
      slot_generation = word_of_int g, slot_pad = 0\<rparr>"
  by (auto simp: enc_bundle_slot_eq ld_slot_def layout_simps simp del: le_bytes.simps split: if_splits)

lemma ld_slot_append: "24 \<le> length b \<Longrightarrow> ld_slot (b @ rest) = ld_slot b"
  by (simp add: ld_slot_def layout_simps)

lemma ld_enc_bundle:
  assumes "enc_bundle a s0 s1 = Inr b" "length s0 = 24" "length s1 = 24"
  shows "length b = 56"
    and "ld_bundle b = \<lparr>bundle_active = word_of_int a, bundle_pad = 0,
      bundle_slot0 = ld_slot s0, bundle_slot1 = ld_slot s1\<rparr>"
  using assms
  by (auto simp: enc_bundle_eq ld_bundle_def layout_simps ld_slot_append
      simp del: le_bytes.simps split: if_splits)

subsection \<open>Property\<close>

text \<open>
  C38. The encoders and the C structures agree: each encoder raises \<^verbatim>\<open>struct.error\<close> exactly when
  a value does not fit its field, and otherwise yields as many bytes as the C structure has,
  whose fields, loaded at the C offsets, are the encoded values; in a bundle, each of the two slots
  has the values of its own argument.
\<close>

theorem encoders_match_structs:
  "res_bind (enc_session p q f) (\<lambda>b. Inr (length b, ld_session b)) =
     (if in_u32 p \<and> in_u32 q \<and> in_u32 f
      then Inr (16, \<lparr>sess_pdr_id = word_of_int p, sess_qer_id = word_of_int q,
        sess_far_id = word_of_int f, sess_pad = 0\<rparr>) else Inl StructError) \<and>
   res_bind (enc_pdr f q pr u) (\<lambda>b. Inr (length b, ld_pdr b)) =
     (if in_u32 f \<and> in_u32 q \<and> in_u32 pr \<and> in_u32 u
      then Inr (16, \<lparr>pdr_far_id = word_of_int f, pdr_qer_id = word_of_int q,
        pdr_precedence = word_of_int pr, pdr_urr_id = word_of_int u\<rparr>) else Inl StructError) \<and>
   res_bind (enc_far a i ip t) (\<lambda>b. Inr (length b, ld_far b)) =
     (if in_u32 a \<and> in_u32 i \<and> in_u32 ip \<and> in_u32 t
      then Inr (16, \<lparr>far_action = word_of_int a, far_out_ifindex = word_of_int i,
        far_peer_ipv4_be = word_of_int ip, far_out_teid_be = word_of_int t\<rparr>) else Inl StructError) \<and>
   res_bind (enc_qer ul dl bu) (\<lambda>b. Inr (length b, ld_qer b)) =
     (if in_u64 ul \<and> in_u64 dl \<and> in_u32 bu
      then Inr (24, \<lparr>qer_mbr_ul_bps = word_of_int ul, qer_mbr_dl_bps = word_of_int dl,
        qer_burst_bytes = word_of_int bu, qer_pad = 0\<rparr>) else Inl StructError) \<and>
   res_bind (enc_bundle_slot f q u pr g) (\<lambda>s0. res_bind (enc_bundle_slot f' q' u' pr' g') (\<lambda>s1.
     res_bind (enc_bundle act s0 s1) (\<lambda>b. Inr (length b, ld_bundle b)))) =
     (if in_u32 f \<and> in_u32 q \<and> in_u32 u \<and> in_u32 pr \<and> in_u32 g \<and>
         in_u32 f' \<and> in_u32 q' \<and> in_u32 u' \<and> in_u32 pr' \<and> in_u32 g' \<and> in_u32 act
      then Inr (56, \<lparr>bundle_active = word_of_int act, bundle_pad = 0,
        bundle_slot0 = \<lparr>slot_far_id = word_of_int f, slot_qer_id = word_of_int q, slot_urr_id = word_of_int u,
          slot_precedence = word_of_int pr, slot_generation = word_of_int g, slot_pad = 0\<rparr>,
        bundle_slot1 = \<lparr>slot_far_id = word_of_int f', slot_qer_id = word_of_int q', slot_urr_id = word_of_int u',
          slot_precedence = word_of_int pr', slot_generation = word_of_int g', slot_pad = 0\<rparr>\<rparr>)
      else Inl StructError)"
proof (intro conjI, goal_cases)
  case 1
  show ?case by (simp add: enc_session_eq ld_session_def layout_simps del: le_bytes.simps)
next
  case 2
  show ?case by (simp add: enc_pdr_eq ld_pdr_def layout_simps del: le_bytes.simps)
next
  case 3
  show ?case by (simp add: enc_far_eq ld_far_def layout_simps del: le_bytes.simps)
next
  case 4
  show ?case by (simp add: enc_qer_eq ld_qer_def layout_simps del: le_bytes.simps)
next
  case 5
  show ?case
    by (simp add: enc_bundle_slot_eq enc_bundle_eq ld_bundle_def ld_slot_def layout_simps del: le_bytes.simps)
qed

end
