(* ===== verification/Agent.thy ===== *)
theory Agent
  imports Agent_Encode
begin

text \<open>
  The rule operations of \<^verbatim>\<open>loader/agent.py\<close>: installing, modifying and removing the PDR, FAR,
  QER, downlink and configuration entries through the descriptor cache of
  \<^verbatim>\<open>loader/bpf_syscall.py\<close>. Each operation is a computation of the state-and-exception monad
  over the world (descriptor cache and kernel); its arguments are Python integers, and
  encoding them may raise before any map is written. \<^verbatim>\<open>socket.inet_aton\<close> is the parameter
  \<open>inet_aton\<close>.
\<close>

subsection \<open>Low-level map operations\<close>

definition PIN_BASE :: string where
  "PIN_BASE = ''/sys/fs/bpf/upf''"

definition map_update :: "'k bpf_sys \<Rightarrow> string \<Rightarrow> bytes \<Rightarrow> bytes \<Rightarrow> ('k world, unit) py" where
  "map_update sys name key_bytes val_bytes = pmc_update sys name key_bytes val_bytes BPF_ANY"

fun is_OSError :: "py_error \<Rightarrow> bool" where
  "is_OSError (OSError _) = True"
| "is_OSError _ = False"

definition map_delete :: "'k bpf_sys \<Rightarrow> string \<Rightarrow> bytes \<Rightarrow> ('k world, unit) py" where
  "map_delete sys name key_bytes =
     py_except is_OSError (pmc_delete sys name key_bytes) (py_return ())"

subsection \<open>Forwarding, QoS, downlink and configuration entries\<close>

definition install_far :: "'k bpf_sys \<Rightarrow> int \<Rightarrow> int \<Rightarrow> int \<Rightarrow> int \<Rightarrow> int \<Rightarrow> ('k world, unit) py" where
  "install_far sys far_id action out_ifindex peer_ipv4_be out_teid_be =
     py_bind (py_lift (enc_u32 far_id)) (\<lambda>key.
     py_bind (py_lift (enc_far action out_ifindex peer_ipv4_be out_teid_be)) (\<lambda>val.
     map_update sys ''far_table'' key val))"

definition install_qer :: "'k bpf_sys \<Rightarrow> int \<Rightarrow> int \<Rightarrow> int \<Rightarrow> int \<Rightarrow> ('k world, unit) py" where
  "install_qer sys qer_id mbr_ul_bps mbr_dl_bps burst_bytes =
     py_bind (py_lift (enc_u32 qer_id)) (\<lambda>key.
     py_bind (py_lift (enc_qer mbr_ul_bps mbr_dl_bps burst_bytes)) (\<lambda>val.
     map_update sys ''qer_table'' key val))"

definition ip_to_be32_bytes :: "(string \<Rightarrow> bytes res) \<Rightarrow> string \<Rightarrow> bytes res" where
  "ip_to_be32_bytes inet_aton dotted = inet_aton dotted"

definition install_dl_ue ::
    "'k bpf_sys \<Rightarrow> (string \<Rightarrow> bytes res) \<Rightarrow> string \<Rightarrow> int \<Rightarrow> string \<Rightarrow> int \<Rightarrow> ('k world, unit) py" where
  "install_dl_ue sys inet_aton ue_ip_dotted teid gnb_ip_dotted qfi =
     py_bind (py_lift (ip_to_be32_bytes inet_aton ue_ip_dotted)) (\<lambda>key.
     py_bind (py_lift (struct_pack Big [FmtI] [teid])) (\<lambda>teid_be.
     py_bind (py_lift (ip_to_be32_bytes inet_aton gnb_ip_dotted)) (\<lambda>gnb_be.
     py_bind (py_lift (struct_pack Little [FmtH, FmtH] [qfi, 0])) (\<lambda>tail.
     map_update sys ''dl_ue_map'' key (teid_be @ gnb_be @ tail)))))"

definition install_upf_config ::
    "'k bpf_sys \<Rightarrow> (string \<Rightarrow> bytes res) \<Rightarrow> string \<Rightarrow> ('k world, unit) py" where
  "install_upf_config sys inet_aton n3_addr_dotted =
     py_bind (py_lift (enc_u32 0)) (\<lambda>key.
     py_bind (py_lift (ip_to_be32_bytes inet_aton n3_addr_dotted)) (\<lambda>val.
     map_update sys ''upf_config_map'' key val))"

subsection \<open>Double-buffered decision bundles\<close>

definition install_tc_bundle ::
    "'k bpf_sys \<Rightarrow> int \<Rightarrow> int \<Rightarrow> int \<Rightarrow> int \<Rightarrow> int \<Rightarrow> int \<Rightarrow> ('k world, unit) py" where
  "install_tc_bundle sys pdr_id far_id qer_id urr_id precedence generation =
     py_bind (py_lift (enc_bundle_slot far_id qer_id urr_id precedence generation)) (\<lambda>slot.
     py_bind (py_lift (enc_u32 pdr_id)) (\<lambda>key.
     py_bind (py_lift (enc_bundle 0 slot slot)) (\<lambda>val.
     map_update sys ''tc_bundle_map'' key val)))"

text \<open>\<^verbatim>\<open>new if new is not None else cur\<close>\<close>

definition or_else :: "int option \<Rightarrow> int \<Rightarrow> int" where
  "or_else new cur = (case new of Some v \<Rightarrow> v | None \<Rightarrow> cur)"

definition modify_tc_bundle ::
    "'k bpf_sys \<Rightarrow> int \<Rightarrow> int option \<Rightarrow> int option \<Rightarrow> int option \<Rightarrow> int option \<Rightarrow> ('k world, int) py" where
  "modify_tc_bundle sys pdr_id far_id qer_id urr_id precedence =
     py_bind (py_lift (enc_u32 pdr_id)) (\<lambda>key.
     py_bind (pmc_lookup sys ''tc_bundle_map'' key (4 + 4 + 24 + 24)) (\<lambda>raw.
     py_bind (py_lift (struct_unpack_from Little [FmtI, FmtI] raw 0)) (\<lambda>hdr.
     let active = and (hdr ! 0) 1;
         slot_off = 8 + active * 24
     in
     py_bind (py_lift (struct_unpack_from Little [FmtI, FmtI, FmtI, FmtI, FmtI, FmtI]
         raw (nat slot_off))) (\<lambda>cur.
     let cur_far_id = cur ! 0; cur_qer_id = cur ! 1; cur_urr_id = cur ! 2;
         cur_prec = cur ! 3; cur_gen = cur ! 4;
         inactive = 1 - active;
         new_far_id = or_else far_id cur_far_id;
         new_qer_id = or_else qer_id cur_qer_id;
         new_urr_id = or_else urr_id cur_urr_id;
         new_prec = or_else precedence cur_prec;
         new_gen = cur_gen + 1
     in
     py_bind (py_lift (enc_bundle_slot cur_far_id cur_qer_id cur_urr_id cur_prec cur_gen)) (\<lambda>cur_slot_bytes.
     py_bind (py_lift (enc_bundle_slot new_far_id new_qer_id new_urr_id new_prec new_gen)) (\<lambda>new_slot_bytes.
     let slots_prep = [[], []][nat active := cur_slot_bytes, nat inactive := new_slot_bytes] in
     py_bind (py_lift (enc_u32 pdr_id)) (\<lambda>key1.
     py_bind (py_lift (enc_bundle active (slots_prep ! 0) (slots_prep ! 1))) (\<lambda>val1.
     py_bind (map_update sys ''tc_bundle_map'' key1 val1) (\<lambda>_.
     py_bind (py_lift (enc_u32 pdr_id)) (\<lambda>key2.
     py_bind (py_lift (enc_bundle inactive (slots_prep ! 0) (slots_prep ! 1))) (\<lambda>val2.
     py_bind (map_update sys ''tc_bundle_map'' key2 val2) (\<lambda>_.
     py_return new_gen))))))))))))"

subsection \<open>Sessions\<close>

definition install_session ::
    "'k bpf_sys \<Rightarrow> int \<Rightarrow> int \<Rightarrow> int \<Rightarrow> int \<Rightarrow> int \<Rightarrow> int \<Rightarrow> ('k world, unit) py" where
  "install_session sys teid pdr_id qer_id far_id precedence urr_id =
     py_bind (py_lift (enc_u32 pdr_id)) (\<lambda>pdr_key.
     py_bind (py_lift (enc_pdr far_id qer_id precedence urr_id)) (\<lambda>pdr_bytes.
     py_bind (map_update sys ''pdr_table'' pdr_key pdr_bytes) (\<lambda>_.
     py_bind (install_tc_bundle sys pdr_id far_id qer_id urr_id precedence 0) (\<lambda>_.
     py_bind (py_lift (enc_u32 teid)) (\<lambda>teid_key.
     py_bind (py_lift (enc_session pdr_id qer_id far_id)) (\<lambda>sess_bytes.
     map_update sys ''teid_session'' teid_key sess_bytes))))))"

definition remove_session :: "'k bpf_sys \<Rightarrow> int \<Rightarrow> int \<Rightarrow> ('k world, unit) py" where
  "remove_session sys teid pdr_id =
     py_bind (py_lift (enc_u32 teid)) (\<lambda>teid_key.
     py_bind (map_delete sys ''teid_session'' teid_key) (\<lambda>_.
     py_bind (py_lift (enc_u32 pdr_id)) (\<lambda>pdr_key.
     py_bind (map_delete sys ''pdr_table'' pdr_key) (\<lambda>_.
     py_bind (py_lift (enc_u32 pdr_id)) (\<lambda>pdr_key2.
     map_delete sys ''tc_bundle_map'' pdr_key2)))))"

end
