(* ===== verification/Ref_Kernel.thy ===== *)
theory Ref_Kernel
  imports Bpf_Kernel
begin

text \<open>
  An executable kernel that satisfies the contract \<open>bpf_kernel\<close>: maps are association
  lists, most recently written entry first, a full LRU map drops its oldest entries, an
  array map reads as zeros until it is written, and a process has 1021 descriptors after
  the three standard ones. It shows that the contract can be met and is the kernel on which
  concrete runs of the agent are evaluated.
\<close>

record ref_kernel =
  rk_maps :: "string \<Rightarrow> (bytes \<times> bytes) list"
  rk_fds :: "string list"

definition rk_init :: ref_kernel where
  "rk_init = \<lparr>rk_maps = (\<lambda>_. []), rk_fds = []\<rparr>"

definition rk_entries :: "map_def \<Rightarrow> (bytes \<times> bytes) list \<Rightarrow> (bytes \<times> bytes) list" where
  "rk_entries d = filter (\<lambda>(k, v). length k = key_size d \<and> length v = value_size d)"

definition rk_lookup :: "map_def \<Rightarrow> (bytes \<times> bytes) list \<Rightarrow> bytes \<rightharpoonup> bytes" where
  "rk_lookup d al key =
     (case map_type d of
        ArrayMap \<Rightarrow>
          if length key = key_size d \<and> le_int key < int (max_entries d)
          then Some (case map_of (rk_entries d al) key of
              None \<Rightarrow> replicate (value_size d) 0 | Some v \<Rightarrow> v)
          else None
      | _ \<Rightarrow> map_of (rk_entries d al) key)"

definition rk_room :: "map_def \<Rightarrow> (bytes \<times> bytes) list \<Rightarrow> bytes \<Rightarrow> bool" where
  "rk_room d al key =
     (case map_type d of
        HashMap \<Rightarrow> map_of (rk_entries d al) key \<noteq> None \<or>
          length (remdups (map fst (rk_entries d al))) < max_entries d
      | LruHashMap \<Rightarrow> True
      | ArrayMap \<Rightarrow> le_int key < int (max_entries d))"

definition rk_insert :: "map_def \<Rightarrow> bytes \<Rightarrow> bytes \<Rightarrow> (bytes \<times> bytes) list \<Rightarrow> (bytes \<times> bytes) list" where
  "rk_insert d key val al =
     (let rest = filter (\<lambda>(k, _). k \<noteq> key) (rk_entries d al)
      in (key, val) # (if map_type d = LruHashMap then take (max_entries d - 1) rest else rest))"

definition rk_delete :: "map_def \<Rightarrow> bytes \<Rightarrow> (bytes \<times> bytes) list \<Rightarrow> (bytes \<times> bytes) list" where
  "rk_delete d key al = filter (\<lambda>(k, _). k \<noteq> key) (rk_entries d al)"

definition rk_view :: "(string \<Rightarrow> map_def option) \<Rightarrow> ref_kernel \<Rightarrow> store" where
  "rk_view pinned k p =
     (case pinned p of None \<Rightarrow> Map.empty | Some d \<Rightarrow> rk_lookup d (rk_maps k p))"

definition rk_fd_path :: "ref_kernel \<Rightarrow> u32 \<rightharpoonup> string" where
  "rk_fd_path k fd =
     (if 3 \<le> unat fd \<and> unat fd - 3 < length (rk_fds k) then Some (rk_fds k ! (unat fd - 3)) else None)"

definition rk_fd_avail :: "ref_kernel \<Rightarrow> nat" where
  "rk_fd_avail k = 1021 - length (rk_fds k)"

definition rk_set :: "string \<Rightarrow> (bytes \<times> bytes) list \<Rightarrow> ref_kernel \<Rightarrow> ref_kernel" where
  "rk_set p al k = k\<lparr>rk_maps := (rk_maps k)(p := al)\<rparr>"

fun rk_elem :: "map_def \<Rightarrow> string \<Rightarrow> int \<Rightarrow> bytes \<Rightarrow> bytes option \<Rightarrow> ref_kernel \<Rightarrow>
    (int \<times> int \<times> bytes) \<times> ref_kernel" where
  "rk_elem d p cmd key vb k =
     (if cmd = 1 then
        (case rk_lookup d (rk_maps k p) key of
           Some v \<Rightarrow> ((0, 0, v), k) | None \<Rightarrow> ((-1, ENOENT, case vb of Some b \<Rightarrow> b | None \<Rightarrow> []), k))
      else if cmd = 2 then
        (case vb of
           Some b \<Rightarrow>
             if rk_room d (rk_maps k p) key
             then ((0, 0, b), rk_set p (rk_insert d key (take (value_size d) b) (rk_maps k p)) k)
             else ((-1, E2BIG, b), k)
         | None \<Rightarrow> ((-1, 14, []), k))
      else if cmd = 3 then
        (if map_type d = ArrayMap then ((-1, 22, []), k)
         else if rk_lookup d (rk_maps k p) key = None then ((-1, ENOENT, []), k)
         else ((0, 0, []), rk_set p (rk_delete d key (rk_maps k p)) k))
      else ((-1, 22, []), k))"

fun ref_sys :: "(string \<Rightarrow> map_def option) \<Rightarrow> ref_kernel bpf_sys" where
  "ref_sys pinned cmd (AttrObj a) sz k =
     (let p = butlast (attr_pathname a) in
      if cmd \<noteq> 7 then ((-1, 22, []), k)
      else if pinned p = None then ((-1, ENOENT, []), k)
      else if length (rk_fds k) < 1021
      then ((3 + int (length (rk_fds k)), 0, []), k\<lparr>rk_fds := rk_fds k @ [p]\<rparr>)
      else ((-1, 24, []), k))"
| "ref_sys pinned cmd (AttrMapElem a) sz k =
     (case rk_fd_path k (attr_map_fd a) of
        None \<Rightarrow> ((-1, 9, []), k)
      | Some p \<Rightarrow>
          (case (pinned p, attr_key a) of
             (Some d, Some kb) \<Rightarrow> rk_elem d p cmd (take (key_size d) kb) (attr_value a) k
           | _ \<Rightarrow> ((-1, 9, []), k)))"

subsection \<open>The reference kernel meets the contract\<close>

lemma map_of_filter_other: "k \<noteq> key \<Longrightarrow> map_of (filter (\<lambda>(k, _). k \<noteq> key) xs) k = map_of xs k"
  by (induction xs) auto

lemma map_of_filter_self [simp]: "map_of (filter (\<lambda>(k, _). k \<noteq> key) xs) key = None"
  by (induction xs) auto

lemma map_of_take: "map_of (take n xs) k = map_of xs k \<or> map_of (take n xs) k = None"
  by (induction xs arbitrary: n) (auto simp: take_Cons split: nat.splits)

lemma rk_entries_idem [simp]: "rk_entries d (rk_entries d al) = rk_entries d al"
  by (simp add: rk_entries_def)

lemma set_rk_entries: "(k, v) \<in> set (rk_entries d al) \<Longrightarrow> length k = key_size d \<and> length v = value_size d"
  by (auto simp: rk_entries_def)

lemma rk_entries_id:
  "(\<And>k v. (k, v) \<in> set xs \<Longrightarrow> length k = key_size d \<and> length v = value_size d) \<Longrightarrow> rk_entries d xs = xs"
  by (auto simp: rk_entries_def filter_id_conv)

lemma rk_entries_filter: "rk_entries d (filter P (rk_entries d al)) = filter P (rk_entries d al)"
  by (rule rk_entries_id) (auto dest: set_rk_entries)

lemma rk_entries_insert:
  "length key = key_size d \<Longrightarrow> length val = value_size d \<Longrightarrow>
     rk_entries d (rk_insert d key val al) = rk_insert d key val al"
  by (rule rk_entries_id)
    (auto simp: rk_insert_def Let_def dest!: in_set_takeD set_rk_entries split: if_splits)

lemma map_of_rk_insert:
  "map_of (rk_insert d key val al) key = Some val"
  "k \<noteq> key \<Longrightarrow> map_type d \<noteq> LruHashMap \<Longrightarrow>
     map_of (rk_insert d key val al) k = map_of (rk_entries d al) k"
  "k \<noteq> key \<Longrightarrow> map_of (rk_insert d key val al) k = map_of (rk_entries d al) k \<or>
     map_of (rk_insert d key val al) k = None"
  using map_of_take [of "max_entries d - 1" "filter (\<lambda>(k, _). k \<noteq> key) (rk_entries d al)" k]
  by (auto simp: rk_insert_def Let_def map_of_filter_other)

lemma rk_lookup_sizes:
  "rk_lookup d al key = Some v \<Longrightarrow> length key = key_size d \<and> length v = value_size d"
  by (auto simp: rk_lookup_def dest!: map_of_SomeD set_rk_entries
      split: map_type.splits if_splits option.splits)

lemma rk_room_iff:
  assumes "length key = key_size d"
  shows "rk_room d al key \<longleftrightarrow> has_room d (rk_lookup d al) key"
proof (cases "map_type d")
  case HashMap
  then have "rk_lookup d al = map_of (rk_entries d al)" by (simp add: rk_lookup_def fun_eq_iff)
  moreover have "card (dom (map_of (rk_entries d al))) = length (remdups (map fst (rk_entries d al)))"
    by (simp add: dom_map_of_conv_image_fst length_remdups_card_conv)
  ultimately show ?thesis using HashMap by (simp add: rk_room_def has_room_def)
qed (use assms in \<open>simp_all add: rk_room_def has_room_def\<close>)

lemma rk_lookup_insert:
  assumes "length key = key_size d" "length val = value_size d" "rk_room d al key"
  shows "rk_lookup d (rk_insert d key val al) key = Some val"
    and "k \<noteq> key \<Longrightarrow> rk_lookup d (rk_insert d key val al) k = rk_lookup d al k \<or>
      map_type d = LruHashMap \<and> rk_lookup d (rk_insert d key val al) k = None"
  using assms map_of_rk_insert [where d = d and key = key and val = val and al = al]
  by (auto simp: rk_lookup_def rk_entries_insert rk_room_def split: map_type.splits)

lemma rk_lookup_delete:
  "map_type d \<noteq> ArrayMap \<Longrightarrow> rk_lookup d (rk_delete d key al) = (rk_lookup d al)(key := None)"
  by (auto simp: rk_lookup_def rk_delete_def rk_entries_filter map_of_filter_other fun_eq_iff
      split: map_type.splits)

lemma unat_of_small_int: "i < 1021 \<Longrightarrow> unat (word_of_int (3 + int i) :: u32) = 3 + i"
proof -
  assume "i < 1021"
  then have "(3 + int i) mod 4294967296 = 3 + int i" by (intro mod_pos_pos_trivial) linarith+
  then show ?thesis
    unfolding unat_eq_nat_uint uint_word_of_int by simp
qed

lemma rk_fd_path_append:
  assumes "length fds < 1021" "rk_fds k = fds"
  shows "rk_fd_path (k\<lparr>rk_fds := fds @ [p]\<rparr>) =
      (rk_fd_path k)(word_of_int (3 + int (length fds)) \<mapsto> p)"
proof (rule ext)
  fix fd :: u32
  have eq: "fd = word_of_int (3 + int (length fds)) \<longleftrightarrow> unat fd = 3 + length fds"
    using unat_of_small_int [OF assms(1)] by (metis word_unat_eq_iff)
  show "rk_fd_path (k\<lparr>rk_fds := fds @ [p]\<rparr>) fd =
      ((rk_fd_path k)(word_of_int (3 + int (length fds)) \<mapsto> p)) fd"
    using assms eq by (auto simp: rk_fd_path_def nth_append less_Suc_eq)
qed

lemma rk_fd_path_set [simp]: "rk_fd_path (rk_set p al k) = rk_fd_path k"
  by (simp add: rk_fd_path_def rk_set_def fun_eq_iff)

lemma rk_fd_avail_set [simp]: "rk_fd_avail (rk_set p al k) = rk_fd_avail k"
  by (simp add: rk_fd_avail_def rk_set_def)

lemma rk_maps_set [simp]: "rk_maps (rk_set p al k) = (rk_maps k)(p := al)"
  by (simp add: rk_set_def)

lemma rk_view_set: "pinned p = Some d \<Longrightarrow>
    rk_view pinned (rk_set p al k) = (rk_view pinned k)(p := rk_lookup d al)"
  by (auto simp: rk_view_def rk_set_def fun_eq_iff split: option.splits)

lemma rk_view_fds [simp]: "rk_view pinned (k\<lparr>rk_fds := fds\<rparr>) = rk_view pinned k"
  by (simp add: rk_view_def fun_eq_iff split: option.splits)

lemma rk_view_pinned: "pinned p = Some d \<Longrightarrow> rk_view pinned k p = rk_lookup d (rk_maps k p)"
  by (simp add: rk_view_def)

lemma ref_sys_elem: "rk_fd_path k fd = Some p \<Longrightarrow> pinned p = Some d \<Longrightarrow>
    ref_sys pinned cmd (elem_attr fd kb vb) sz k = rk_elem d p cmd (take (key_size d) kb) vb k"
  by (simp add: elem_attr_def new_attr_map_elem_def)

interpretation rk: bpf_kernel "ref_sys pinned" pinned "rk_view pinned" rk_fd_path rk_fd_avail
  for pinned
proof (unfold_locales, goal_cases)
  case (1 p d k key v)
  then show ?case by (simp add: rk_view_pinned rk_lookup_sizes)
next
  case (2 p d k)
  then have n: "length (rk_fds k) < 1021" by (simp add: rk_fd_avail_def)
  have "rk_fd_path k (word_of_int (3 + int (length (rk_fds k)))) = None"
    by (simp only: rk_fd_path_def unat_of_small_int [OF n]) simp
  with 2 n rk_fd_path_append [OF n refl] show ?case
    by (auto simp: obj_get_attr_def new_attr_obj_def rk_fd_avail_def)
next
  case (3 p k)
  then show ?case
    by (auto simp: obj_get_attr_def new_attr_obj_def rk_fd_avail_def)
next
  case (4 k fd p d kb vb)
  then have room: "rk_room d (rk_maps k p) (take (key_size d) kb)"
    by (simp add: rk_room_iff rk_view_pinned)
  with 4 rk_lookup_insert [of "take (key_size d) kb" d "take (value_size d) vb" "rk_maps k p"]
  show ?case by (auto simp: ref_sys_elem stored_def rk_view_set rk_view_pinned)
next
  case (5 k fd p d kb vb)
  then show ?case by (simp add: ref_sys_elem rk_room_iff rk_view_pinned)
next
  case (6 k fd p d kb vb v)
  then show ?case by (simp add: ref_sys_elem rk_view_pinned)
next
  case (7 k fd p d kb vb)
  then show ?case by (simp add: ref_sys_elem rk_view_pinned)
next
  case (8 k fd p d kb)
  then show ?case by (auto simp: ref_sys_elem rk_view_pinned rk_view_set rk_lookup_delete)
next
  case (9 k fd p d kb)
  then show ?case by (simp add: ref_sys_elem rk_view_pinned)
qed

end
