(* ===== verification/Agent_Rules.thy ===== *)
theory Agent_Rules
  imports Agent Ref_Kernel
begin

text \<open>
  What the rule operations of \<^verbatim>\<open>loader/agent.py\<close> do to the tables the datapath reads. The
  operations are lifted from raw bytes to the typed tables \<open>tabs\<close>; on these, \<open>refs_ok\<close> is
  the referential integrity the datapath relies on (the PDR of every session has its
  \<^verbatim>\<open>pdr_table\<close> and \<^verbatim>\<open>tc_bundle_map\<close> entries) and the \<open>spec_\<close> relations are the abstract
  effect of the operations. The lemmas are proved in the kernel contract \<open>bpf_kernel\<close>.
\<close>

definition tabs :: "('k \<Rightarrow> store) \<Rightarrow> 'k world \<Rightarrow> rule_tables" where
  "tabs view w = tables_of (rules view w)"

definition hash_room :: "nat \<Rightarrow> (u32 \<rightharpoonup> 'v) \<Rightarrow> u32 \<Rightarrow> bool" where
  "hash_room n m k \<longleftrightarrow> m k \<noteq> None \<or> card (dom m) < n"

definition refs_ok :: "rule_tables \<Rightarrow> bool" where
  "refs_ok T \<longleftrightarrow>
     (\<forall>t s. teid_session T t = Some s \<longrightarrow>
        pdr_table T (sess_pdr_id s) \<noteq> None \<and> tc_bundle_map T (sess_pdr_id s) \<noteq> None)"

definition mk_session :: "int \<Rightarrow> int \<Rightarrow> int \<Rightarrow> session_val" where
  "mk_session p q f = \<lparr>sess_pdr_id = word_of_int p, sess_qer_id = word_of_int q,
     sess_far_id = word_of_int f, sess_pad = 0\<rparr>"

definition mk_pdr :: "int \<Rightarrow> int \<Rightarrow> int \<Rightarrow> int \<Rightarrow> pdr_val" where
  "mk_pdr f q p u = \<lparr>pdr_far_id = word_of_int f, pdr_qer_id = word_of_int q,
     pdr_precedence = word_of_int p, pdr_urr_id = word_of_int u\<rparr>"

definition mk_slot :: "int \<Rightarrow> int \<Rightarrow> int \<Rightarrow> int \<Rightarrow> int \<Rightarrow> tc_bundle_slot" where
  "mk_slot f q u p g = \<lparr>slot_far_id = word_of_int f, slot_qer_id = word_of_int q,
     slot_urr_id = word_of_int u, slot_precedence = word_of_int p,
     slot_generation = word_of_int g, slot_pad = 0\<rparr>"

definition mk_bundle :: "int \<Rightarrow> tc_bundle_slot \<Rightarrow> tc_bundle_slot \<Rightarrow> tc_bundle" where
  "mk_bundle a s0 s1 = \<lparr>bundle_active = word_of_int a, bundle_pad = 0,
     bundle_slot0 = s0, bundle_slot1 = s1\<rparr>"

text \<open>The abstract effect of \<^verbatim>\<open>install_session\<close>; a full LRU table may evict other sessions.\<close>

definition spec_install_session ::
    "int \<Rightarrow> int \<Rightarrow> int \<Rightarrow> int \<Rightarrow> int \<Rightarrow> int \<Rightarrow> rule_tables \<Rightarrow> rule_tables \<Rightarrow> bool" where
  "spec_install_session teid pdr qer far prec urr T T' \<longleftrightarrow>
     (let s = mk_slot far qer urr prec 0 in
      T' = T\<lparr>pdr_table := (pdr_table T)(word_of_int pdr \<mapsto> mk_pdr far qer prec urr),
             tc_bundle_map := (tc_bundle_map T)(word_of_int pdr \<mapsto> mk_bundle 0 s s),
             teid_session := teid_session T'\<rparr> \<and>
      teid_session T' (word_of_int teid) = Some (mk_session pdr qer far) \<and>
      (\<forall>t. t \<noteq> word_of_int teid \<longrightarrow>
         teid_session T' t = teid_session T t \<or> teid_session T' t = None))"

text \<open>
  The state of the recording kernel in triples: the agent's invariant holds, every state
  observed so far satisfies \<open>I\<close>, and the current tables satisfy \<open>P\<close>.
\<close>

definition seen_ok :: "(string \<Rightarrow> map_def option) \<Rightarrow> ('k \<Rightarrow> store) \<Rightarrow> ('k \<Rightarrow> u32 \<rightharpoonup> string) \<Rightarrow>
    ('k \<Rightarrow> nat) \<Rightarrow> (rule_tables \<Rightarrow> bool) \<Rightarrow> (rule_tables \<Rightarrow> bool) \<Rightarrow> ('k \<times> 'k list) world \<Rightarrow> bool" where
  "seen_ok pinned view fd_path fd_avail I P w \<longleftrightarrow>
     world_ok pinned (fd_path \<circ> fst) (fd_avail \<circ> fst) upf_defs w \<and>
     (\<forall>A \<in> set (observed view w). I (tables_of A)) \<and> P (tabs (view \<circ> fst) w)"

subsection \<open>From bytes to tables\<close>

lemma upf_defs_simps [simp]:
  "upf_defs ''teid_session'' = Some \<lparr>map_type = LruHashMap, key_size = 4, value_size = 16, max_entries = 65536\<rparr>"
  "upf_defs ''pdr_table'' = Some \<lparr>map_type = HashMap, key_size = 4, value_size = 16, max_entries = 4096\<rparr>"
  "upf_defs ''far_table'' = Some \<lparr>map_type = ArrayMap, key_size = 4, value_size = 16, max_entries = 4096\<rparr>"
  "upf_defs ''qer_table'' = Some \<lparr>map_type = ArrayMap, key_size = 4, value_size = 24, max_entries = 4096\<rparr>"
  "upf_defs ''tc_bundle_map'' = Some \<lparr>map_type = HashMap, key_size = 4, value_size = 56, max_entries = 4096\<rparr>"
  "upf_defs ''dl_ue_map'' = Some \<lparr>map_type = HashMap, key_size = 4, value_size = 12, max_entries = 65536\<rparr>"
  "upf_defs ''upf_config_map'' = Some \<lparr>map_type = ArrayMap, key_size = 4, value_size = 4, max_entries = 1\<rparr>"
  by (simp_all add: upf_defs_def upf_map_defs_def)

lemma stored_eq:
  "stored d n key v A A' \<Longrightarrow> map_type d \<noteq> LruHashMap \<Longrightarrow> A' = A(n := (A n)(key \<mapsto> v))"
  by (auto simp: stored_def fun_eq_iff)

lemma tables_of_upd:
  "tables_of (A(''pdr_table'' := (A ''pdr_table'')(key32 k \<mapsto> v))) =
     (tables_of A)\<lparr>pdr_table := (pdr_table (tables_of A))(k \<mapsto> ld_pdr v)\<rparr>"
  "tables_of (A(''far_table'' := (A ''far_table'')(key32 k \<mapsto> v))) =
     (tables_of A)\<lparr>far_table := (far_table (tables_of A))(k \<mapsto> ld_far v)\<rparr>"
  "tables_of (A(''qer_table'' := (A ''qer_table'')(key32 k \<mapsto> v))) =
     (tables_of A)\<lparr>qer_table := (qer_table (tables_of A))(k \<mapsto> ld_qer v)\<rparr>"
  "tables_of (A(''tc_bundle_map'' := (A ''tc_bundle_map'')(key32 k \<mapsto> v))) =
     (tables_of A)\<lparr>tc_bundle_map := (tc_bundle_map (tables_of A))(k \<mapsto> ld_bundle v)\<rparr>"
  "tables_of (A(''dl_ue_map'' := (A ''dl_ue_map'')(key32 k \<mapsto> v))) =
     (tables_of A)\<lparr>dl_ue_map := (dl_ue_map (tables_of A))(k \<mapsto> ld_dl_ue v)\<rparr>"
  "tables_of (A(''upf_config_map'' := (A ''upf_config_map'')(key32 k \<mapsto> v))) =
     (tables_of A)\<lparr>upf_config_map := (upf_config_map (tables_of A))(k \<mapsto> ld_config v)\<rparr>"
  by (simp_all add: tables_of_def fun_eq_iff)

lemma tables_of_del:
  "tables_of (A(''teid_session'' := (A ''teid_session'')(key32 k := None))) =
     (tables_of A)\<lparr>teid_session := (teid_session (tables_of A))(k := None)\<rparr>"
  "tables_of (A(''pdr_table'' := (A ''pdr_table'')(key32 k := None))) =
     (tables_of A)\<lparr>pdr_table := (pdr_table (tables_of A))(k := None)\<rparr>"
  "tables_of (A(''tc_bundle_map'' := (A ''tc_bundle_map'')(key32 k := None))) =
     (tables_of A)\<lparr>tc_bundle_map := (tc_bundle_map (tables_of A))(k := None)\<rparr>"
  by (simp_all add: tables_of_def fun_eq_iff)

lemma tables_of_lru:
  assumes "stored d ''teid_session'' (key32 t) v A A'"
  shows "tables_of A' = (tables_of A)\<lparr>teid_session := teid_session (tables_of A')\<rparr>"
    and "teid_session (tables_of A') t = Some (ld_session v)"
    and "t' \<noteq> t \<Longrightarrow> teid_session (tables_of A') t' = teid_session (tables_of A) t' \<or>
      teid_session (tables_of A') t' = None"
proof -
  have other: "\<forall>k. k \<noteq> key32 t \<longrightarrow> A' ''teid_session'' k = A ''teid_session'' k \<or>
      map_type d = LruHashMap \<and> A' ''teid_session'' k = None"
    using assms unfolding stored_def by blast
  have "A' ''teid_session'' (key32 t') = A ''teid_session'' (key32 t') \<or>
      A' ''teid_session'' (key32 t') = None" if "t' \<noteq> t"
    using spec [OF other, of "key32 t'"] that by auto
  then show "t' \<noteq> t \<Longrightarrow> teid_session (tables_of A') t' = teid_session (tables_of A) t' \<or>
      teid_session (tables_of A') t' = None"
    by (auto simp: tables_of_def)
qed (use assms in \<open>auto simp: stored_def tables_of_def\<close>)

context bpf_kernel
begin

abbreviation "agent_ok \<equiv> world_ok pinned fd_path fd_avail upf_defs"

lemma rules_key_length:
  assumes "agent_ok w" "upf_defs n = Some d" "rules view w n key = Some v"
  shows "length key = key_size d \<and> length v = value_size d"
  using assms view_sizes [of "pin_path w n" d "kern w" key v] by (simp add: world_ok_def rules_def)

lemma has_room_hash:
  assumes ok: "agent_ok w" and d: "upf_defs n = Some d" "map_type d = HashMap" "key_size d = 4"
  shows "has_room d (rules view w n) (key32 k) \<longleftrightarrow>
    hash_room (max_entries d) (\<lambda>k. rules view w n (key32 k)) k"
proof -
  have "dom (rules view w n) = key32 ` dom (\<lambda>k. rules view w n (key32 k))"
  proof (intro equalityI subsetI)
    fix key assume "key \<in> dom (rules view w n)"
    then obtain v where v: "rules view w n key = Some v" by auto
    with rules_key_length [OF ok d(1)] d(3) key32_exhaust obtain k where "key = key32 k" by metis
    with v show "key \<in> key32 ` dom (\<lambda>k. rules view w n (key32 k))" by auto
  qed auto
  then have "card (dom (rules view w n)) = card (dom (\<lambda>k. rules view w n (key32 k)))"
    by (simp add: card_image inj_on_def)
  with d show ?thesis by (simp add: has_room_def hash_room_def)
qed

lemma room_pdr: "agent_ok w \<Longrightarrow>
    has_room (the (upf_defs ''pdr_table'')) (rules view w ''pdr_table'') (key32 k) \<longleftrightarrow>
    hash_room 4096 (pdr_table (tabs view w)) k"
  using has_room_hash [of w "''pdr_table''"]
  by (simp add: hash_room_def tabs_def tables_of_def dom_def)

lemma room_bundle: "agent_ok w \<Longrightarrow>
    has_room (the (upf_defs ''tc_bundle_map'')) (rules view w ''tc_bundle_map'') (key32 k) \<longleftrightarrow>
    hash_room 4096 (tc_bundle_map (tabs view w)) k"
  using has_room_hash [of w "''tc_bundle_map''"]
  by (simp add: hash_room_def tabs_def tables_of_def dom_def)

text \<open>Writing one table.\<close>

lemma update_pdr:
  assumes ok: "agent_ok w" and len: "length v = 16"
  obtains w' where "map_update sys ''pdr_table'' (key32 k) v w =
      ((if hash_room 4096 (pdr_table (tabs view w)) k then Inr () else Inl (OSError E2BIG)), w')"
    "agent_ok w'" "pin_base (cache w') = pin_base (cache w)"
    "tabs view w' = (if hash_room 4096 (pdr_table (tabs view w)) k
       then (tabs view w)\<lparr>pdr_table := (pdr_table (tabs view w))(k \<mapsto> ld_pdr v)\<rparr> else tabs view w)"
  using room_pdr [OF ok, of k] len
  by (rule_tac key = "key32 k" and val = v in pmc_update_spec [OF ok upf_defs_simps(2)])
    (auto simp: map_update_def tabs_def tables_of_upd dest!: stored_eq split: if_splits)

lemma update_bundle:
  assumes ok: "agent_ok w" and len: "length v = 56"
  obtains w' where "map_update sys ''tc_bundle_map'' (key32 k) v w =
      ((if hash_room 4096 (tc_bundle_map (tabs view w)) k then Inr () else Inl (OSError E2BIG)), w')"
    "agent_ok w'" "pin_base (cache w') = pin_base (cache w)"
    "tabs view w' = (if hash_room 4096 (tc_bundle_map (tabs view w)) k
       then (tabs view w)\<lparr>tc_bundle_map := (tc_bundle_map (tabs view w))(k \<mapsto> ld_bundle v)\<rparr>
       else tabs view w)"
  using room_bundle [OF ok, of k] len
  by (rule_tac key = "key32 k" and val = v in pmc_update_spec [OF ok upf_defs_simps(5)])
    (auto simp: map_update_def tabs_def tables_of_upd dest!: stored_eq split: if_splits)

lemma update_teid:
  assumes ok: "agent_ok w" and len: "length v = 16"
  obtains w' where "map_update sys ''teid_session'' (key32 t) v w = (Inr (), w')"
    "agent_ok w'" "pin_base (cache w') = pin_base (cache w)"
    "tabs view w' = (tabs view w)\<lparr>teid_session := teid_session (tabs view w')\<rparr>"
    "teid_session (tabs view w') t = Some (ld_session v)"
    "\<forall>t'. t' \<noteq> t \<longrightarrow> teid_session (tabs view w') t' = teid_session (tabs view w) t' \<or>
      teid_session (tabs view w') t' = None"
proof (rule pmc_update_spec [OF ok upf_defs_simps(1), of "key32 t" v])
  fix w' assume w': "agent_ok w'" "pin_base (cache w') = pin_base (cache w)"
    and u: "pmc_update sys ''teid_session'' (key32 t) v BPF_ANY w = (if has_room
        \<lparr>map_type = LruHashMap, key_size = 4, value_size = 16, max_entries = 65536\<rparr>
        (rules view w ''teid_session'') (key32 t) then Inr () else Inl (OSError E2BIG), w')"
      "if has_room \<lparr>map_type = LruHashMap, key_size = 4, value_size = 16, max_entries = 65536\<rparr>
        (rules view w ''teid_session'') (key32 t)
       then stored \<lparr>map_type = LruHashMap, key_size = 4, value_size = 16, max_entries = 65536\<rparr>
         ''teid_session'' (key32 t) v (rules view w) (rules view w')
       else rules view w' = rules view w"
  then have st: "stored \<lparr>map_type = LruHashMap, key_size = 4, value_size = 16, max_entries = 65536\<rparr>
      ''teid_session'' (key32 t) v (rules view w) (rules view w')"
    and call: "map_update sys ''teid_session'' (key32 t) v w = (Inr (), w')"
    by (simp_all add: has_room_def map_update_def)
  show thesis
    by (rule that [OF call w']) (use tables_of_lru [OF st] in \<open>simp_all add: tabs_def\<close>)
qed (use len in simp_all)

lemma install_tc_bundle_spec:
  assumes ok: "agent_ok w" and rng: "in_u32 p" "in_u32 f" "in_u32 q" "in_u32 u" "in_u32 pr" "in_u32 g"
  obtains w' where "install_tc_bundle sys p f q u pr g w =
      ((if hash_room 4096 (tc_bundle_map (tabs view w)) (word_of_int p) then Inr ()
        else Inl (OSError E2BIG)), w')"
    "agent_ok w'" "pin_base (cache w') = pin_base (cache w)"
    "tabs view w' = (if hash_room 4096 (tc_bundle_map (tabs view w)) (word_of_int p)
       then (tabs view w)\<lparr>tc_bundle_map := (tc_bundle_map (tabs view w))
         (word_of_int p \<mapsto> mk_bundle 0 (mk_slot f q u pr g) (mk_slot f q u pr g))\<rparr>
       else tabs view w)"
proof -
  obtain s where s: "enc_bundle_slot f q u pr g = Inr s"
    using rng by (simp add: enc_bundle_slot_eq del: le_bytes.simps)
  note ls = ld_enc_slot [OF s, of "[]"]
  obtain b where b: "enc_bundle 0 s s = Inr b" by (simp add: enc_bundle_eq del: le_bytes.simps)
  note lb = ld_enc_bundle [OF b]
  have ld: "ld_bundle b = mk_bundle 0 (mk_slot f q u pr g) (mk_slot f q u pr g)"
    using lb ls by (simp add: mk_bundle_def mk_slot_def)
  show thesis
  proof (rule update_bundle [OF ok, of b "word_of_int p"])
    fix w'
    assume "map_update sys ''tc_bundle_map'' (key32 (word_of_int p)) b w =
      (if hash_room 4096 (tc_bundle_map (tabs view w)) (word_of_int p) then Inr ()
       else Inl (OSError E2BIG), w')"
    then have "install_tc_bundle sys p f q u pr g w =
      (if hash_room 4096 (tc_bundle_map (tabs view w)) (word_of_int p) then Inr ()
       else Inl (OSError E2BIG), w')"
      using rng s b by (simp add: install_tc_bundle_def enc_u32_eq py_bind_def py_lift_def)
    moreover assume "agent_ok w'" "pin_base (cache w') = pin_base (cache w)"
      "tabs view w' = (if hash_room 4096 (tc_bundle_map (tabs view w)) (word_of_int p)
        then (tabs view w)\<lparr>tc_bundle_map := (tc_bundle_map (tabs view w))(word_of_int p \<mapsto> ld_bundle b)\<rparr>
        else tabs view w)"
    ultimately show thesis using that [of w'] ld by simp
  qed (use lb ls in simp)
qed

lemma install_session_spec:
  assumes ok: "agent_ok w"
    and rng: "in_u32 t" "in_u32 p" "in_u32 q" "in_u32 f" "in_u32 pr" "in_u32 u"
    and room: "hash_room 4096 (pdr_table (tabs view w)) (word_of_int p)"
      "hash_room 4096 (tc_bundle_map (tabs view w)) (word_of_int p)"
  obtains w' where "install_session sys t p q f pr u w = (Inr (), w')" "agent_ok w'"
    "pin_base (cache w') = pin_base (cache w)"
    "spec_install_session t p q f pr u (tabs view w) (tabs view w')"
proof -
  obtain pb where pb: "enc_pdr f q pr u = Inr pb" using rng by (simp add: enc_pdr_eq del: le_bytes.simps)
  obtain sb where sb: "enc_session p q f = Inr sb" using rng by (simp add: enc_session_eq del: le_bytes.simps)
  note lp = ld_enc_pdr [OF pb] and lsb = ld_enc_session [OF sb]
  obtain w1 where u1: "map_update sys ''pdr_table'' (key32 (word_of_int p)) pb w = (Inr (), w1)"
    and ok1: "agent_ok w1" and b1: "pin_base (cache w1) = pin_base (cache w)"
    and t1: "tabs view w1 =
      (tabs view w)\<lparr>pdr_table := (pdr_table (tabs view w))(word_of_int p \<mapsto> ld_pdr pb)\<rparr>"
    using lp room(1) by (rule_tac update_pdr [OF ok, of pb "word_of_int p"]) (auto split: if_splits)
  have room1: "hash_room 4096 (tc_bundle_map (tabs view w1)) (word_of_int p)" using room(2) t1 by simp
  obtain w2 where u2: "install_tc_bundle sys p f q u pr 0 w1 = (Inr (), w2)"
    and ok2: "agent_ok w2" and b2: "pin_base (cache w2) = pin_base (cache w1)"
    and t2: "tabs view w2 = (tabs view w1)\<lparr>tc_bundle_map := (tc_bundle_map (tabs view w1))
         (word_of_int p \<mapsto> mk_bundle 0 (mk_slot f q u pr 0) (mk_slot f q u pr 0))\<rparr>"
    by (rule install_tc_bundle_spec [OF ok1 rng(2,4,3,6,5) in_u32_0(1)]) (use room1 in auto)
  have ls: "length sb = 16" using lsb by simp
  obtain w3 where u3: "map_update sys ''teid_session'' (key32 (word_of_int t)) sb w2 = (Inr (), w3)"
    and ok3: "agent_ok w3" and b3: "pin_base (cache w3) = pin_base (cache w2)"
    and t3: "tabs view w3 = (tabs view w2)\<lparr>teid_session := teid_session (tabs view w3)\<rparr>"
      "teid_session (tabs view w3) (word_of_int t) = Some (ld_session sb)"
      "\<forall>t'. t' \<noteq> word_of_int t \<longrightarrow> teid_session (tabs view w3) t' = teid_session (tabs view w2) t' \<or>
        teid_session (tabs view w3) t' = None"
    by (rule update_teid [OF ok2 ls, of "word_of_int t"])
  have "install_session sys t p q f pr u w = (Inr (), w3)"
    using rng pb sb u1 u2 u3 by (simp add: install_session_def enc_u32_eq py_bind_def py_lift_def)
  moreover have "spec_install_session t p q f pr u (tabs view w) (tabs view w3)"
    unfolding spec_install_session_def Let_def
  proof (intro conjI allI impI)
    show "tabs view w3 = (tabs view w)
        \<lparr>pdr_table := (pdr_table (tabs view w))(word_of_int p \<mapsto> mk_pdr f q pr u),
         tc_bundle_map := (tc_bundle_map (tabs view w))
           (word_of_int p \<mapsto> mk_bundle 0 (mk_slot f q u pr 0) (mk_slot f q u pr 0)),
         teid_session := teid_session (tabs view w3)\<rparr>"
      by (subst t3(1)) (use t1 t2 lp in \<open>simp add: mk_pdr_def\<close>)
    show "teid_session (tabs view w3) (word_of_int t) = Some (mk_session p q f)"
      using t3(2) lsb by (simp add: mk_session_def)
    show "teid_session (tabs view w3) t' = teid_session (tabs view w) t' \<or>
        teid_session (tabs view w3) t' = None" if "t' \<noteq> word_of_int t" for t'
      using t3(3) that t1 t2 by simp
  qed
  ultimately show thesis using that ok3 b1 b2 b3 by simp
qed

lemma install_session_failures:
  assumes ok: "agent_ok w" and rng: "in_u32 p" "in_u32 q" "in_u32 f" "in_u32 pr" "in_u32 u"
  defines "T \<equiv> tabs view w"
  defines "T1 \<equiv> T\<lparr>pdr_table := (pdr_table T)(word_of_int p \<mapsto> mk_pdr f q pr u)\<rparr>"
  shows "\<not> hash_room 4096 (pdr_table T) (word_of_int p) \<Longrightarrow>
      \<exists>w'. install_session sys t p q f pr u w = (Inl (OSError E2BIG), w') \<and> agent_ok w' \<and> tabs view w' = T"
    and "hash_room 4096 (pdr_table T) (word_of_int p) \<Longrightarrow>
      \<not> hash_room 4096 (tc_bundle_map T) (word_of_int p) \<Longrightarrow>
      \<exists>w'. install_session sys t p q f pr u w = (Inl (OSError E2BIG), w') \<and> agent_ok w' \<and> tabs view w' = T1"
    and "hash_room 4096 (pdr_table T) (word_of_int p) \<Longrightarrow>
      hash_room 4096 (tc_bundle_map T) (word_of_int p) \<Longrightarrow> \<not> in_u32 t \<Longrightarrow>
      \<exists>w'. install_session sys t p q f pr u w = (Inl StructError, w') \<and> agent_ok w' \<and>
        tabs view w' = T1\<lparr>tc_bundle_map := (tc_bundle_map T)
          (word_of_int p \<mapsto> mk_bundle 0 (mk_slot f q u pr 0) (mk_slot f q u pr 0))\<rparr>"
proof -
  obtain pb where pb: "enc_pdr f q pr u = Inr pb" using rng by (simp add: enc_pdr_eq del: le_bytes.simps)
  note lp = ld_enc_pdr [OF pb]
  have ld: "ld_pdr pb = mk_pdr f q pr u" using lp by (simp add: mk_pdr_def)
  obtain w1 where u1: "map_update sys ''pdr_table'' (key32 (word_of_int p)) pb w =
      ((if hash_room 4096 (pdr_table T) (word_of_int p) then Inr () else Inl (OSError E2BIG)), w1)"
    and ok1: "agent_ok w1"
    and t1: "tabs view w1 = (if hash_room 4096 (pdr_table T) (word_of_int p) then T1 else T)"
    unfolding T_def T1_def
    by (rule update_pdr [OF ok, of pb "word_of_int p"]) (use lp ld in auto)
  obtain w2 where u2: "install_tc_bundle sys p f q u pr 0 w1 =
      ((if hash_room 4096 (tc_bundle_map (tabs view w1)) (word_of_int p) then Inr ()
        else Inl (OSError E2BIG)), w2)"
    and ok2: "agent_ok w2"
    and t2: "tabs view w2 = (if hash_room 4096 (tc_bundle_map (tabs view w1)) (word_of_int p)
       then (tabs view w1)\<lparr>tc_bundle_map := (tc_bundle_map (tabs view w1))
         (word_of_int p \<mapsto> mk_bundle 0 (mk_slot f q u pr 0) (mk_slot f q u pr 0))\<rparr>
       else tabs view w1)"
    by (rule install_tc_bundle_spec [OF ok1 rng(1,3,2,5,4) in_u32_0(1)])
  have T1: "tc_bundle_map T1 = tc_bundle_map T" by (simp add: T1_def)
  note steps = install_session_def enc_u32_eq py_bind_def py_lift_def
  show "\<not> hash_room 4096 (pdr_table T) (word_of_int p) \<Longrightarrow>
      \<exists>w'. install_session sys t p q f pr u w = (Inl (OSError E2BIG), w') \<and> agent_ok w' \<and> tabs view w' = T"
    using rng pb u1 ok1 t1 by (simp add: steps)
  assume room: "hash_room 4096 (pdr_table T) (word_of_int p)"
  show "\<not> hash_room 4096 (tc_bundle_map T) (word_of_int p) \<Longrightarrow>
      \<exists>w'. install_session sys t p q f pr u w = (Inl (OSError E2BIG), w') \<and> agent_ok w' \<and> tabs view w' = T1"
    using room rng pb u1 u2 ok2 t1 t2 T1 by (simp add: steps)
  assume "hash_room 4096 (tc_bundle_map T) (word_of_int p)" "\<not> in_u32 t"
  then show "\<exists>w'. install_session sys t p q f pr u w = (Inl StructError, w') \<and> agent_ok w' \<and>
        tabs view w' = T1\<lparr>tc_bundle_map := (tc_bundle_map T)
          (word_of_int p \<mapsto> mk_bundle 0 (mk_slot f q u pr 0) (mk_slot f q u pr 0))\<rparr>"
    using room rng pb u1 u2 ok2 t1 t2 T1 by (simp add: steps)
qed

lemma install_session_unfit:
  "\<not> (in_u32 p \<and> in_u32 q \<and> in_u32 f \<and> in_u32 pr \<and> in_u32 u) \<Longrightarrow>
     install_session sys t p q f pr u w = (Inl StructError, w)"
  by (auto simp: install_session_def enc_u32_eq enc_pdr_eq py_bind_def py_lift_def simp del: le_bytes.simps)

lemma delete_teid:
  assumes ok: "agent_ok w"
  obtains w' where "map_delete sys ''teid_session'' (key32 k) w = (Inr (), w')" "agent_ok w'"
    "tabs view w' = (tabs view w)\<lparr>teid_session := (teid_session (tabs view w))(k := None)\<rparr>"
  by (rule pmc_delete_spec [OF ok upf_defs_simps(1), of "key32 k"])
    (auto simp: map_delete_def py_except_def py_return_def tabs_def tables_of_del split: if_splits)

lemma delete_pdr:
  assumes ok: "agent_ok w"
  obtains w' where "map_delete sys ''pdr_table'' (key32 k) w = (Inr (), w')" "agent_ok w'"
    "tabs view w' = (tabs view w)\<lparr>pdr_table := (pdr_table (tabs view w))(k := None)\<rparr>"
  by (rule pmc_delete_spec [OF ok upf_defs_simps(2), of "key32 k"])
    (auto simp: map_delete_def py_except_def py_return_def tabs_def tables_of_del split: if_splits)

lemma delete_bundle:
  assumes ok: "agent_ok w"
  obtains w' where "map_delete sys ''tc_bundle_map'' (key32 k) w = (Inr (), w')" "agent_ok w'"
    "tabs view w' = (tabs view w)\<lparr>tc_bundle_map := (tc_bundle_map (tabs view w))(k := None)\<rparr>"
  by (rule pmc_delete_spec [OF ok upf_defs_simps(5), of "key32 k"])
    (auto simp: map_delete_def py_except_def py_return_def tabs_def tables_of_del split: if_splits)

lemma remove_session_spec:
  assumes ok: "agent_ok w" and rng: "in_u32 t" "in_u32 p"
  obtains w' where "remove_session sys t p w = (Inr (), w')" "agent_ok w'"
    "tabs view w' = (tabs view w)
       \<lparr>teid_session := (teid_session (tabs view w))(word_of_int t := None),
        pdr_table := (pdr_table (tabs view w))(word_of_int p := None),
        tc_bundle_map := (tc_bundle_map (tabs view w))(word_of_int p := None)\<rparr>"
proof -
  obtain w1 where d1: "map_delete sys ''teid_session'' (key32 (word_of_int t)) w = (Inr (), w1)"
    "agent_ok w1" "tabs view w1 =
      (tabs view w)\<lparr>teid_session := (teid_session (tabs view w))(word_of_int t := None)\<rparr>"
    by (rule delete_teid [OF ok])
  obtain w2 where d2: "map_delete sys ''pdr_table'' (key32 (word_of_int p)) w1 = (Inr (), w2)"
    "agent_ok w2" "tabs view w2 =
      (tabs view w1)\<lparr>pdr_table := (pdr_table (tabs view w1))(word_of_int p := None)\<rparr>"
    by (rule delete_pdr [OF d1(2)])
  obtain w3 where d3: "map_delete sys ''tc_bundle_map'' (key32 (word_of_int p)) w2 = (Inr (), w3)"
    "agent_ok w3" "tabs view w3 =
      (tabs view w2)\<lparr>tc_bundle_map := (tc_bundle_map (tabs view w2))(word_of_int p := None)\<rparr>"
    by (rule delete_bundle [OF d2(2)])
  have "remove_session sys t p w = (Inr (), w3)"
    using rng d1 d2 d3 by (simp add: remove_session_def enc_u32_eq py_bind_def py_lift_def)
  with that [OF this d3(2)] d1 d2 d3 show thesis by simp
qed

text \<open>Triples for one map operation under the recording kernel.\<close>

abbreviation "seen \<equiv> seen_ok pinned view fd_path fd_avail"

lemma one_commit_seen:
  assumes "one_commit view w w'" "\<forall>A \<in> set (observed view w). I (tables_of A)"
    "I (tabs (view \<circ> fst) w)" "I (tabs (view \<circ> fst) w')"
  shows "\<forall>A \<in> set (observed view w'). I (tables_of A)"
  using assms by (auto simp: one_commit_def tabs_def)

lemma map_commit:
  assumes "world_ok pinned (fd_path \<circ> fst) (fd_avail \<circ> fst) upf_defs w" "upf_defs n = Some d"
  shows "map_update (traced sys) n key val w = (r1, w1) \<Longrightarrow> one_commit view w w1"
    and "map_delete (traced sys) n key w = (r2, w2) \<Longrightarrow> one_commit view w w2"
  using pmc_commit [OF assms]
  by (auto simp: map_update_def map_delete_def py_except_def py_return_def
      split: prod.splits sum.splits if_splits)

lemma seen_weaken:
  "seen I P w \<Longrightarrow> (\<And>T. P T \<Longrightarrow> Q T) \<Longrightarrow> seen I Q w"
  by (simp add: seen_ok_def)

abbreviation "tr_ok \<equiv> world_ok pinned (fd_path \<circ> fst) (fd_avail \<circ> fst) upf_defs"
abbreviation "tr_tabs \<equiv> tabs (view \<circ> fst)"

definition "commits m R \<longleftrightarrow> (\<forall>w r w'. tr_ok w \<longrightarrow> m w = (r, w') \<longrightarrow>
    tr_ok w' \<and> one_commit view w w' \<and>
    (case r of Inl _ \<Rightarrow> tr_tabs w' = tr_tabs w | Inr _ \<Rightarrow> R (tr_tabs w) (tr_tabs w')))"

lemma commitsI:
  assumes "\<And>w r w'. tr_ok w \<Longrightarrow> m w = (r, w') \<Longrightarrow> tr_ok w' \<and> one_commit view w w' \<and>
    (case r of Inl _ \<Rightarrow> tr_tabs w' = tr_tabs w | Inr _ \<Rightarrow> R (tr_tabs w) (tr_tabs w'))"
  shows "commits m R"
  using assms by (simp add: commits_def)

lemma hoare_commit:
  assumes m: "commits m R" and PI: "\<And>T. P T \<Longrightarrow> I T" and QI: "\<And>T. Q T \<Longrightarrow> I T"
    and PQ: "\<And>T T'. P T \<Longrightarrow> R T T' \<Longrightarrow> Q T'" and PE: "\<And>T. P T \<Longrightarrow> E T"
  shows "py_hoare (seen I P) m (\<lambda>_. seen I Q) (seen I E)"
proof (rule py_hoareI)
  fix w x w' assume st: "seen I P w" "m w = (Inr x, w')"
  with m have "tr_ok w'" "one_commit view w w'" "R (tr_tabs w) (tr_tabs w')"
    by (auto simp: seen_ok_def commits_def)
  with st(1) PI QI PQ one_commit_seen [of w w' I] show "seen I Q w'" by (auto simp: seen_ok_def)
next
  fix w e w' assume st: "seen I P w" "m w = (Inl e, w')"
  with m have "tr_ok w'" "one_commit view w w'" "tr_tabs w' = tr_tabs w"
    by (auto simp: seen_ok_def commits_def)
  with st(1) PI PE one_commit_seen [of w w' I] show "seen I E w'" by (auto simp: seen_ok_def)
qed

lemma commits_update_pdr:
  assumes "length v = 16"
  shows "commits (map_update (traced sys) ''pdr_table'' (key32 k) v)
    (\<lambda>T T'. T' = T\<lparr>pdr_table := (pdr_table T)(k \<mapsto> ld_pdr v)\<rparr>)"
  unfolding commits_def
proof (intro allI impI)
  fix w r w' assume ok: "tr_ok w" and c: "map_update (traced sys) ''pdr_table'' (key32 k) v w = (r, w')"
  show "tr_ok w' \<and> one_commit view w w' \<and> (case r of Inl _ \<Rightarrow> tr_tabs w' = tr_tabs w
      | Inr _ \<Rightarrow> tr_tabs w' = (tr_tabs w)\<lparr>pdr_table := (pdr_table (tr_tabs w))(k \<mapsto> ld_pdr v)\<rparr>)"
    using map_commit(1) [OF ok upf_defs_simps(2) c] c
    by (rule_tac bpf_kernel.update_pdr [OF traced_kernel ok assms, of k]) auto
qed

lemma commits_update_bundle:
  assumes "length v = 56"
  shows "commits (map_update (traced sys) ''tc_bundle_map'' (key32 k) v)
    (\<lambda>T T'. T' = T\<lparr>tc_bundle_map := (tc_bundle_map T)(k \<mapsto> ld_bundle v)\<rparr>)"
  unfolding commits_def
proof (intro allI impI)
  fix w r w' assume ok: "tr_ok w" and c: "map_update (traced sys) ''tc_bundle_map'' (key32 k) v w = (r, w')"
  show "tr_ok w' \<and> one_commit view w w' \<and> (case r of Inl _ \<Rightarrow> tr_tabs w' = tr_tabs w
      | Inr _ \<Rightarrow> tr_tabs w' = (tr_tabs w)\<lparr>tc_bundle_map := (tc_bundle_map (tr_tabs w))(k \<mapsto> ld_bundle v)\<rparr>)"
    using map_commit(1) [OF ok upf_defs_simps(5) c] c
    by (rule_tac bpf_kernel.update_bundle [OF traced_kernel ok assms, of k]) auto
qed

text \<open>Inserting into the LRU table: the entry is there, every other one is kept or evicted.\<close>

lemma commits_update_teid:
  assumes "length v = 16"
  shows "commits (map_update (traced sys) ''teid_session'' (key32 k) v)
    (\<lambda>T T'. T' = T\<lparr>teid_session := teid_session T'\<rparr> \<and> teid_session T' k = Some (ld_session v) \<and>
       (\<forall>t. t \<noteq> k \<longrightarrow> teid_session T' t = teid_session T t \<or> teid_session T' t = None))"
  unfolding commits_def
proof (intro allI impI)
  fix w r w' assume ok: "tr_ok w" and c: "map_update (traced sys) ''teid_session'' (key32 k) v w = (r, w')"
  show "tr_ok w' \<and> one_commit view w w' \<and> (case r of Inl _ \<Rightarrow> tr_tabs w' = tr_tabs w
      | Inr _ \<Rightarrow> tr_tabs w' = (tr_tabs w)\<lparr>teid_session := teid_session (tr_tabs w')\<rparr> \<and>
          teid_session (tr_tabs w') k = Some (ld_session v) \<and>
          (\<forall>t. t \<noteq> k \<longrightarrow> teid_session (tr_tabs w') t = teid_session (tr_tabs w) t \<or>
             teid_session (tr_tabs w') t = None))"
    using map_commit(1) [OF ok upf_defs_simps(1) c] c
    by (rule_tac bpf_kernel.update_teid [OF traced_kernel ok assms, of k]) auto
qed

lemma commits_delete:
  "commits (map_delete (traced sys) ''teid_session'' (key32 k))
     (\<lambda>T T'. T' = T\<lparr>teid_session := (teid_session T)(k := None)\<rparr>)"
  "commits (map_delete (traced sys) ''pdr_table'' (key32 k))
     (\<lambda>T T'. T' = T\<lparr>pdr_table := (pdr_table T)(k := None)\<rparr>)"
  "commits (map_delete (traced sys) ''tc_bundle_map'' (key32 k))
     (\<lambda>T T'. T' = T\<lparr>tc_bundle_map := (tc_bundle_map T)(k := None)\<rparr>)"
proof (goal_cases)
  case 1
  show ?case
    by (rule commitsI, rule_tac bpf_kernel.delete_teid [OF traced_kernel, of _ k])
      (auto dest: map_commit(2) [OF _ upf_defs_simps(1)])
next
  case 2
  show ?case
    by (rule commitsI, rule_tac bpf_kernel.delete_pdr [OF traced_kernel, of _ k])
      (auto dest: map_commit(2) [OF _ upf_defs_simps(2)])
next
  case 3
  show ?case
    by (rule commitsI, rule_tac bpf_kernel.delete_bundle [OF traced_kernel, of _ k])
      (auto dest: map_commit(2) [OF _ upf_defs_simps(5)])
qed

text \<open>Integrity holds in every state observable during the session operations.\<close>

lemma install_tc_bundle_seen:
  assumes "\<And>T b. P T \<Longrightarrow> b = mk_bundle 0 (mk_slot f q u pr g) (mk_slot f q u pr g) \<Longrightarrow>
      Q (T\<lparr>tc_bundle_map := (tc_bundle_map T)(word_of_int p \<mapsto> b)\<rparr>)"
    "\<And>T. P T \<Longrightarrow> I T" "\<And>T. Q T \<Longrightarrow> I T" "\<And>T. P T \<Longrightarrow> E T"
  shows "py_hoare (seen I P) (install_tc_bundle (traced sys) p f q u pr g) (\<lambda>_. seen I Q) (seen I E)"
  unfolding install_tc_bundle_def
proof (intro hoare_lift_bind)
  fix s k v
  assume enc: "enc_bundle_slot f q u pr g = Inr s" "enc_u32 p = Inr k" "enc_bundle 0 s s = Inr v"
  have ls: "length s = 24" "ld_slot s = mk_slot f q u pr g"
    using ld_enc_slot [OF enc(1), of "[]"] by (simp_all add: mk_slot_def)
  have "length v = 56" "ld_bundle v = mk_bundle 0 (mk_slot f q u pr g) (mk_slot f q u pr g)"
    using ld_enc_bundle [OF enc(3) ls(1) ls(1)] ls(2) by (simp_all add: mk_bundle_def)
  moreover have "k = key32 (word_of_int p)" using enc(2) by (auto simp: enc_u32_eq split: if_splits)
  ultimately show "py_hoare (seen I P) (map_update (traced sys) ''tc_bundle_map'' k v) (\<lambda>_. seen I Q) (seen I E)"
    using hoare_commit [OF commits_update_bundle [of v "word_of_int p"], of P I Q E] assms by auto
qed (use assms(4) seen_weaken in auto)

text \<open>
  A predicate \<open>P\<close> on the tables that each of its three writes keeps holds throughout
  \<^verbatim>\<open>install_session\<close>; the session is written when its PDR and bundle are there.
\<close>

lemma install_session_keeps:
  assumes PI: "\<And>T. P T \<Longrightarrow> I T"
    and pdr: "\<And>T v. P T \<Longrightarrow> P (T\<lparr>pdr_table := (pdr_table T)(word_of_int p \<mapsto> v)\<rparr>)"
    and bun: "\<And>T b. P T \<Longrightarrow> b = mk_bundle 0 (mk_slot f q u pr 0) (mk_slot f q u pr 0) \<Longrightarrow>
      P (T\<lparr>tc_bundle_map := (tc_bundle_map T)(word_of_int p \<mapsto> b)\<rparr>)"
    and sess: "\<And>T ts. P T \<Longrightarrow> in_u32 p \<Longrightarrow> in_u32 t \<Longrightarrow> pdr_table T (word_of_int p) \<noteq> None \<Longrightarrow>
      tc_bundle_map T (word_of_int p) \<noteq> None \<Longrightarrow> ts (word_of_int t) = Some (mk_session p q f) \<Longrightarrow>
      \<forall>x. x \<noteq> word_of_int t \<longrightarrow> ts x = teid_session T x \<or> ts x = None \<Longrightarrow> P (T\<lparr>teid_session := ts\<rparr>)"
  shows "py_hoare (seen I P) (install_session (traced sys) t p q f pr u) (\<lambda>_. seen I P) (seen I P)"
  unfolding install_session_def
proof (intro hoare_lift_bind)
  fix k v assume kv: "enc_u32 p = Inr k" "enc_pdr f q pr u = Inr v"
  let ?P1 = "\<lambda>T. P T \<and> pdr_table T (word_of_int p) \<noteq> None"
  let ?P2 = "\<lambda>T. ?P1 T \<and> tc_bundle_map T (word_of_int p) \<noteq> None"
  have k: "k = key32 (word_of_int p)" "in_u32 p" using kv(1) by (auto simp: enc_u32_eq split: if_splits)
  have v: "length v = 16" using ld_enc_pdr [OF kv(2)] by simp
  have 1: "py_hoare (seen I P) (map_update (traced sys) ''pdr_table'' k v) (\<lambda>_. seen I ?P1) (seen I P)"
    unfolding k by (rule hoare_commit [OF commits_update_pdr [OF v]]) (auto simp: PI pdr)
  have 2: "py_hoare (seen I ?P1) (install_tc_bundle (traced sys) p f q u pr 0)
      (\<lambda>_. seen I ?P2) (seen I P)"
    by (rule install_tc_bundle_seen) (auto simp: PI bun)
  have 3: "py_hoare (seen I ?P2) (map_update (traced sys) ''teid_session'' k' v')
      (\<lambda>_. seen I P) (seen I P)"
    if kv': "enc_u32 t = Inr k'" "enc_session p q f = Inr v'" for k' v'
  proof -
    have k': "k' = key32 (word_of_int t)" "in_u32 t" using kv'(1) by (auto simp: enc_u32_eq split: if_splits)
    have v': "length v' = 16" "ld_session v' = mk_session p q f"
      using ld_enc_session [OF kv'(2)] by (simp_all add: mk_session_def)
    show ?thesis unfolding k'
    proof (rule hoare_commit [OF commits_update_teid [OF v'(1)]], goal_cases)
      case (3 T T')
      then have "P (T\<lparr>teid_session := teid_session T'\<rparr>)" using k(2) k'(2) v'(2) by (intro sess) auto
      with 3 show ?case by simp
    qed (auto simp: PI)
  qed
  show "py_hoare (seen I P)
      (py_bind (map_update (traced sys) ''pdr_table'' k v) (\<lambda>_.
       py_bind (install_tc_bundle (traced sys) p f q u pr 0) (\<lambda>_.
       py_bind (py_lift (enc_u32 t)) (\<lambda>teid_key.
       py_bind (py_lift (enc_session p q f)) (\<lambda>sess_bytes.
       map_update (traced sys) ''teid_session'' teid_key sess_bytes)))))
      (\<lambda>_. seen I P) (seen I P)"
    by (rule hoare_bind [OF 1], rule hoare_bind [OF 2], intro hoare_lift_bind 3)
      (auto elim: seen_weaken)
qed auto

lemma install_session_seen:
  "py_hoare (seen refs_ok refs_ok) (install_session (traced sys) t p q f pr u)
     (\<lambda>_. seen refs_ok refs_ok) (seen refs_ok refs_ok)"
proof (rule install_session_keeps, goal_cases)
  case (4 T ts)
  show ?case unfolding refs_ok_def
  proof (intro allI impI)
    fix x s assume "teid_session (T\<lparr>teid_session := ts\<rparr>) x = Some s"
    then show "pdr_table (T\<lparr>teid_session := ts\<rparr>) (sess_pdr_id s) \<noteq> None \<and>
        tc_bundle_map (T\<lparr>teid_session := ts\<rparr>) (sess_pdr_id s) \<noteq> None"
      using 4 by (cases "x = word_of_int t") (auto simp: refs_ok_def mk_session_def)
  qed
qed (auto simp: refs_ok_def)

text \<open>
  Likewise for \<^verbatim>\<open>remove_session\<close>: the rules are deleted when no session refers to them any more,
  provided that the removed session was the only one of its PDR.
\<close>

lemma remove_session_keeps:
  assumes PI: "\<And>T. P T \<Longrightarrow> I T"
    and only: "\<And>T x s. P T \<Longrightarrow> in_u32 t \<Longrightarrow> in_u32 p \<Longrightarrow> teid_session T x = Some s \<Longrightarrow>
      sess_pdr_id s = word_of_int p \<Longrightarrow> x = word_of_int t"
    and sess: "\<And>T. P T \<Longrightarrow> P (T\<lparr>teid_session := (teid_session T)(word_of_int t := None)\<rparr>)"
    and pdr: "\<And>T. P T \<Longrightarrow> \<forall>x s. teid_session T x = Some s \<longrightarrow> sess_pdr_id s \<noteq> word_of_int p \<Longrightarrow>
      P (T\<lparr>pdr_table := (pdr_table T)(word_of_int p := None)\<rparr>)"
    and bun: "\<And>T. P T \<Longrightarrow> \<forall>x s. teid_session T x = Some s \<longrightarrow> sess_pdr_id s \<noteq> word_of_int p \<Longrightarrow>
      P (T\<lparr>tc_bundle_map := (tc_bundle_map T)(word_of_int p := None)\<rparr>)"
  shows "py_hoare (seen I P) (remove_session (traced sys) t p) (\<lambda>_. seen I P) (seen I P)"
proof -
  let ?free = "\<lambda>T. \<forall>x s. teid_session T x = Some s \<longrightarrow> sess_pdr_id s \<noteq> word_of_int p"
  let ?P1 = "\<lambda>T. P T \<and> (in_u32 p \<longrightarrow> ?free T)"
  have key: "k = key32 (word_of_int v) \<and> in_u32 v" if "enc_u32 v = Inr k" for v k
    using that by (auto simp: enc_u32_eq split: if_splits)
  have 1: "py_hoare (seen I P) (map_delete (traced sys) ''teid_session'' (key32 (word_of_int t)))
      (\<lambda>_. seen I ?P1) (seen I P)" if "in_u32 t"
    by (rule hoare_commit [OF commits_delete(1)]) (use that PI only sess in \<open>auto split: if_splits\<close>)
  have 2: "py_hoare (seen I ?P1) (map_delete (traced sys) ''pdr_table'' (key32 (word_of_int p)))
      (\<lambda>_. seen I ?P1) (seen I P)" if "in_u32 p"
    by (rule hoare_commit [OF commits_delete(2)]) (use that PI pdr in auto)
  have 3: "py_hoare (seen I ?P1) (map_delete (traced sys) ''tc_bundle_map'' (key32 (word_of_int p)))
      (\<lambda>_. seen I P) (seen I P)" if "in_u32 p"
    by (rule hoare_commit [OF commits_delete(3)]) (use that PI bun in auto)
  have 4: "py_hoare (seen I ?P1)
      (py_bind (py_lift (enc_u32 p)) (\<lambda>k2. map_delete (traced sys) ''tc_bundle_map'' k2))
      (\<lambda>_. seen I P) (seen I P)"
    by (rule hoare_lift_bind, drule key, elim conjE, hypsubst, erule 3) (auto elim: seen_weaken)
  have 5: "py_hoare (seen I ?P1)
      (py_bind (py_lift (enc_u32 p)) (\<lambda>k. py_bind (map_delete (traced sys) ''pdr_table'' k)
        (\<lambda>_. py_bind (py_lift (enc_u32 p)) (\<lambda>k2. map_delete (traced sys) ''tc_bundle_map'' k2))))
      (\<lambda>_. seen I P) (seen I P)"
    by (rule hoare_lift_bind, drule key, elim conjE, hypsubst, erule hoare_bind [OF 2 4])
      (auto elim: seen_weaken)
  show ?thesis unfolding remove_session_def
    by (rule hoare_lift_bind, drule key, elim conjE, hypsubst, erule hoare_bind [OF 1 5]) auto
qed

lemma remove_session_seen:
  "py_hoare (seen refs_ok (\<lambda>T. refs_ok T \<and>
       (\<forall>x s. teid_session T x = Some s \<and> sess_pdr_id s = word_of_int p \<longrightarrow> x = word_of_int t)))
     (remove_session (traced sys) t p) (\<lambda>_. seen refs_ok refs_ok) (seen refs_ok refs_ok)"
  (is "py_hoare (seen _ ?P) _ _ _")
proof -
  have "py_hoare (seen refs_ok ?P) (remove_session (traced sys) t p)
      (\<lambda>_. seen refs_ok ?P) (seen refs_ok ?P)"
    by (rule remove_session_keeps) (auto simp: refs_ok_def split: if_splits)
  then show ?thesis by (rule hoare_weaken) (auto elim: seen_weaken)
qed

end

end
