(* ===== verification/Agent_Modify.thy ===== *)
theory Agent_Modify
  imports Agent_Rules
begin

text \<open>
  \<^verbatim>\<open>modify_tc_bundle\<close>: the two-write double-buffer protocol. \<open>decision\<close> is the tuple a packet
  is decided by; the lemmas follow the operation write by write, on the tables and on the
  list of states a concurrent reader can observe.
\<close>

type_synonym decision_tuple = "u32 \<times> u32 \<times> u32 \<times> u32 \<times> u32"

definition decision :: "tc_bundle_slot \<Rightarrow> decision_tuple" where
  "decision s = (slot_far_id s, slot_qer_id s, slot_urr_id s, slot_precedence s, slot_generation s)"

definition packet_decision :: "rule_tables \<Rightarrow> u32 \<Rightarrow> decision_tuple option" where
  "packet_decision T pdr = map_option (decision \<circ> active_slot) (tc_bundle_map T pdr)"

text \<open>The slot the operation builds from the active one, and when its fields fit.\<close>

definition modified_slot ::
    "int option \<Rightarrow> int option \<Rightarrow> int option \<Rightarrow> int option \<Rightarrow> tc_bundle_slot \<Rightarrow> tc_bundle_slot" where
  "modified_slot far qer urr prec cur =
     mk_slot (or_else far (uint (slot_far_id cur))) (or_else qer (uint (slot_qer_id cur)))
       (or_else urr (uint (slot_urr_id cur))) (or_else prec (uint (slot_precedence cur)))
       (uint (slot_generation cur) + 1)"

definition modify_fits ::
    "int option \<Rightarrow> int option \<Rightarrow> int option \<Rightarrow> int option \<Rightarrow> tc_bundle_slot \<Rightarrow> bool" where
  "modify_fits far qer urr prec cur \<longleftrightarrow>
     in_u32 (or_else far (uint (slot_far_id cur))) \<and> in_u32 (or_else qer (uint (slot_qer_id cur))) \<and>
     in_u32 (or_else urr (uint (slot_urr_id cur))) \<and> in_u32 (or_else prec (uint (slot_precedence cur))) \<and>
     in_u32 (uint (slot_generation cur) + 1)"

text \<open>The bundle after the first and after the second write.\<close>

definition prepared :: "tc_bundle_slot \<Rightarrow> tc_bundle \<Rightarrow> tc_bundle" where
  "prepared new b =
     (let cur = (active_slot b)\<lparr>slot_pad := 0\<rparr> in
      if and (bundle_active b) 1 = 0 then mk_bundle 0 cur new else mk_bundle 1 new cur)"

definition committed :: "tc_bundle_slot \<Rightarrow> tc_bundle \<Rightarrow> tc_bundle" where
  "committed new b =
     (let cur = (active_slot b)\<lparr>slot_pad := 0\<rparr> in
      if and (bundle_active b) 1 = 0 then mk_bundle 1 cur new else mk_bundle 0 new cur)"

definition bundle_bit :: "tc_bundle \<Rightarrow> nat" where
  "bundle_bit b = (if and (bundle_active b) 1 = 0 then 0 else 1)"

text \<open>Tables that differ only in the bundle of one PDR.\<close>

definition same_but_bundle :: "u32 \<Rightarrow> rule_tables \<Rightarrow> rule_tables \<Rightarrow> bool" where
  "same_but_bundle pdr T T' \<longleftrightarrow>
     T' = T\<lparr>tc_bundle_map := (tc_bundle_map T)(pdr := tc_bundle_map T' pdr)\<rparr>"

lemma decision_prepared: "decision (active_slot (prepared new b)) = decision (active_slot b)"
  by (simp add: prepared_def active_slot_def mk_bundle_def decision_def Let_def)

lemma active_committed: "active_slot (committed new b) = new"
  by (simp add: committed_def active_slot_def mk_bundle_def Let_def)

lemma same_but_bundle_refl: "same_but_bundle p T T"
  by (cases T) (simp add: same_but_bundle_def)

lemma same_but_bundle_upd: "same_but_bundle p T (T\<lparr>tc_bundle_map := (tc_bundle_map T)(p := x)\<rparr>)"
  by (simp add: same_but_bundle_def)

subsection \<open>Unpacking a stored bundle\<close>

lemma rd32_drop: "rd32 (drop n b) i = rd32 b (n + i)"
  by (simp add: rd32_def slice_def add.commute)

lemma uint_rd32: "uint (rd32 b n) = le_int (take 4 (drop n b))"
proof -
  have "(256 :: int) ^ length (take 4 (drop n b)) \<le> 256 ^ 4"
    by (rule power_increasing) simp_all
  with le_int_bound [of "take 4 (drop n b)"] have "le_int (take 4 (drop n b)) < 256 ^ 4"
    by linarith
  then show ?thesis by (simp add: rd32_def slice_def uint_word_of_int)
qed

lemma struct_fields_I:
  "struct_fields Little (FmtI # fs) (drop n b) = uint (rd32 b n) # struct_fields Little fs (drop (n + 4) b)"
proof -
  have "uint (rd32 b n) < 256 ^ 4" using uint_lt2p [of "rd32 b n"] by simp
  then show ?thesis
    by (simp add: fmt_read_def bytes_int_def uint_rd32 add.commute)
qed

lemma unpack_header: "length raw = 56 \<Longrightarrow>
    struct_unpack_from Little [FmtI, FmtI] raw 0 = Inr [uint (rd32 raw 0), uint (rd32 raw 4)]"
  using struct_fields_I [of "[FmtI]" 0 raw] struct_fields_I [of "[]" 4 raw]
  by (simp add: struct_unpack_from_def calcsize_def)

lemma unpack_slot: "length raw = 56 \<Longrightarrow> n \<le> 32 \<Longrightarrow>
    struct_unpack_from Little [FmtI, FmtI, FmtI, FmtI, FmtI, FmtI] raw n =
      Inr [uint (rd32 raw n), uint (rd32 raw (n + 4)), uint (rd32 raw (n + 8)),
           uint (rd32 raw (n + 12)), uint (rd32 raw (n + 16)), uint (rd32 raw (n + 20))]"
  by (simp add: struct_unpack_from_def calcsize_def struct_fields_I ac_simps
      del: struct_fields.simps(2))

lemma active_int:
  "and (uint (rd32 raw 0)) 1 = (if and (bundle_active (ld_bundle raw)) 1 = 0 then 0 else 1)"
proof -
  have "uint (and (rd32 raw 0) 1) = and (uint (rd32 raw 0)) 1" by (simp add: uint_and)
  moreover have "and (uint (rd32 raw 0)) 1 = 0 \<or> and (uint (rd32 raw 0)) 1 = 1"
    by (auto simp: and_one_eq)
  moreover have "and (rd32 raw 0) 1 = 0 \<longleftrightarrow> uint (and (rd32 raw 0) 1) = 0"
    by (rule uint_0_iff [symmetric])
  ultimately show ?thesis by (auto simp: ld_bundle_def)
qed

lemma active_slot_fields:
  assumes "a = (if and (bundle_active (ld_bundle raw)) 1 = 0 then 0 else 1)"
  shows "active_slot (ld_bundle raw) = ld_slot (drop (8 + a * 24) raw)"
  using assms by (simp add: active_slot_def ld_bundle_def)

text \<open>The bytes of the two slots and of the two bundle values the operation writes.\<close>

lemma slot_bytes:
  assumes "modify_fits far qer urr prec s"
  obtains cs ns where
    "enc_bundle_slot (uint (slot_far_id s)) (uint (slot_qer_id s)) (uint (slot_urr_id s))
       (uint (slot_precedence s)) (uint (slot_generation s)) = Inr cs"
    "enc_bundle_slot (or_else far (uint (slot_far_id s))) (or_else qer (uint (slot_qer_id s)))
       (or_else urr (uint (slot_urr_id s))) (or_else prec (uint (slot_precedence s)))
       (uint (slot_generation s) + 1) = Inr ns"
    "length cs = 24" "length ns = 24" "ld_slot cs = s\<lparr>slot_pad := 0\<rparr>"
    "ld_slot ns = modified_slot far qer urr prec s"
proof -
  obtain cs where cs: "enc_bundle_slot (uint (slot_far_id s)) (uint (slot_qer_id s))
      (uint (slot_urr_id s)) (uint (slot_precedence s)) (uint (slot_generation s)) = Inr cs"
    by (simp add: enc_bundle_slot_eq del: le_bytes.simps)
  obtain ns where ns: "enc_bundle_slot (or_else far (uint (slot_far_id s)))
      (or_else qer (uint (slot_qer_id s))) (or_else urr (uint (slot_urr_id s)))
      (or_else prec (uint (slot_precedence s))) (uint (slot_generation s) + 1) = Inr ns"
    using assms by (simp add: enc_bundle_slot_eq modify_fits_def del: le_bytes.simps)
  show thesis
    by (rule that [OF cs ns])
      (use ld_enc_slot [OF cs, of "[]"] ld_enc_slot [OF ns, of "[]"] in
        \<open>simp_all add: modified_slot_def mk_slot_def\<close>)
qed

lemma bundle_bytes:
  assumes "length cs = 24" "length ns = 24" "ld_slot cs = (active_slot b)\<lparr>slot_pad := 0\<rparr>" "ld_slot ns = new"
  defines "ss \<equiv> [[], []][bundle_bit b := cs, 1 - bundle_bit b := ns]"
  obtains v1 v2 where
    "enc_bundle (int (bundle_bit b)) (ss ! 0) (ss ! 1) = Inr v1"
    "enc_bundle (1 - int (bundle_bit b)) (ss ! 0) (ss ! 1) = Inr v2"
    "length v1 = 56" "length v2 = 56" "ld_bundle v1 = prepared new b" "ld_bundle v2 = committed new b"
proof -
  have bit: "bundle_bit b = 0 \<or> bundle_bit b = 1" by (simp add: bundle_bit_def)
  have ss: "ss ! 0 = (if bundle_bit b = 0 then cs else ns)" "ss ! 1 = (if bundle_bit b = 0 then ns else cs)"
    using bit by (auto simp: ss_def)
  obtain v1 where v1: "enc_bundle (int (bundle_bit b)) (ss ! 0) (ss ! 1) = Inr v1"
    using bit by (auto simp: enc_bundle_eq simp del: le_bytes.simps)
  obtain v2 where v2: "enc_bundle (1 - int (bundle_bit b)) (ss ! 0) (ss ! 1) = Inr v2"
    using bit by (auto simp: enc_bundle_eq simp del: le_bytes.simps)
  have lens: "length (ss ! 0) = 24" "length (ss ! 1) = 24" using ss assms by auto
  show thesis
    by (rule that [OF v1 v2])
      (use ld_enc_bundle [OF v1 lens] ld_enc_bundle [OF v2 lens] assms(1-4) ss in
        \<open>auto simp: prepared_def committed_def mk_bundle_def bundle_bit_def Let_def split: if_splits\<close>)
qed

lemma unpack_active:
  assumes len: "length raw = 56"
  shows "and (uint (rd32 raw 0)) 1 = int (bundle_bit (ld_bundle raw))"
    and "struct_unpack_from Little [FmtI, FmtI, FmtI, FmtI, FmtI, FmtI] raw
        (nat (8 + int (bundle_bit (ld_bundle raw)) * 24)) =
      (let s = active_slot (ld_bundle raw) in
       Inr [uint (slot_far_id s), uint (slot_qer_id s), uint (slot_urr_id s),
         uint (slot_precedence s), uint (slot_generation s), uint (slot_pad s)])"
proof -
  let ?a = "bundle_bit (ld_bundle raw)"
  show "and (uint (rd32 raw 0)) 1 = int ?a" unfolding active_int bundle_bit_def by simp
  have off: "nat (8 + int ?a * 24) = 8 + ?a * 24" "8 + ?a * 24 \<le> 32" by (auto simp: bundle_bit_def)
  have sl: "active_slot (ld_bundle raw) = ld_slot (drop (8 + ?a * 24) raw)"
    by (rule active_slot_fields) (simp add: bundle_bit_def)
  show "struct_unpack_from Little [FmtI, FmtI, FmtI, FmtI, FmtI, FmtI] raw (nat (8 + int ?a * 24)) =
      (let s = active_slot (ld_bundle raw) in
       Inr [uint (slot_far_id s), uint (slot_qer_id s), uint (slot_urr_id s),
         uint (slot_precedence s), uint (slot_generation s), uint (slot_pad s)])"
    unfolding off(1) unpack_slot [OF len off(2)] sl by (simp add: ld_slot_def rd32_drop ac_simps)
qed

context bpf_kernel
begin

lemma modify_steps:
  fixes far qer urr prec :: "int option"
  assumes ok: "agent_ok w" and p: "in_u32 p"
    and b: "tc_bundle_map (tabs view w) (word_of_int p) = Some b"
    and fits: "modify_fits far qer urr prec (active_slot b)"
  defines "new \<equiv> modified_slot far qer urr prec (active_slot b)"
  obtains raw w1 v1 w2 v2 w3 where
    "pmc_lookup sys ''tc_bundle_map'' (key32 (word_of_int p)) 56 w = (Inr raw, w1)"
    "map_update sys ''tc_bundle_map'' (key32 (word_of_int p)) v1 w1 = (Inr (), w2)"
    "map_update sys ''tc_bundle_map'' (key32 (word_of_int p)) v2 w2 = (Inr (), w3)"
    "modify_tc_bundle sys p far qer urr prec w = (Inr (uint (slot_generation (active_slot b)) + 1), w3)"
    "agent_ok w1" "agent_ok w2" "agent_ok w3" "rules view w1 = rules view w"
    "tabs view w2 = (tabs view w)\<lparr>tc_bundle_map :=
       (tc_bundle_map (tabs view w))(word_of_int p \<mapsto> prepared new b)\<rparr>"
    "tabs view w3 = (tabs view w)\<lparr>tc_bundle_map :=
       (tc_bundle_map (tabs view w))(word_of_int p \<mapsto> committed new b)\<rparr>"
proof -
  let ?k = "word_of_int p :: u32"
  obtain raw where raw: "rules view w ''tc_bundle_map'' (key32 ?k) = Some raw" and bd: "b = ld_bundle raw"
    using b by (auto simp: tabs_def tables_of_def)
  have len: "length raw = 56" using rules_key_length [OF ok upf_defs_simps(5) raw] by simp
  obtain w1 where l: "pmc_lookup sys ''tc_bundle_map'' (key32 ?k) 56 w = (Inr raw, w1)"
    and ok1: "agent_ok w1" and r1: "rules view w1 = rules view w"
    by (rule pmc_lookup_spec [OF ok upf_defs_simps(5), of "key32 ?k" 56]) (auto simp: raw)
  obtain cs ns where slots: "enc_bundle_slot (uint (slot_far_id (active_slot b)))
        (uint (slot_qer_id (active_slot b))) (uint (slot_urr_id (active_slot b)))
        (uint (slot_precedence (active_slot b))) (uint (slot_generation (active_slot b))) = Inr cs"
      "enc_bundle_slot (or_else far (uint (slot_far_id (active_slot b))))
        (or_else qer (uint (slot_qer_id (active_slot b)))) (or_else urr (uint (slot_urr_id (active_slot b))))
        (or_else prec (uint (slot_precedence (active_slot b))))
        (uint (slot_generation (active_slot b)) + 1) = Inr ns"
    and ld: "length cs = 24" "length ns = 24" "ld_slot cs = (active_slot b)\<lparr>slot_pad := 0\<rparr>" "ld_slot ns = new"
    unfolding new_def by (rule slot_bytes [OF fits])
  let ?ss = "[[], []][bundle_bit b := cs, 1 - bundle_bit b := ns]"
  obtain v1 v2 where vs: "enc_bundle (int (bundle_bit b)) (?ss ! 0) (?ss ! 1) = Inr v1"
      "enc_bundle (1 - int (bundle_bit b)) (?ss ! 0) (?ss ! 1) = Inr v2"
    and L: "length v1 = 56" "length v2 = 56" "ld_bundle v1 = prepared new b" "ld_bundle v2 = committed new b"
    by (rule bundle_bytes [OF ld])
  have t1: "tabs view w1 = tabs view w" using r1 by (simp add: tabs_def)
  obtain w2 where u1: "map_update sys ''tc_bundle_map'' (key32 ?k) v1 w1 = (Inr (), w2)"
    and ok2: "agent_ok w2" and t2: "tabs view w2 = (tabs view w)\<lparr>tc_bundle_map :=
       (tc_bundle_map (tabs view w))(?k \<mapsto> prepared new b)\<rparr>"
    by (rule update_bundle [OF ok1 L(1), of ?k]) (use L t1 b in \<open>auto simp: hash_room_def\<close>)
  obtain w3 where u2: "map_update sys ''tc_bundle_map'' (key32 ?k) v2 w2 = (Inr (), w3)"
    and ok3: "agent_ok w3" and t3: "tabs view w3 = (tabs view w)\<lparr>tc_bundle_map :=
       (tc_bundle_map (tabs view w))(?k \<mapsto> committed new b)\<rparr>"
    by (rule update_bundle [OF ok2 L(2), of ?k]) (use L t2 b in \<open>auto simp: hash_room_def\<close>)
  have bits: "bundle_bit b = 0 \<or> bundle_bit b = 1" by (simp add: bundle_bit_def)
  have "modify_tc_bundle sys p far qer urr prec w = (Inr (uint (slot_generation (active_slot b)) + 1), w3)"
    using bits p l u1 u2 vs slots unpack_active [OF len, folded bd]
    by (auto simp: modify_tc_bundle_def enc_u32_eq py_bind_def py_lift_def py_return_def
        unpack_header [OF len] Let_def)
  with that [OF l u1 u2 _ ok1 ok2 ok3 r1 t2 t3] show thesis by blast
qed

text \<open>The states a reader can observe while the operation runs under the recording kernel.\<close>

lemma modify_observed:
  assumes ok: "tr_ok w" and p: "in_u32 p"
    and b: "tc_bundle_map (tr_tabs w) (word_of_int p) = Some b"
    and fits: "modify_fits far qer urr prec (active_slot b)"
  defines "new \<equiv> modified_slot far qer urr prec (active_slot b)"
  obtains w' pre where
    "modify_tc_bundle (traced sys) p far qer urr prec w =
       (Inr (uint (slot_generation (active_slot b)) + 1), w')"
    "tr_ok w'"
    "tr_tabs w' = (tr_tabs w)\<lparr>tc_bundle_map := (tc_bundle_map (tr_tabs w))(word_of_int p \<mapsto> committed new b)\<rparr>"
    "observed view w' = observed view w @ pre @ [rules (view \<circ> fst) w']"
    "\<forall>A \<in> set pre. same_but_bundle (word_of_int p) (tr_tabs w) (tables_of A) \<and>
       packet_decision (tables_of A) (word_of_int p) = Some (decision (active_slot b))"
proof -
  obtain raw w1 v1 w2 v2 w3 where
    l: "pmc_lookup (traced sys) ''tc_bundle_map'' (key32 (word_of_int p)) 56 w = (Inr raw, w1)"
    and u1: "map_update (traced sys) ''tc_bundle_map'' (key32 (word_of_int p)) v1 w1 = (Inr (), w2)"
    and u2: "map_update (traced sys) ''tc_bundle_map'' (key32 (word_of_int p)) v2 w2 = (Inr (), w3)"
    and run: "modify_tc_bundle (traced sys) p far qer urr prec w =
      (Inr (uint (slot_generation (active_slot b)) + 1), w3)"
    and oks: "tr_ok w1" "tr_ok w2" "tr_ok w3" and r1: "rules (view \<circ> fst) w1 = rules (view \<circ> fst) w"
    and t2: "tr_tabs w2 = (tr_tabs w)\<lparr>tc_bundle_map :=
      (tc_bundle_map (tr_tabs w))(word_of_int p \<mapsto> prepared new b)\<rparr>"
    and t3: "tr_tabs w3 = (tr_tabs w)\<lparr>tc_bundle_map :=
      (tc_bundle_map (tr_tabs w))(word_of_int p \<mapsto> committed new b)\<rparr>"
    unfolding new_def by (rule bpf_kernel.modify_steps [OF traced_kernel ok p b fits])
  let ?G = "\<lambda>A. same_but_bundle (word_of_int p) (tr_tabs w) (tables_of A) \<and>
      packet_decision (tables_of A) (word_of_int p) = Some (decision (active_slot b))"
  have g: "?G (rules (view \<circ> fst) w)" "?G (rules (view \<circ> fst) w2)"
    using b t2 unfolding tabs_def
    by (simp_all add: same_but_bundle_refl same_but_bundle_upd packet_decision_def decision_prepared)
  obtain p1 p2 p3 where obs:
    "observed view w1 = observed view w @ p1 @ [rules (view \<circ> fst) w1]" "set p1 \<subseteq> {rules (view \<circ> fst) w}"
    "observed view w2 = observed view w1 @ p2 @ [rules (view \<circ> fst) w2]" "set p2 \<subseteq> {rules (view \<circ> fst) w1}"
    "observed view w3 = observed view w2 @ p3 @ [rules (view \<circ> fst) w3]" "set p3 \<subseteq> {rules (view \<circ> fst) w2}"
    using pmc_commit(2) [OF ok upf_defs_simps(5) l] map_commit(1) [OF oks(1) upf_defs_simps(5) u1]
      map_commit(1) [OF oks(2) upf_defs_simps(5) u2]
    by (auto simp: one_commit_def)
  let ?pre = "p1 @ [rules (view \<circ> fst) w1] @ p2 @ [rules (view \<circ> fst) w2] @ p3"
  have "\<forall>A \<in> set ?pre. ?G A" using g obs(2,4,6) unfolding r1 by auto
  moreover have "observed view w3 = observed view w @ ?pre @ [rules (view \<circ> fst) w3]" using obs by simp
  ultimately show thesis using that [OF run oks(3) t3] by blast
qed

text \<open>Error paths: the maps are untouched.\<close>

lemma modify_missing:
  assumes ok: "agent_ok w" and p: "in_u32 p" and b: "tc_bundle_map (tabs view w) (word_of_int p) = None"
  obtains w' where "modify_tc_bundle sys p far qer urr prec w = (Inl (OSError ENOENT), w')"
    "agent_ok w'" "rules view w' = rules view w"
proof (rule pmc_lookup_spec [OF ok upf_defs_simps(5), of "key32 (word_of_int p)" 56])
  fix w' assume "pmc_lookup sys ''tc_bundle_map'' (key32 (word_of_int p)) 56 w =
      (case rules view w ''tc_bundle_map'' (key32 (word_of_int p)) of
         None \<Rightarrow> Inl (OSError ENOENT) | Some v \<Rightarrow> Inr v, w')"
  then have "modify_tc_bundle sys p far qer urr prec w = (Inl (OSError ENOENT), w')"
    using p b by (simp add: modify_tc_bundle_def enc_u32_eq py_bind_def py_lift_def tabs_def tables_of_def)
  then show "agent_ok w' \<Longrightarrow> rules view w' = rules view w \<Longrightarrow> thesis" by (rule that)
qed simp_all

lemma modify_unfit:
  assumes ok: "agent_ok w" and p: "in_u32 p" and b: "tc_bundle_map (tabs view w) (word_of_int p) = Some b"
    and nofit: "\<not> modify_fits far qer urr prec (active_slot b)"
  obtains raw w' where "modify_tc_bundle sys p far qer urr prec w = (Inl StructError, w')"
    "pmc_lookup sys ''tc_bundle_map'' (key32 (word_of_int p)) 56 w = (Inr raw, w')"
    "agent_ok w'" "rules view w' = rules view w"
proof -
  obtain raw where raw: "rules view w ''tc_bundle_map'' (key32 (word_of_int p)) = Some raw"
    and bd: "b = ld_bundle raw"
    using b by (auto simp: tabs_def tables_of_def)
  have len: "length raw = 56" using rules_key_length [OF ok upf_defs_simps(5) raw] by simp
  obtain w1 where l: "pmc_lookup sys ''tc_bundle_map'' (key32 (word_of_int p)) 56 w = (Inr raw, w1)"
    and ok1: "agent_ok w1" and r1: "rules view w1 = rules view w"
    by (rule pmc_lookup_spec [OF ok upf_defs_simps(5), of "key32 (word_of_int p)" 56]) (auto simp: raw)
  have "modify_tc_bundle sys p far qer urr prec w = (Inl StructError, w1)"
    using p l nofit unpack_active [OF len, folded bd]
    by (auto simp: modify_tc_bundle_def enc_u32_eq py_bind_def py_lift_def modify_fits_def
        unpack_header [OF len] Let_def enc_bundle_slot_eq simp del: le_bytes.simps)
  then show thesis using that l ok1 r1 by blast
qed

end

end
