(* ===== verification/Agent_Theorems.thy ===== *)
theory Agent_Theorems
  imports Agent_Modify
begin

text \<open>
  The properties of the agent's rule operations, over every kernel that satisfies the
  contract \<open>bpf_kernel\<close>, and their instances on the reference kernel: \<open>agent_start\<close> is the
  agent after \<^verbatim>\<open>_maps = PinnedMapCache(PIN_BASE)\<close>, \<open>upf_pinned\<close> the maps that the loader has
  pinned below \<open>PIN_BASE\<close>.
\<close>

definition agent_start :: "'k \<Rightarrow> 'k world" where
  "agent_start k = \<lparr>cache = pmc_init PIN_BASE, kern = k\<rparr>"

definition upf_pinned :: "string \<Rightarrow> map_def option" where
  "upf_pinned p =
     (if take (length PIN_BASE + 1) p = PIN_BASE @ ''/'' then upf_defs (drop (length PIN_BASE + 1) p)
      else None)"

text \<open>The agent on the reference kernel, and after one \<^verbatim>\<open>install_session\<close> of TEID 0x1000.\<close>

abbreviation "upf_sys \<equiv> ref_sys upf_pinned"
abbreviation "upf_view \<equiv> rk_view upf_pinned"

definition start_world :: "ref_kernel world" where
  "start_world = agent_start rk_init"

definition start_traced :: "(ref_kernel \<times> ref_kernel list) world" where
  "start_traced = agent_start (rk_init, [])"

definition one_session :: "ref_kernel world" where
  "one_session = snd (install_session upf_sys 4096 8192 1 1 100 1 start_world)"

definition one_traced :: "(ref_kernel \<times> ref_kernel list) world" where
  "one_traced = snd (install_session (traced upf_sys) 4096 8192 1 1 100 1 start_traced)"

lemma dom_upf_defs: "finite (dom upf_defs)" "card (dom upf_defs) = 7"
  by (simp_all add: upf_defs_def upf_map_defs_def finite_dom_map_of dom_map_of_conv_image_fst)

lemma agent_start_ok:
  assumes "\<And>n d. upf_defs n = Some d \<Longrightarrow> pinned (PIN_BASE @ ''/'' @ n) = Some d" "7 \<le> fd_avail k"
  shows "world_ok pinned fd_path fd_avail upf_defs (agent_start k)"
  using assms dom_upf_defs
  by (simp add: world_ok_def cache_ok_def fds_ready_def agent_start_def pmc_init_def pin_path_def)

lemma upf_pinned_defs [simp]: "upf_pinned (PIN_BASE @ CHR ''/'' # n) = upf_defs n"
  by (simp add: upf_pinned_def)

lemma rk_init_simps [simp]: "rk_maps rk_init p = []" "rk_fds rk_init = []"
  by (simp_all add: rk_init_def)

lemma start_world_ok: "world_ok upf_pinned rk_fd_path rk_fd_avail upf_defs start_world"
  unfolding start_world_def
  by (rule agent_start_ok) (simp_all add: rk_fd_avail_def)

lemma start_traced_ok:
  "world_ok upf_pinned (rk_fd_path \<circ> fst) (rk_fd_avail \<circ> fst) upf_defs start_traced"
  unfolding start_traced_def
  by (rule agent_start_ok) (simp_all add: rk_fd_avail_def)

lemma start_rules: "rules upf_view start_world n =
    (case upf_defs n of None \<Rightarrow> Map.empty | Some d \<Rightarrow> rk_lookup d [])"
  by (simp add: rules_def rk_view_def start_world_def agent_start_def pmc_init_def
      pin_path_def cong: option.case_cong)

lemma start_traced_tabs: "tabs (upf_view \<circ> fst) start_traced = tabs upf_view start_world"
  by (simp add: tabs_def tables_of_def rules_def start_traced_def start_world_def agent_start_def
      pin_path_def)

lemma start_tabs:
  "teid_session (tabs upf_view start_world) = Map.empty"
  "pdr_table (tabs upf_view start_world) = Map.empty"
  "tc_bundle_map (tabs upf_view start_world) = Map.empty"
  by (simp_all add: tabs_def tables_of_def start_rules rk_lookup_def rk_entries_def)

lemma one_session_facts:
  "world_ok upf_pinned rk_fd_path rk_fd_avail upf_defs one_session"
  "spec_install_session 4096 8192 1 1 100 1 (tabs upf_view start_world) (tabs upf_view one_session)"
proof -
  obtain w where "install_session upf_sys 4096 8192 1 1 100 1 start_world = (Inr (), w)"
    "world_ok upf_pinned rk_fd_path rk_fd_avail upf_defs w"
    "spec_install_session 4096 8192 1 1 100 1 (tabs upf_view start_world) (tabs upf_view w)"
    by (rule rk.install_session_spec [OF start_world_ok, of 4096 8192 1 1 100 1])
      (simp_all add: in_u32_def hash_room_def start_tabs)
  then show "world_ok upf_pinned rk_fd_path rk_fd_avail upf_defs one_session"
    "spec_install_session 4096 8192 1 1 100 1 (tabs upf_view start_world) (tabs upf_view one_session)"
    by (simp_all add: one_session_def)
qed

lemma one_traced_facts:
  "world_ok upf_pinned (rk_fd_path \<circ> fst) (rk_fd_avail \<circ> fst) upf_defs one_traced"
  "spec_install_session 4096 8192 1 1 100 1 (tabs upf_view start_world) (tabs (upf_view \<circ> fst) one_traced)"
proof -
  obtain w where "install_session (traced upf_sys) 4096 8192 1 1 100 1 start_traced = (Inr (), w)"
    "world_ok upf_pinned (rk_fd_path \<circ> fst) (rk_fd_avail \<circ> fst) upf_defs w"
    "spec_install_session 4096 8192 1 1 100 1 (tabs (upf_view \<circ> fst) start_traced)
       (tabs (upf_view \<circ> fst) w)"
    by (rule bpf_kernel.install_session_spec [OF rk.traced_kernel start_traced_ok, of 4096 8192 1 1 100 1])
      (simp_all add: in_u32_def hash_room_def start_tabs start_traced_tabs)
  then show "world_ok upf_pinned (rk_fd_path \<circ> fst) (rk_fd_avail \<circ> fst) upf_defs one_traced"
    "spec_install_session 4096 8192 1 1 100 1 (tabs upf_view start_world)
      (tabs (upf_view \<circ> fst) one_traced)"
    by (simp_all add: one_traced_def start_traced_tabs)
qed

lemma spec_install_tables:
  assumes "spec_install_session t p q f pr u T T'"
  shows "pdr_table T' = (pdr_table T)(word_of_int p \<mapsto> mk_pdr f q pr u)"
    and "tc_bundle_map T' =
      (tc_bundle_map T)(word_of_int p \<mapsto> mk_bundle 0 (mk_slot f q u pr 0) (mk_slot f q u pr 0))"
    and "far_table T' = far_table T" "qer_table T' = qer_table T" "dl_ue_map T' = dl_ue_map T"
    and "upf_config_map T' = upf_config_map T"
    and "teid_session T' (word_of_int t) = Some (mk_session p q f)"
    and "x \<noteq> word_of_int t \<Longrightarrow> teid_session T' x = teid_session T x \<or> teid_session T' x = None"
proof -
  have T': "T' = T\<lparr>pdr_table := (pdr_table T)(word_of_int p \<mapsto> mk_pdr f q pr u),
      tc_bundle_map := (tc_bundle_map T)
        (word_of_int p \<mapsto> mk_bundle 0 (mk_slot f q u pr 0) (mk_slot f q u pr 0)),
      teid_session := teid_session T'\<rparr>" and
    rest: "teid_session T' (word_of_int t) = Some (mk_session p q f)"
    "\<forall>x. x \<noteq> word_of_int t \<longrightarrow> teid_session T' x = teid_session T x \<or> teid_session T' x = None"
    using assms by (simp_all add: spec_install_session_def Let_def)
  show "pdr_table T' = (pdr_table T)(word_of_int p \<mapsto> mk_pdr f q pr u)"
    "tc_bundle_map T' =
      (tc_bundle_map T)(word_of_int p \<mapsto> mk_bundle 0 (mk_slot f q u pr 0) (mk_slot f q u pr 0))"
    "far_table T' = far_table T" "qer_table T' = qer_table T" "dl_ue_map T' = dl_ue_map T"
    "upf_config_map T' = upf_config_map T"
    using arg_cong [OF T', of pdr_table] arg_cong [OF T', of tc_bundle_map]
      arg_cong [OF T', of far_table] arg_cong [OF T', of qer_table] arg_cong [OF T', of dl_ue_map]
      arg_cong [OF T', of upf_config_map] by simp_all
  show "teid_session T' (word_of_int t) = Some (mk_session p q f)"
    "x \<noteq> word_of_int t \<Longrightarrow> teid_session T' x = teid_session T x \<or> teid_session T' x = None"
    using rest by simp_all
qed

lemmas one_traced_tables = spec_install_tables [OF one_traced_facts(2)]
lemmas one_session_tables = spec_install_tables [OF one_session_facts(2)]

subsection \<open>The descriptor cache\<close>

text \<open>
  C37. \<^verbatim>\<open>PinnedMapCache\<close> behaves as a map: \<^verbatim>\<open>update\<close> succeeds exactly when the map has room
  (otherwise it raises \<^verbatim>\<open>OSError(E2BIG)\<close> and changes nothing), a \<^verbatim>\<open>lookup\<close> after it returns the
  value written, and after a \<^verbatim>\<open>delete\<close> a lookup raises \<^verbatim>\<open>OSError(ENOENT)\<close>, whether or not the
  descriptor was cached before.
\<close>

theorem pinned_map_cache_laws:
  assumes "bpf_kernel sys pinned view fd_path fd_avail"
    and "world_ok pinned fd_path fd_avail defs w" and "defs n = Some d" and "map_type d \<noteq> ArrayMap"
    and "length key = key_size d" and "length val = value_size d"
  shows "\<exists>w1 w2 w3 w4.
    (if has_room d (rules view w n) key
     then pmc_update sys n key val BPF_ANY w = (Inr (), w1) \<and>
       pmc_lookup sys n key (value_size d) w1 = (Inr val, w2) \<and>
       pmc_delete sys n key w2 = (Inr (), w3) \<and>
       pmc_lookup sys n key (value_size d) w3 = (Inl (OSError ENOENT), w4)
     else pmc_update sys n key val BPF_ANY w = (Inl (OSError E2BIG), w1) \<and> rules view w1 = rules view w)"
proof -
  note K = assms(1)
  obtain w1 where w1: "pmc_update sys n key val BPF_ANY w =
       ((if has_room d (rules view w n) key then Inr () else Inl (OSError E2BIG)), w1)"
    "world_ok pinned fd_path fd_avail defs w1"
    "if has_room d (rules view w n) key then stored d n key val (rules view w) (rules view w1)
     else rules view w1 = rules view w"
    by (rule bpf_kernel.pmc_update_spec [OF K assms(2,3,5,6)])
  obtain w2 where w2: "pmc_lookup sys n key (value_size d) w1 =
       ((case rules view w1 n key of Some v \<Rightarrow> Inr v | None \<Rightarrow> Inl (OSError ENOENT)), w2)"
    "world_ok pinned fd_path fd_avail defs w2" "rules view w2 = rules view w1"
    by (rule bpf_kernel.pmc_lookup_spec [OF K w1(2) assms(3,5) refl])
  obtain w3 where w3: "pmc_delete sys n key w2 =
       ((if rules view w2 n key = None then Inl (OSError ENOENT) else Inr ()), w3)"
    "world_ok pinned fd_path fd_avail defs w3"
    "rules view w3 = (rules view w2)(n := (rules view w2 n)(key := None))"
    by (rule bpf_kernel.pmc_delete_spec [OF K w2(2) assms(3,5,4)])
  obtain w4 where w4: "pmc_lookup sys n key (value_size d) w3 =
       ((case rules view w3 n key of Some v \<Rightarrow> Inr v | None \<Rightarrow> Inl (OSError ENOENT)), w4)"
    by (rule bpf_kernel.pmc_lookup_spec [OF K w3(2) assms(3,5) refl])
  show ?thesis
    by (rule exI [of _ w1], rule exI [of _ w2], rule exI [of _ w3], rule exI [of _ w4])
      (use w1 w2 w3 w4 in \<open>auto simp: stored_def\<close>)
qed

theorem pinned_map_cache_laws_witness:
  "\<exists>w1 w2. pmc_update upf_sys ''pdr_table'' [1, 0, 0, 0] (replicate 16 7) BPF_ANY start_world = (Inr (), w1) \<and>
     pmc_lookup upf_sys ''pdr_table'' [1, 0, 0, 0] 16 w1 = (Inr (replicate 16 7), w2)"
proof -
  let ?d = "\<lparr>map_type = HashMap, key_size = 4, value_size = 16, max_entries = 4096\<rparr>"
  have "has_room ?d (rules upf_view start_world ''pdr_table'') [1, 0, 0, 0]"
    by (simp add: has_room_def start_rules rk_lookup_def rk_entries_def dom_def)
  then show ?thesis
    using pinned_map_cache_laws [OF rk.bpf_kernel_axioms start_world_ok upf_defs_simps(2),
        of "[1, 0, 0, 0]" "replicate 16 7"]
    by auto
qed

subsection \<open>Modifying a rule is atomic\<close>

text \<open>
  C2. \<^verbatim>\<open>modify_tc_bundle\<close> commits a rule change atomically. Whatever state a packet observes
  between two system calls of the operation, the decision for the modified PDR is the complete
  old tuple (FAR, QER, URR, precedence, generation), and no other rule differs from before; only
  the last state shows the complete new tuple, with the generation advanced by one, which is
  also the returned value. This is the guarantee of the double-buffer protocol, for every kernel
  satisfying the contract.
\<close>

theorem modify_tc_bundle_atomic:
  assumes "bpf_kernel sys pinned view fd_path fd_avail"
    and "world_ok pinned (fd_path \<circ> fst) (fd_avail \<circ> fst) upf_defs w" and "in_u32 p"
    and "tc_bundle_map (tabs (view \<circ> fst) w) (word_of_int p) = Some b"
    and "modify_fits far qer urr prec (active_slot b)"
  shows "\<exists>w' olds.
      modify_tc_bundle (traced sys) p far qer urr prec w =
        (Inr (uint (slot_generation (active_slot b)) + 1), w') \<and>
      observed view w' = observed view w @ olds @ [rules (view \<circ> fst) w'] \<and>
      (\<forall>A \<in> set olds. same_but_bundle (word_of_int p) (tabs (view \<circ> fst) w) (tables_of A) \<and>
         packet_decision (tables_of A) (word_of_int p) = Some (decision (active_slot b))) \<and>
      same_but_bundle (word_of_int p) (tabs (view \<circ> fst) w) (tabs (view \<circ> fst) w') \<and>
      packet_decision (tabs (view \<circ> fst) w') (word_of_int p) =
        Some (decision (modified_slot far qer urr prec (active_slot b)))"
  by (rule bpf_kernel.modify_observed [OF assms], intro exI conjI, assumption+)
    (auto simp: same_but_bundle_upd packet_decision_def active_committed)

theorem modify_tc_bundle_atomic_witness:
  "\<exists>w' olds. modify_tc_bundle (traced upf_sys) 8192 (Some 3) (Some 3) None None one_traced = (Inr 1, w') \<and>
     (\<forall>A \<in> set olds. packet_decision (tables_of A) 8192 = Some (1, 1, 1, 100, 0)) \<and>
     observed upf_view w' = observed upf_view one_traced @ olds @ [rules (upf_view \<circ> fst) w'] \<and>
     packet_decision (tabs (upf_view \<circ> fst) w') 8192 = Some (3, 3, 1, 100, 1)"
proof -
  let ?b = "mk_bundle 0 (mk_slot 1 1 1 100 0) (mk_slot 1 1 1 100 0)"
  have b: "tc_bundle_map (tabs (upf_view \<circ> fst) one_traced) (word_of_int 8192) = Some ?b"
    by (simp add: one_traced_tables)
  have fits: "modify_fits (Some 3) (Some 3) None None (active_slot ?b)"
    by (simp add: modify_fits_def active_slot_def mk_bundle_def mk_slot_def or_else_def in_u32_def)
  show ?thesis
    using modify_tc_bundle_atomic [OF rk.bpf_kernel_axioms one_traced_facts(1) _ b fits]
    by (auto simp: in_u32_def active_slot_def mk_bundle_def mk_slot_def decision_def modified_slot_def
        or_else_def)
qed

text \<open>
  C9. Every outcome of \<^verbatim>\<open>modify_tc_bundle\<close>: an unknown PDR raises \<^verbatim>\<open>OSError(ENOENT)\<close>; fields that
  do not fit 32 bits, in particular the generation after 2^32 - 1, raise \<^verbatim>\<open>struct.error\<close>, and in
  both cases no map changes; otherwise the bundle of the PDR becomes the committed one (the
  other slot active, holding the new tuple) and the new generation is returned.
\<close>

theorem modify_tc_bundle_outcomes:
  assumes "bpf_kernel sys pinned view fd_path fd_avail"
    and "world_ok pinned fd_path fd_avail upf_defs w" and "in_u32 p"
  shows "\<exists>w'. world_ok pinned fd_path fd_avail upf_defs w' \<and>
    (case tc_bundle_map (tabs view w) (word_of_int p) of
       None \<Rightarrow> modify_tc_bundle sys p far qer urr prec w = (Inl (OSError ENOENT), w') \<and>
         rules view w' = rules view w
     | Some b \<Rightarrow>
         if modify_fits far qer urr prec (active_slot b)
         then modify_tc_bundle sys p far qer urr prec w =
             (Inr (uint (slot_generation (active_slot b)) + 1), w') \<and>
           tabs view w' = (tabs view w)\<lparr>tc_bundle_map := (tc_bundle_map (tabs view w))
             (word_of_int p \<mapsto> committed (modified_slot far qer urr prec (active_slot b)) b)\<rparr>
         else modify_tc_bundle sys p far qer urr prec w = (Inl StructError, w') \<and>
           rules view w' = rules view w)"
proof (cases "tc_bundle_map (tabs view w) (word_of_int p)")
  case None
  show ?thesis by (rule bpf_kernel.modify_missing [OF assms None, of far qer urr prec]) (use None in auto)
next
  case (Some b)
  show ?thesis
  proof (cases "modify_fits far qer urr prec (active_slot b)")
    case True
    show ?thesis by (rule bpf_kernel.modify_steps [OF assms Some True]) (use Some True in auto)
  next
    case False
    show ?thesis by (rule bpf_kernel.modify_unfit [OF assms Some False]) (use Some False in auto)
  qed
qed

theorem modify_tc_bundle_outcomes_witness:
  "(\<exists>w'. modify_tc_bundle upf_sys 8193 (Some 3) None None None one_session = (Inl (OSError ENOENT), w') \<and>
     rules upf_view w' = rules upf_view one_session) \<and>
   (\<exists>w'. modify_tc_bundle upf_sys 8192 (Some 4294967296) None None None one_session =
       (Inl StructError, w') \<and> rules upf_view w' = rules upf_view one_session)"
  (is "?missing \<and> ?unfit")
proof -
  have slot: "tc_bundle_map (tabs upf_view one_session) (word_of_int 8192) =
      Some (mk_bundle 0 (mk_slot 1 1 1 100 0) (mk_slot 1 1 1 100 0))"
    "tc_bundle_map (tabs upf_view one_session) (word_of_int 8193) = None"
    by (simp_all add: one_session_tables start_tabs)
  note outcomes = modify_tc_bundle_outcomes [OF rk.bpf_kernel_axioms one_session_facts(1)]
  have ?missing
    using outcomes [of 8193 "Some 3" None None None] slot(2) by (auto simp: in_u32_def)
  moreover have ?unfit
    using outcomes [of 8192 "Some 4294967296" None None None] slot(1)
    by (auto simp: in_u32_def modify_fits_def or_else_def)
  ultimately show ?thesis ..
qed

subsection \<open>Sessions\<close>

text \<open>
  C8. Every outcome of \<^verbatim>\<open>install_session\<close>, in the order of its steps: a PDR field that does not
  fit 32 bits raises \<^verbatim>\<open>struct.error\<close> before anything is written; a full \<^verbatim>\<open>pdr_table\<close> raises
  \<^verbatim>\<open>OSError(E2BIG)\<close> with nothing written; a full \<^verbatim>\<open>tc_bundle_map\<close> does so after the PDR entry;
  a TEID that does not fit raises after both rule entries; and otherwise the PDR, the bundle
  (both slots, generation 0) and the session are installed, no other rule is touched and at
  most other sessions are evicted by the LRU table.
\<close>

theorem install_session_outcomes:
  assumes "bpf_kernel sys pinned view fd_path fd_avail"
    and "world_ok pinned fd_path fd_avail upf_defs w"
  defines "T \<equiv> tabs view w"
  shows "\<exists>w'. world_ok pinned fd_path fd_avail upf_defs w' \<and>
    (if \<not> (in_u32 p \<and> in_u32 q \<and> in_u32 f \<and> in_u32 pr \<and> in_u32 u)
     then install_session sys t p q f pr u w = (Inl StructError, w') \<and> tabs view w' = T
     else if \<not> hash_room 4096 (pdr_table T) (word_of_int p)
     then install_session sys t p q f pr u w = (Inl (OSError E2BIG), w') \<and> tabs view w' = T
     else if \<not> hash_room 4096 (tc_bundle_map T) (word_of_int p)
     then install_session sys t p q f pr u w = (Inl (OSError E2BIG), w') \<and>
       tabs view w' = T\<lparr>pdr_table := (pdr_table T)(word_of_int p \<mapsto> mk_pdr f q pr u)\<rparr>
     else if \<not> in_u32 t
     then install_session sys t p q f pr u w = (Inl StructError, w') \<and>
       tabs view w' = T\<lparr>pdr_table := (pdr_table T)(word_of_int p \<mapsto> mk_pdr f q pr u),
         tc_bundle_map := (tc_bundle_map T)
           (word_of_int p \<mapsto> mk_bundle 0 (mk_slot f q u pr 0) (mk_slot f q u pr 0))\<rparr>
     else install_session sys t p q f pr u w = (Inr (), w') \<and>
       spec_install_session t p q f pr u T (tabs view w'))"
proof (cases "in_u32 p \<and> in_u32 q \<and> in_u32 f \<and> in_u32 pr \<and> in_u32 u")
  case False
  then show ?thesis
    using bpf_kernel.install_session_unfit [OF assms(1)] assms(2) by (auto simp: T_def)
next
  case True
  then have rng: "in_u32 p" "in_u32 q" "in_u32 f" "in_u32 pr" "in_u32 u" by simp_all
  note failures = bpf_kernel.install_session_failures [OF assms(1,2) rng, of t, folded T_def]
  show ?thesis
  proof (cases "hash_room 4096 (pdr_table T) (word_of_int p) \<and>
      hash_room 4096 (tc_bundle_map T) (word_of_int p) \<and> in_u32 t")
    case True
    then show ?thesis unfolding T_def
      by (elim conjE, rule_tac bpf_kernel.install_session_spec [OF assms(1,2), of t p q f pr u])
        (use rng in auto)
  next
    case False
    then show ?thesis using failures rng by (cases "hash_room 4096 (pdr_table T) (word_of_int p)") auto
  qed
qed

theorem install_session_outcomes_witness:
  "\<exists>w'. install_session upf_sys 4097 8193 1 1 100 1 one_session = (Inr (), w') \<and>
     pdr_table (tabs upf_view w') 8193 = Some (mk_pdr 1 1 100 1) \<and>
     teid_session (tabs upf_view w') 4097 = Some (mk_session 8193 1 1)"
proof -
  have "hash_room 4096 (pdr_table (tabs upf_view one_session)) 8193"
    "hash_room 4096 (tc_bundle_map (tabs upf_view one_session)) 8193"
    by (simp_all add: hash_room_def one_session_tables start_tabs)
  then show ?thesis
    using install_session_outcomes [OF rk.bpf_kernel_axioms one_session_facts(1), of 8193 1 1 100 1 4097]
    by (auto simp: in_u32_def spec_install_tables(1) spec_install_tables(7) [of 4097, simplified])
qed

text \<open>
  C3. Integrity while a session is installed: if every session observed so far has its PDR and
  its bundle, then so has every session in every state that a packet can observe during and
  after \<^verbatim>\<open>install_session\<close>, whether it returns or raises. This is what installing \<^verbatim>\<open>teid_session\<close>
  last is for.
\<close>

theorem install_session_integrity:
  assumes "bpf_kernel sys pinned view fd_path fd_avail"
    and "world_ok pinned (fd_path \<circ> fst) (fd_avail \<circ> fst) upf_defs w"
    and "\<forall>A \<in> set (observed view w). refs_ok (tables_of A)" and "refs_ok (tabs (view \<circ> fst) w)"
  shows "\<forall>A \<in> set (observed view (snd (install_session (traced sys) t p q f pr u w))).
    refs_ok (tables_of A)"
  using py_hoare_state [OF bpf_kernel.install_session_seen [OF assms(1)], of w t p q f pr u] assms(2-4)
  by (simp add: seen_ok_def)

lemma start_observed: "observed upf_view start_traced = []"
  by (simp add: observed_def start_traced_def agent_start_def)

lemma start_refs_ok: "refs_ok (tabs (upf_view \<circ> fst) start_traced)"
  by (simp add: refs_ok_def start_traced_tabs start_tabs)

theorem install_session_integrity_witness:
  "list_all (\<lambda>A. refs_ok (tables_of A)) (observed upf_view one_traced)"
  unfolding one_traced_def
  using install_session_integrity [OF rk.bpf_kernel_axioms start_traced_ok] start_refs_ok start_observed
  by (simp add: list_all_iff)

text \<open>
  C10. \<^verbatim>\<open>remove_session\<close> is total on 32-bit identifiers and leaves exactly the tables without the
  session, the PDR and the bundle, whether or not they were there.
\<close>

theorem remove_session_effect:
  assumes "bpf_kernel sys pinned view fd_path fd_avail"
    and "world_ok pinned fd_path fd_avail upf_defs w" and "in_u32 t" and "in_u32 p"
  shows "\<exists>w'. remove_session sys t p w = (Inr (), w') \<and> world_ok pinned fd_path fd_avail upf_defs w' \<and>
    tabs view w' = (tabs view w)
      \<lparr>teid_session := (teid_session (tabs view w))(word_of_int t := None),
       pdr_table := (pdr_table (tabs view w))(word_of_int p := None),
       tc_bundle_map := (tc_bundle_map (tabs view w))(word_of_int p := None)\<rparr>"
  by (rule bpf_kernel.remove_session_spec [OF assms]) blast

theorem remove_session_effect_witness:
  "\<exists>w'. remove_session upf_sys 4096 8192 one_session = (Inr (), w') \<and>
     teid_session (tabs upf_view w') 4096 = None \<and> pdr_table (tabs upf_view w') = Map.empty \<and>
     tc_bundle_map (tabs upf_view w') = Map.empty"
  using remove_session_effect [OF rk.bpf_kernel_axioms one_session_facts(1), of 4096 8192]
  by (auto simp: in_u32_def one_session_tables start_tabs fun_eq_iff)

text \<open>
  C4. Integrity while a session is removed: \<^verbatim>\<open>remove_session\<close> deletes the session before the
  rules it refers to, so when no other session uses the PDR, every state a packet can observe
  during and after the removal gives every session its PDR and its bundle.
\<close>

theorem remove_session_integrity:
  assumes "bpf_kernel sys pinned view fd_path fd_avail"
    and "world_ok pinned (fd_path \<circ> fst) (fd_avail \<circ> fst) upf_defs w"
    and "\<forall>A \<in> set (observed view w). refs_ok (tables_of A)" and "refs_ok (tabs (view \<circ> fst) w)"
    and "\<forall>x s. teid_session (tabs (view \<circ> fst) w) x = Some s \<and> sess_pdr_id s = word_of_int p
      \<longrightarrow> x = word_of_int t"
  shows "\<forall>A \<in> set (observed view (snd (remove_session (traced sys) t p w))). refs_ok (tables_of A)"
  using py_hoare_state [OF bpf_kernel.remove_session_seen [OF assms(1), of p t], of w] assms(2-5)
  by (simp add: seen_ok_def)

lemma one_traced_session: "teid_session (tabs (upf_view \<circ> fst) one_traced) x = Some s \<Longrightarrow> x = 4096"
  using one_traced_tables(8) [of x] start_tabs(1) by auto

lemma one_traced_seen:
  "\<forall>A \<in> set (observed upf_view one_traced). refs_ok (tables_of A)"
  "refs_ok (tabs (upf_view \<circ> fst) one_traced)"
  using py_hoare_state [OF rk.install_session_seen, of upf_pinned start_traced 4096 8192 1 1 100 1]
    start_traced_ok start_refs_ok start_observed
  by (simp_all add: seen_ok_def one_traced_def)

theorem remove_session_integrity_witness:
  "list_all (\<lambda>A. refs_ok (tables_of A))
     (observed upf_view (snd (remove_session (traced upf_sys) 4096 8192 one_traced)))"
  using remove_session_integrity [OF rk.bpf_kernel_axioms one_traced_facts(1) one_traced_seen, of 8192 4096]
  by (auto simp: list_all_iff dest: one_traced_session)

end
