(* ===== verification/Agent_Batch.thy ===== *)
theory Agent_Batch
  imports Agent_Theorems "HOL-Library.Sublist"
begin

text \<open>
  The operations of \<^verbatim>\<open>loader/agent.py\<close> that install many sessions: \<^verbatim>\<open>bootstrap_initial\<close> and the
  rule-update measurement \<^verbatim>\<open>measure_rule_update\<close>. The clock \<^verbatim>\<open>time.monotonic_ns\<close> is the parameter
  \<open>clock\<close> on the kernel state, and the floating-point divisions that turn nanoseconds into the
  reported units are the parameters \<open>to_us\<close> and \<open>to_ms\<close>. \<open>batch\<close> describes the tables after
  the first \<open>i\<close> sessions of such a run.
\<close>

definition py_range :: "int \<Rightarrow> int list" where
  "py_range n = map int [0..<nat n]"

text \<open>\<^verbatim>\<open>install_session\<close> with the default arguments of its declaration.\<close>

definition install_default :: "'k bpf_sys \<Rightarrow> int \<Rightarrow> int \<Rightarrow> ('k world, unit) py" where
  "install_default sys teid pdr_id = install_session sys teid pdr_id 1 1 100 1"

definition bootstrap_initial :: "'k bpf_sys \<Rightarrow> int \<Rightarrow> int \<Rightarrow> ('k world, unit) py" where
  "bootstrap_initial sys n out_ifindex =
     py_bind (install_far sys 1 (uint FAR_FORWARD) out_ifindex 0 0) (\<lambda>_.
     py_bind (install_qer sys 1 0 0 0) (\<lambda>_.
     py_for (py_range n) (\<lambda>i. install_default sys (0x1000 + i) (0x2000 + i))))"

definition monotonic_ns :: "('k \<Rightarrow> int \<times> 'k) \<Rightarrow> ('k world, int) py" where
  "monotonic_ns clock w = (case clock (kern w) of (t, k') \<Rightarrow> (Inr t, w\<lparr>kern := k'\<rparr>))"

fun measure_installs :: "'k bpf_sys \<Rightarrow> ('k \<Rightarrow> int \<times> 'k) \<Rightarrow> (int \<Rightarrow> 'f) \<Rightarrow> int \<Rightarrow> int \<Rightarrow> int list \<Rightarrow>
    'f list \<Rightarrow> ('k world, 'f list) py" where
  "measure_installs sys clock to_us base_teid base_pdr [] samples_us = py_return samples_us"
| "measure_installs sys clock to_us base_teid base_pdr (i # is) samples_us =
     py_bind (monotonic_ns clock) (\<lambda>s.
     py_bind (install_default sys (base_teid + i) (base_pdr + i)) (\<lambda>_.
     py_bind (monotonic_ns clock) (\<lambda>e.
     measure_installs sys clock to_us base_teid base_pdr is (samples_us @ [to_us (e - s)]))))"

definition measure_rule_update ::
    "'k bpf_sys \<Rightarrow> ('k \<Rightarrow> int \<times> 'k) \<Rightarrow> (int \<Rightarrow> 'f) \<Rightarrow> (int \<Rightarrow> 'f) \<Rightarrow> int \<Rightarrow> ('k world, 'f \<times> 'f list) py" where
  "measure_rule_update sys clock to_us to_ms n_rules =
     (let base_teid = 0x10000; base_pdr = 0x20000 in
      py_bind (monotonic_ns clock) (\<lambda>t_start.
      py_bind (measure_installs sys clock to_us base_teid base_pdr (py_range n_rules) []) (\<lambda>samples_us.
      py_bind (monotonic_ns clock) (\<lambda>t_end.
      py_bind (py_for (py_range n_rules) (\<lambda>i. remove_session sys (base_teid + i) (base_pdr + i))) (\<lambda>_.
      py_return (to_ms (t_end - t_start), samples_us))))))"

text \<open>
  The first \<open>i\<close> identifiers from \<open>b\<close>, and the tables right after the \<open>i\<close>-th session has been installed: all \<open>i\<close> rules and the
  last session are there, and of the earlier sessions those that the LRU table has not evicted.
\<close>

definition ids :: "int \<Rightarrow> nat \<Rightarrow> u32 set" where
  "ids b i = (\<lambda>j. word_of_int (b + int j)) ` {..<i}"

definition batch :: "int \<Rightarrow> int \<Rightarrow> nat \<Rightarrow> rule_tables \<Rightarrow> rule_tables \<Rightarrow> bool" where
  "batch t0 p0 i T T' \<longleftrightarrow>
     pdr_table T' = (\<lambda>x. if x \<in> ids p0 i then Some (mk_pdr 1 1 100 1) else pdr_table T x) \<and>
     tc_bundle_map T' = (\<lambda>x. if x \<in> ids p0 i
       then Some (mk_bundle 0 (mk_slot 1 1 1 100 0) (mk_slot 1 1 1 100 0)) else tc_bundle_map T x) \<and>
     far_table T' = far_table T \<and> qer_table T' = qer_table T \<and> dl_ue_map T' = dl_ue_map T \<and>
     upf_config_map T' = upf_config_map T \<and>
     (\<forall>x. x \<notin> ids t0 i \<longrightarrow> teid_session T' x = teid_session T x \<or> teid_session T' x = None) \<and>
     (\<forall>j < i. teid_session T' (word_of_int (t0 + int j)) \<in>
        {None, Some (mk_session (p0 + int j) 1 1)}) \<and>
     (0 < i \<longrightarrow> teid_session T' (word_of_int (t0 + int (i - 1))) = Some (mk_session (p0 + int (i - 1)) 1 1))"

definition batch_room :: "nat \<Rightarrow> rule_tables \<Rightarrow> bool" where
  "batch_room n T \<longleftrightarrow> finite (dom (pdr_table T)) \<and> finite (dom (tc_bundle_map T)) \<and>
     card (dom (pdr_table T)) + n \<le> 4096 \<and> card (dom (tc_bundle_map T)) + n \<le> 4096"

text \<open>Reading the clock leaves the maps and the descriptors alone.\<close>

definition clock_neutral ::
    "('k \<Rightarrow> store) \<Rightarrow> ('k \<Rightarrow> u32 \<rightharpoonup> string) \<Rightarrow> ('k \<Rightarrow> nat) \<Rightarrow> ('k \<Rightarrow> int \<times> 'k) \<Rightarrow> bool" where
  "clock_neutral view fd_path fd_avail clock \<longleftrightarrow>
     (\<forall>k. view (snd (clock k)) = view k \<and> fd_path (snd (clock k)) = fd_path k \<and>
        fd_avail (snd (clock k)) = fd_avail k)"

text \<open>Tables without the first \<open>i\<close> sessions and rules.\<close>

definition without :: "int \<Rightarrow> int \<Rightarrow> nat \<Rightarrow> rule_tables \<Rightarrow> rule_tables" where
  "without t0 p0 i T = T
     \<lparr>teid_session := (\<lambda>x. if x \<in> ids t0 i then None else teid_session T x),
      pdr_table := (\<lambda>x. if x \<in> ids p0 i then None else pdr_table T x),
      tc_bundle_map := (\<lambda>x. if x \<in> ids p0 i then None else tc_bundle_map T x)\<rparr>"

lemma ids_0 [simp]: "ids b 0 = {}"
  by (simp add: ids_def)

lemma ids_Suc: "ids b (Suc i) = insert (word_of_int (b + int i)) (ids b i)"
  by (simp add: ids_def lessThan_Suc)

lemma card_ids: "finite (ids b i)" "card (ids b i) \<le> i"
  using card_image_le [of "{..<i}" "\<lambda>j. word_of_int (b + int j) :: u32"] by (simp_all add: ids_def)

lemma in_u32_offset: "0 \<le> b \<Longrightarrow> b + int n \<le> 2 ^ 32 \<Longrightarrow> j < n \<Longrightarrow> in_u32 (b + int j)"
  by (simp add: in_u32_def)

lemma batch_0: "batch t p 0 T T"
  by (simp add: batch_def)

lemma hash_room_batch:
  assumes "card (dom m) + n \<le> 4096" "finite (dom m)" "i < n"
    "m' = (\<lambda>x. if x \<in> ids p0 i then Some v else m x)"
  shows "hash_room 4096 m' k"
proof -
  have "dom m' \<subseteq> dom m \<union> ids p0 i" using assms(4) by (auto split: if_splits)
  then have "card (dom m') \<le> card (dom m \<union> ids p0 i)"
    using assms(2) card_ids(1) by (intro card_mono) auto
  also have "\<dots> \<le> card (dom m) + card (ids p0 i)" by (rule card_Un_le)
  also have "\<dots> \<le> card (dom m) + i" using card_ids(2) by simp
  finally show ?thesis using assms(1,3) by (simp add: hash_room_def)
qed

lemma word_of_int_ids:
  assumes "0 \<le> b" "b + int n \<le> 2 ^ 32" "i < n" "j < n"
  shows "(word_of_int (b + int i) :: u32) = word_of_int (b + int j) \<longleftrightarrow> i = j"
  using uint_word_of_int_u32 [OF in_u32_offset [OF assms(1,2,3)]]
    uint_word_of_int_u32 [OF in_u32_offset [OF assms(1,2,4)]]
  by (metis add_left_cancel of_nat_eq_iff)

lemma ids_bound:
  assumes "0 \<le> b" "b + int n \<le> 2 ^ 32" "i < n"
  shows "(word_of_int (b + int i) :: u32) \<notin> ids b i"
proof
  assume "(word_of_int (b + int i) :: u32) \<in> ids b i"
  then obtain j where "j < i" "(word_of_int (b + int i) :: u32) = word_of_int (b + int j)"
    unfolding ids_def by blast
  with word_of_int_ids [OF assms, of j] assms(3) show False by simp
qed

lemma card_ids_eq: "0 \<le> b \<Longrightarrow> b + int n \<le> 2 ^ 32 \<Longrightarrow> card (ids b n) = n"
  unfolding ids_def by (subst card_image) (auto simp: inj_on_def word_of_int_ids simp del: of_int_add)

lemma batch_full:
  assumes "card (dom m) + n = 4096" "finite (dom m)" "0 \<le> b" "b + int (Suc n) \<le> 2 ^ 32"
    "\<forall>x \<in> ids b (Suc n). m x = None" "m' = (\<lambda>x. if x \<in> ids b n then Some v else m x)"
  shows "\<not> hash_room 4096 m' (word_of_int (b + int n))"
proof -
  have "dom m' = dom m \<union> ids b n" using assms(6) by auto
  moreover have "dom m \<inter> ids b n = {}" using assms(5) by (auto simp: ids_Suc)
  ultimately have "card (dom m') = 4096"
    using assms(1-4) by (simp add: card_Un_disjoint card_ids(1) card_ids_eq)
  moreover have "m' (word_of_int (b + int n)) = None"
    using assms(3-6) ids_bound [of b "Suc n" n] by (simp add: ids_Suc del: of_int_add)
  ultimately show ?thesis by (simp add: hash_room_def del: of_int_add)
qed

lemma batch_Suc:
  assumes b: "batch t0 p0 i T T1" and s: "spec_install_session (t0 + int i) (p0 + int i) 1 1 100 1 T1 T2"
    and t: "0 \<le> t0" "t0 + int n \<le> 2 ^ 32" "i < n"
  shows "batch t0 p0 (Suc i) T T2"
proof -
  note tabs = spec_install_tables [OF s]
  have old: "teid_session T2 (word_of_int (t0 + int j)) \<in> {None, Some (mk_session (p0 + int j) 1 1)}"
    if "j < Suc i" for j
  proof (cases "j = i")
    case False
    then have "j < i" using that by simp
    then have "(word_of_int (t0 + int j) :: u32) \<noteq> word_of_int (t0 + int i)"
      using word_of_int_ids [OF t(1,2,3), of j] t(3) by auto
    with tabs(8) b \<open>j < i\<close> show ?thesis unfolding batch_def by (metis insertI1 insert_iff)
  qed (use tabs(7) in simp)
  have other: "teid_session T2 x = teid_session T x \<or> teid_session T2 x = None"
    if "x \<notin> ids t0 (Suc i)" for x
    using that b tabs(8) [of x] unfolding batch_def ids_Suc by (metis insert_iff)
  show ?thesis
    using b old other tabs(1-7) unfolding batch_def by (auto simp: ids_Suc fun_eq_iff)
qed

lemma without_0: "without t p 0 T = T"
  by (simp add: without_def)

lemma without_Suc:
  "(without t p i T)\<lparr>teid_session := (teid_session (without t p i T))(word_of_int (t + int i) := None),
     pdr_table := (pdr_table (without t p i T))(word_of_int (p + int i) := None),
     tc_bundle_map := (tc_bundle_map (without t p i T))(word_of_int (p + int i) := None)\<rparr> =
   without t p (Suc i) T"
  by (simp add: without_def ids_Suc fun_eq_iff)

lemma batch_refs_ok:
  assumes b: "batch t0 p0 n T T'" and T: "refs_ok T"
  shows "refs_ok T'"
  unfolding refs_ok_def
proof (intro allI impI)
  fix x s assume s: "teid_session T' x = Some s"
  show "pdr_table T' (sess_pdr_id s) \<noteq> None \<and> tc_bundle_map T' (sess_pdr_id s) \<noteq> None"
  proof (cases "x \<in> ids t0 n")
    case True
    then obtain j where j: "j < n" "x = word_of_int (t0 + int j)" by (auto simp: ids_def)
    with b s have "s = mk_session (p0 + int j) 1 1" by (auto simp: batch_def)
    then have "sess_pdr_id s \<in> ids p0 n" using j(1) by (auto simp: mk_session_def ids_def)
    with b show ?thesis by (simp add: batch_def)
  next
    case False
    with b s have "teid_session T x = Some s" unfolding batch_def by (metis option.distinct(1))
    with T have "pdr_table T (sess_pdr_id s) \<noteq> None \<and> tc_bundle_map T (sess_pdr_id s) \<noteq> None"
      by (auto simp: refs_ok_def)
    with b show ?thesis by (simp add: batch_def)
  qed
qed

context bpf_kernel
begin

lemma array_room: "le_int (key32 k) = uint k"
  using uint_lt2p [of k] by (simp add: key32_def le_int_le_bytes del: le_bytes.simps)

lemma install_far_spec:
  assumes ok: "agent_ok w" and rng: "in_u32 far" "in_u32 a" "in_u32 i" "in_u32 p" "in_u32 t"
  obtains w' where "install_far sys far a i p t w =
      ((if far < 4096 then Inr () else Inl (OSError E2BIG)), w')" "agent_ok w'"
    "tabs view w' = (if far < 4096 then (tabs view w)\<lparr>far_table := (far_table (tabs view w))
       (word_of_int far \<mapsto> \<lparr>far_action = word_of_int a, far_out_ifindex = word_of_int i,
         far_peer_ipv4_be = word_of_int p, far_out_teid_be = word_of_int t\<rparr>)\<rparr> else tabs view w)"
proof -
  obtain v where v: "enc_far a i p t = Inr v" using rng by (simp add: enc_far_eq del: le_bytes.simps)
  note lv = ld_enc_far [OF v]
  let ?k = "word_of_int far :: u32"
  let ?d = "\<lparr>map_type = ArrayMap, key_size = 4, value_size = 16, max_entries = 4096\<rparr>"
  have room: "has_room ?d (rules view w ''far_table'') (key32 ?k) \<longleftrightarrow> far < 4096"
    using rng by (simp add: has_room_def array_room uint_word_of_int_u32)
  show thesis
  proof (rule pmc_update_spec [OF ok upf_defs_simps(3), of "key32 ?k" v])
    fix w' assume u: "pmc_update sys ''far_table'' (key32 ?k) v BPF_ANY w =
        (if has_room ?d (rules view w ''far_table'') (key32 ?k) then Inr () else Inl (OSError E2BIG), w')"
      and st: "if has_room ?d (rules view w ''far_table'') (key32 ?k)
        then stored ?d ''far_table'' (key32 ?k) v (rules view w) (rules view w')
        else rules view w' = rules view w" and ok': "agent_ok w'"
    have call: "install_far sys far a i p t w = (if far < 4096 then Inr () else Inl (OSError E2BIG), w')"
      using u v rng room by (simp add: install_far_def enc_u32_eq py_bind_def py_lift_def map_update_def)
    show thesis
      by (rule that [OF call ok']) (use st room lv in \<open>auto simp: tabs_def tables_of_upd dest!: stored_eq\<close>)
  qed (use lv in simp_all)
qed

lemma install_qer_spec:
  assumes ok: "agent_ok w" and rng: "in_u32 qer" "in_u64 ul" "in_u64 dl" "in_u32 b"
  obtains w' where "install_qer sys qer ul dl b w =
      ((if qer < 4096 then Inr () else Inl (OSError E2BIG)), w')" "agent_ok w'"
    "tabs view w' = (if qer < 4096 then (tabs view w)\<lparr>qer_table := (qer_table (tabs view w))
       (word_of_int qer \<mapsto> \<lparr>qer_mbr_ul_bps = word_of_int ul, qer_mbr_dl_bps = word_of_int dl,
         qer_burst_bytes = word_of_int b, qer_pad = 0\<rparr>)\<rparr> else tabs view w)"
proof -
  obtain v where v: "enc_qer ul dl b = Inr v" using rng by (simp add: enc_qer_eq del: le_bytes.simps)
  note lv = ld_enc_qer [OF v]
  let ?k = "word_of_int qer :: u32"
  let ?d = "\<lparr>map_type = ArrayMap, key_size = 4, value_size = 24, max_entries = 4096\<rparr>"
  have room: "has_room ?d (rules view w ''qer_table'') (key32 ?k) \<longleftrightarrow> qer < 4096"
    using rng by (simp add: has_room_def array_room uint_word_of_int_u32)
  show thesis
  proof (rule pmc_update_spec [OF ok upf_defs_simps(4), of "key32 ?k" v])
    fix w' assume u: "pmc_update sys ''qer_table'' (key32 ?k) v BPF_ANY w =
        (if has_room ?d (rules view w ''qer_table'') (key32 ?k) then Inr () else Inl (OSError E2BIG), w')"
      and st: "if has_room ?d (rules view w ''qer_table'') (key32 ?k)
        then stored ?d ''qer_table'' (key32 ?k) v (rules view w) (rules view w')
        else rules view w' = rules view w" and ok': "agent_ok w'"
    have call: "install_qer sys qer ul dl b w = (if qer < 4096 then Inr () else Inl (OSError E2BIG), w')"
      using u v rng room by (simp add: install_qer_def enc_u32_eq py_bind_def py_lift_def map_update_def)
    show thesis
      by (rule that [OF call ok']) (use st room lv in \<open>auto simp: tabs_def tables_of_upd dest!: stored_eq\<close>)
  qed (use lv in simp_all)
qed

text \<open>One more session, and then all of them.\<close>

lemma batch_step:
  assumes ok: "agent_ok w" and b: "batch t0 p0 i T (tabs view w)" and room: "batch_room n T"
    and rng: "0 \<le> t0" "t0 + int n \<le> 2 ^ 32" "0 \<le> p0" "p0 + int n \<le> 2 ^ 32" "i < n"
  obtains w' where "install_default sys (t0 + int i) (p0 + int i) w = (Inr (), w')" "agent_ok w'"
    "batch t0 p0 (Suc i) T (tabs view w')"
proof -
  have "hash_room 4096 (pdr_table (tabs view w)) (word_of_int (p0 + int i))"
    "hash_room 4096 (tc_bundle_map (tabs view w)) (word_of_int (p0 + int i))"
    using room b rng(5) unfolding batch_room_def batch_def by (blast intro: hash_room_batch)+
  then show thesis
    using in_u32_offset [OF rng(1,2,5)] in_u32_offset [OF rng(3,4,5)]
    by (rule_tac install_session_spec [OF ok, of "t0 + int i" "p0 + int i" 1 1 100 1])
      (auto simp: in_u32_def install_default_def intro!: that batch_Suc [OF b _ rng(1,2,5)])
qed

lemma install_loop:
  assumes "agent_ok w" "batch t0 p0 i T (tabs view w)" "batch_room n T"
    "0 \<le> t0" "t0 + int n \<le> 2 ^ 32" "0 \<le> p0" "p0 + int n \<le> 2 ^ 32" "i \<le> n"
  shows "\<exists>w'. py_for (map int [i..<n]) (\<lambda>i. install_default sys (t0 + i) (p0 + i)) w = (Inr (), w') \<and>
    agent_ok w' \<and> batch t0 p0 n T (tabs view w')"
  using assms
proof (induction "n - i" arbitrary: i w)
  case 0
  then show ?case by (simp add: py_simps)
next
  case (Suc m)
  then have i: "i < n" by simp
  obtain w1 where "install_default sys (t0 + int i) (p0 + int i) w = (Inr (), w1)" "agent_ok w1"
    "batch t0 p0 (Suc i) T (tabs view w1)"
    by (rule batch_step [OF Suc.prems(1-7) i])
  with Suc.hyps(1) [of "Suc i" w1] Suc.hyps(2) Suc.prems i show ?case
    by (simp add: upt_conv_Cons py_simps)
qed

lemma bootstrap_spec:
  assumes ok: "agent_ok w" and room: "batch_room (nat n) (tabs view w)" and out: "in_u32 out"
  obtains w' where "bootstrap_initial sys n out w = (Inr (), w')" "agent_ok w'"
    "batch 0x1000 0x2000 (nat n) ((tabs view w)
       \<lparr>far_table := (far_table (tabs view w))(1 \<mapsto> \<lparr>far_action = FAR_FORWARD,
          far_out_ifindex = word_of_int out, far_peer_ipv4_be = 0, far_out_teid_be = 0\<rparr>),
        qer_table := (qer_table (tabs view w))(1 \<mapsto> \<lparr>qer_mbr_ul_bps = 0, qer_mbr_dl_bps = 0,
          qer_burst_bytes = 0, qer_pad = 0\<rparr>)\<rparr>) (tabs view w')"
proof -
  obtain w1 where far: "install_far sys 1 1 out 0 0 w = (Inr (), w1)" "agent_ok w1"
    "tabs view w1 = (tabs view w)\<lparr>far_table := (far_table (tabs view w))(1 \<mapsto>
      \<lparr>far_action = FAR_FORWARD, far_out_ifindex = word_of_int out, far_peer_ipv4_be = 0, far_out_teid_be = 0\<rparr>)\<rparr>"
    by (rule install_far_spec [OF ok, of 1 1 out 0 0]) (use out in auto)
  obtain w2 where qer: "install_qer sys 1 0 0 0 w1 = (Inr (), w2)" "agent_ok w2"
    "tabs view w2 = (tabs view w1)\<lparr>qer_table := (qer_table (tabs view w1))(1 \<mapsto>
      \<lparr>qer_mbr_ul_bps = 0, qer_mbr_dl_bps = 0, qer_burst_bytes = 0, qer_pad = 0\<rparr>)\<rparr>"
    by (rule install_qer_spec [OF far(2), of 1 0 0 0]) (auto simp: in_u64_def)
  have "batch_room (nat n) (tabs view w2)" using room far(3) qer(3) by (simp add: batch_room_def)
  moreover have "int (nat n) \<le> 4096" using room unfolding batch_room_def by linarith
  ultimately obtain w3 where "py_for (map int [0..<nat n]) (\<lambda>i. install_default sys (0x1000 + i) (0x2000 + i)) w2 =
      (Inr (), w3)" "agent_ok w3" "batch 0x1000 0x2000 (nat n) (tabs view w2) (tabs view w3)"
    using install_loop [of w2 "0x1000" "0x2000" 0 "tabs view w2" "nat n"] qer(2) by (auto simp: batch_0)
  with that [of w3] far qer show thesis by (simp add: bootstrap_initial_def py_simps py_range_def)
qed

text \<open>
  The same run under the recording kernel: after each session the tables of that moment have been observable. First
  that an operation only appends to what has been observed, and ends with the current contents.
\<close>

lemma commits_update_far:
  assumes "length v = 16"
  shows "commits (map_update (traced sys) ''far_table'' (key32 k) v)
    (\<lambda>T T'. T' = T\<lparr>far_table := (far_table T)(k \<mapsto> ld_far v)\<rparr>)"
proof (rule commitsI)
  fix w r w' assume ok: "tr_ok w" and c: "map_update (traced sys) ''far_table'' (key32 k) v w = (r, w')"
  show "tr_ok w' \<and> one_commit view w w' \<and> (case r of Inl _ \<Rightarrow> tr_tabs w' = tr_tabs w
      | Inr _ \<Rightarrow> tr_tabs w' = (tr_tabs w)\<lparr>far_table := (far_table (tr_tabs w))(k \<mapsto> ld_far v)\<rparr>)"
    using map_commit(1) [OF ok upf_defs_simps(3) c] c assms
    by (rule_tac bpf_kernel.pmc_update_spec [OF traced_kernel ok upf_defs_simps(3), of "key32 k" v])
      (auto simp: map_update_def tabs_def tables_of_upd dest!: stored_eq split: if_splits)
qed

lemma commits_update_qer:
  assumes "length v = 24"
  shows "commits (map_update (traced sys) ''qer_table'' (key32 k) v)
    (\<lambda>T T'. T' = T\<lparr>qer_table := (qer_table T)(k \<mapsto> ld_qer v)\<rparr>)"
proof (rule commitsI)
  fix w r w' assume ok: "tr_ok w" and c: "map_update (traced sys) ''qer_table'' (key32 k) v w = (r, w')"
  show "tr_ok w' \<and> one_commit view w w' \<and> (case r of Inl _ \<Rightarrow> tr_tabs w' = tr_tabs w
      | Inr _ \<Rightarrow> tr_tabs w' = (tr_tabs w)\<lparr>qer_table := (qer_table (tr_tabs w))(k \<mapsto> ld_qer v)\<rparr>)"
    using map_commit(1) [OF ok upf_defs_simps(4) c] c assms
    by (rule_tac bpf_kernel.pmc_update_spec [OF traced_kernel ok upf_defs_simps(4), of "key32 k" v])
      (auto simp: map_update_def tabs_def tables_of_upd dest!: stored_eq split: if_splits)
qed

definition "grown w0 w \<longleftrightarrow> tr_ok w \<and> prefix (observed view w0) (observed view w)"
definition "shown w0 w \<longleftrightarrow> tr_ok w \<and> (\<exists>pre. observed view w = observed view w0 @ pre @ [rules (view \<circ> fst) w])"

lemma grown_refl: "tr_ok w \<Longrightarrow> grown w w"
  by (simp add: grown_def)

lemma shown_grown: "shown w0 w \<Longrightarrow> grown w0 w"
  by (auto simp: shown_def grown_def prefix_def)

lemma commit_shown:
  assumes "commits m R"
  shows "py_hoare (grown w0) m (\<lambda>_. shown w0) (\<lambda>_. True)"
  using assms by (intro py_hoareI) (force simp: commits_def grown_def shown_def one_commit_def prefix_def)+

lemmas commit_grown = hoare_weaken [OF commit_shown]

lemma install_default_shown: "py_hoare (grown w0) (install_default (traced sys) t p) (\<lambda>_. shown w0) (\<lambda>_. True)"
proof -
  have key: "k = key32 (word_of_int v)" if "enc_u32 v = Inr k" for v k
    using that by (auto simp: enc_u32_eq split: if_splits)
  have pdr: "py_hoare (grown w0) (map_update (traced sys) ''pdr_table'' k v) (\<lambda>_. grown w0) (\<lambda>_. True)"
    if "enc_u32 p = Inr k" "enc_pdr 1 1 100 1 = Inr v" for k v
    unfolding key [OF that(1)] by (rule commit_grown [OF commits_update_pdr]) (use ld_enc_pdr [OF that(2)] shown_grown in auto)
  have bun: "py_hoare (grown w0) (install_tc_bundle (traced sys) p 1 1 1 100 0) (\<lambda>_. grown w0) (\<lambda>_. True)"
    unfolding install_tc_bundle_def
  proof (intro hoare_lift_bind)
    fix s k v assume enc: "enc_bundle_slot 1 1 1 100 0 = Inr s" "enc_u32 p = Inr k" "enc_bundle 0 s s = Inr v"
    have "length s = 24" using ld_enc_slot [OF enc(1)] by simp
    then have "length v = 56" using ld_enc_bundle(1) [OF enc(3)] by simp
    then show "py_hoare (grown w0) (map_update (traced sys) ''tc_bundle_map'' k v) (\<lambda>_. grown w0) (\<lambda>_. True)"
      unfolding key [OF enc(2)] by (intro commit_grown [OF commits_update_bundle]) (use shown_grown in auto)
  qed auto
  have sess: "py_hoare (grown w0) (map_update (traced sys) ''teid_session'' k v) (\<lambda>_. shown w0) (\<lambda>_. True)"
    if "enc_u32 t = Inr k" "enc_session p 1 1 = Inr v" for k v
    unfolding key [OF that(1)] by (rule commit_shown [OF commits_update_teid]) (use ld_enc_session [OF that(2)] in simp)
  show ?thesis unfolding install_default_def install_session_def
    by (intro hoare_lift_bind hoare_bind [OF pdr] hoare_bind [OF bun] sess) auto
qed

lemma install_loop_shown:
  assumes "tr_ok w" "batch t0 p0 i T (tr_tabs w)" "batch_room n T"
    "0 \<le> t0" "t0 + int n \<le> 2 ^ 32" "0 \<le> p0" "p0 + int n \<le> 2 ^ 32" "i \<le> n"
  shows "\<exists>w' shots. py_for (map int [i..<n]) (\<lambda>i. install_default (traced sys) (t0 + i) (p0 + i)) w = (Inr (), w') \<and>
    tr_ok w' \<and> batch t0 p0 n T (tr_tabs w') \<and> observed view w' = observed view w @ shots \<and>
    (\<forall>j. i \<le> j \<and> j < n \<longrightarrow> (\<exists>A \<in> set shots. batch t0 p0 (Suc j) T (tables_of A)))"
  using assms
proof (induction "n - i" arbitrary: i w)
  case 0
  then show ?case by (simp add: py_simps)
next
  case (Suc m)
  then have i: "i < n" and m: "m = n - Suc i" by simp_all
  obtain w1 where 1: "install_default (traced sys) (t0 + int i) (p0 + int i) w = (Inr (), w1)" "tr_ok w1"
    "batch t0 p0 (Suc i) T (tr_tabs w1)"
    by (rule bpf_kernel.batch_step [OF traced_kernel Suc.prems(1-7) i])
  obtain pre where pre: "observed view w1 = observed view w @ pre @ [rules (view \<circ> fst) w1]"
    using py_hoareD(1) [OF install_default_shown grown_refl [OF Suc.prems(1)] 1(1)] by (auto simp: shown_def)
  obtain w' shots where 2: "py_for (map int [Suc i..<n]) (\<lambda>i. install_default (traced sys) (t0 + i) (p0 + i)) w1 = (Inr (), w')"
    "tr_ok w'" "batch t0 p0 n T (tr_tabs w')" "observed view w' = observed view w1 @ shots"
    "\<forall>j. Suc i \<le> j \<and> j < n \<longrightarrow> (\<exists>A \<in> set shots. batch t0 p0 (Suc j) T (tables_of A))"
    using Suc.hyps(1) [OF m 1(2,3) Suc.prems(3-7) Suc_leI [OF i]] by (elim exE conjE) (rule that)
  have "batch t0 p0 (Suc i) T (tables_of (rules (view \<circ> fst) w1))" using 1(3) by (simp add: tabs_def)
  then have "\<exists>A \<in> set (pre @ rules (view \<circ> fst) w1 # shots). batch t0 p0 (Suc j) T (tables_of A)" if "i \<le> j" "j < n" for j
    using 2(5) [rule_format, of j] that by (cases "j = i") (auto simp: Suc_le_eq)
  then show ?case
    using 1(1) 2 pre i by (intro exI [of _ w'] exI [of _ "pre @ rules (view \<circ> fst) w1 # shots"]) (simp add: upt_conv_Cons py_simps)
qed

lemma bootstrap_shown:
  assumes ok: "tr_ok w" and room: "batch_room (nat n) (tr_tabs w)" and out: "in_u32 out"
  defines "T \<equiv> (tr_tabs w)
       \<lparr>far_table := (far_table (tr_tabs w))(1 \<mapsto> \<lparr>far_action = FAR_FORWARD,
          far_out_ifindex = word_of_int out, far_peer_ipv4_be = 0, far_out_teid_be = 0\<rparr>),
        qer_table := (qer_table (tr_tabs w))(1 \<mapsto> \<lparr>qer_mbr_ul_bps = 0, qer_mbr_dl_bps = 0,
          qer_burst_bytes = 0, qer_pad = 0\<rparr>)\<rparr>"
  obtains w' shots where "bootstrap_initial (traced sys) n out w = (Inr (), w')" "tr_ok w'"
    "batch 0x1000 0x2000 (nat n) T (tr_tabs w')" "observed view w' = observed view w @ shots"
    "\<forall>j < nat n. \<exists>A \<in> set shots. batch 0x1000 0x2000 (Suc j) T (tables_of A)"
proof -
  obtain w1 where far: "install_far (traced sys) 1 1 out 0 0 w = (Inr (), w1)" "tr_ok w1"
    "tr_tabs w1 = (tr_tabs w)\<lparr>far_table := (far_table (tr_tabs w))(1 \<mapsto>
      \<lparr>far_action = FAR_FORWARD, far_out_ifindex = word_of_int out, far_peer_ipv4_be = 0, far_out_teid_be = 0\<rparr>)\<rparr>"
    by (rule bpf_kernel.install_far_spec [OF traced_kernel ok, of 1 1 out 0 0]) (use out in auto)
  obtain w2 where qer: "install_qer (traced sys) 1 0 0 0 w1 = (Inr (), w2)" "tr_ok w2"
    "tr_tabs w2 = (tr_tabs w1)\<lparr>qer_table := (qer_table (tr_tabs w1))(1 \<mapsto>
      \<lparr>qer_mbr_ul_bps = 0, qer_mbr_dl_bps = 0, qer_burst_bytes = 0, qer_pad = 0\<rparr>)\<rparr>"
    by (rule bpf_kernel.install_qer_spec [OF traced_kernel far(2), of 1 0 0 0]) (auto simp: in_u64_def)
  have T: "tr_tabs w2 = T" using far(3) qer(3) by (simp add: T_def)
  have key: "enc_u32 1 = Inr (key32 1)" by (simp add: enc_u32_eq)
  have grow: "py_hoare (grown w) (install_far (traced sys) 1 1 out 0 0) (\<lambda>_. grown w) (\<lambda>_. True)"
    "py_hoare (grown w) (install_qer (traced sys) 1 0 0 0) (\<lambda>_. grown w) (\<lambda>_. True)"
    unfolding install_far_def install_qer_def
    by (intro hoare_lift_bind; auto simp: key intro!: commit_grown [OF commits_update_far] commit_grown [OF commits_update_qer]
        dest: ld_enc_far ld_enc_qer shown_grown)+
  have "grown w w2" by (rule py_hoareD(1) [OF grow(2) py_hoareD(1) [OF grow(1) grown_refl [OF ok] far(1)] qer(1)])
  then obtain pre where pre: "observed view w2 = observed view w @ pre" by (auto simp: grown_def prefix_def)
  have "batch_room (nat n) T" using room by (simp add: batch_room_def T_def)
  moreover have "int (nat n) \<le> 4096" using room unfolding batch_room_def by linarith
  ultimately obtain w3 shots where 3: "py_for (map int [0..<nat n]) (\<lambda>i. install_default (traced sys) (0x1000 + i) (0x2000 + i)) w2 =
      (Inr (), w3)" "tr_ok w3" "batch 0x1000 0x2000 (nat n) T (tr_tabs w3)" "observed view w3 = observed view w2 @ shots"
    "\<forall>j. 0 \<le> j \<and> j < nat n \<longrightarrow> (\<exists>A \<in> set shots. batch 0x1000 0x2000 (Suc j) T (tables_of A))"
    using install_loop_shown [of w2 "0x1000" "0x2000" 0 T "nat n"] qer(2) T by (auto simp: batch_0)
  show thesis
    by (rule that [of w3 "pre @ shots"])
      (use 3 far(1) qer(1) pre in \<open>auto simp: bootstrap_initial_def py_simps py_range_def\<close>)
qed

text \<open>The measurement loop.\<close>

lemma monotonic_spec:
  assumes "agent_ok w" "clock_neutral view fd_path fd_avail clock"
  obtains t w' where "monotonic_ns clock w = (Inr t, w')" "agent_ok w'" "tabs view w' = tabs view w"
proof -
  obtain t k' where c: "clock (kern w) = (t, k')" by (rule prod.exhaust)
  have k': "view k' = view (kern w)" "fd_path k' = fd_path (kern w)" "fd_avail k' = fd_avail (kern w)"
    using assms(2) c unfolding clock_neutral_def by (metis snd_conv)+
  show thesis
    by (rule that [of t "w\<lparr>kern := k'\<rparr>"])
      (use c k' world_ok_same_fds [OF assms(1) k'(2,3)] in
        \<open>simp_all add: monotonic_ns_def tabs_def tables_of_def rules_def\<close>)
qed

lemma measured_step:
  assumes ok: "agent_ok w" and clock: "clock_neutral view fd_path fd_avail clock"
    and b: "batch t0 p0 i T (tabs view w)" and room: "batch_room n T"
    and rng: "0 \<le> t0" "t0 + int n \<le> 2 ^ 32" "0 \<le> p0" "p0 + int n \<le> 2 ^ 32" "i < n"
  obtains w' v where "agent_ok w'" "batch t0 p0 (Suc i) T (tabs view w')"
    "\<forall>is. measure_installs sys clock us t0 p0 (int i # is) ss w =
       measure_installs sys clock us t0 p0 is (ss @ [v]) w'"
proof -
  obtain s w1 where 1: "monotonic_ns clock w = (Inr s, w1)" "agent_ok w1" "tabs view w1 = tabs view w"
    by (rule monotonic_spec [OF ok clock])
  with b have b1: "batch t0 p0 i T (tabs view w1)" by simp
  obtain w2 where 2: "install_default sys (t0 + int i) (p0 + int i) w1 = (Inr (), w2)" "agent_ok w2"
    "batch t0 p0 (Suc i) T (tabs view w2)"
    by (rule batch_step [OF 1(2) b1 room rng])
  obtain e w3 where 3: "monotonic_ns clock w2 = (Inr e, w3)" "agent_ok w3" "tabs view w3 = tabs view w2"
    by (rule monotonic_spec [OF 2(2) clock])
  show thesis by (rule that [of w3 "us (e - s)"]) (use 1 2 3 in \<open>simp_all add: py_simps\<close>)
qed

lemma measured_loop:
  assumes "agent_ok w" "clock_neutral view fd_path fd_avail clock" "batch t0 p0 i T (tabs view w)"
    "batch_room n T" "0 \<le> t0" "t0 + int n \<le> 2 ^ 32" "0 \<le> p0" "p0 + int n \<le> 2 ^ 32" "i \<le> n"
  shows "\<exists>w' vs. agent_ok w' \<and> batch t0 p0 n T (tabs view w') \<and> length vs = n - i \<and>
    (\<forall>is. measure_installs sys clock us t0 p0 (map int [i..<n] @ is) ss w =
       measure_installs sys clock us t0 p0 is (ss @ vs) w')"
  using assms
proof (induction "n - i" arbitrary: i w ss)
  case 0
  then show ?case by (intro exI [of _ w] exI [of _ "[]"]) simp
next
  case (Suc m)
  then have i: "i < n" by simp
  have m: "m = n - Suc i" using Suc.hyps(2) by simp
  let ?rest = "map int [Suc i..<n]"
  obtain w1 v where 1: "agent_ok w1" "batch t0 p0 (Suc i) T (tabs view w1)" and
    step: "\<forall>is. measure_installs sys clock us t0 p0 (int i # is) ss w =
       measure_installs sys clock us t0 p0 is (ss @ [v]) w1"
    by (rule measured_step [OF Suc.prems(1-8) i])
  obtain w2 vs where 2: "agent_ok w2" "batch t0 p0 n T (tabs view w2)" "length vs = n - Suc i"
    "\<forall>is. measure_installs sys clock us t0 p0 (?rest @ is) (ss @ [v]) w1 =
       measure_installs sys clock us t0 p0 is ((ss @ [v]) @ vs) w2"
    using Suc.hyps(1) [of "Suc i" w1 "ss @ [v]"] m Suc.prems 1 i by auto
  show ?case
    by (rule exI [of _ w2], rule exI [of _ "v # vs"])
      (use 2 step Suc.hyps(2) i in \<open>simp add: upt_conv_Cons\<close>)
qed

lemma remove_loop:
  assumes "agent_ok w" "tabs view w = without t0 p0 i T"
    "0 \<le> t0" "t0 + int n \<le> 2 ^ 32" "0 \<le> p0" "p0 + int n \<le> 2 ^ 32" "i \<le> n"
  shows "\<exists>w'. py_for (map int [i..<n]) (\<lambda>i. remove_session sys (t0 + i) (p0 + i)) w = (Inr (), w') \<and>
    agent_ok w' \<and> tabs view w' = without t0 p0 n T"
  using assms
proof (induction "n - i" arbitrary: i w)
  case 0
  then show ?case by (simp add: py_simps)
next
  case (Suc m)
  then have i: "i < n" and m: "m = n - Suc i" by simp_all
  obtain w1 where "remove_session sys (t0 + int i) (p0 + int i) w = (Inr (), w1)" "agent_ok w1"
    "tabs view w1 = without t0 p0 (Suc i) T"
    by (rule remove_session_spec [OF Suc.prems(1) in_u32_offset [OF Suc.prems(3,4) i]
          in_u32_offset [OF Suc.prems(5,6) i]])
      (use Suc.prems(2) in \<open>simp only: without_Suc\<close>)
  with Suc.hyps(1) [of "Suc i" w1] m Suc.prems i show ?case
    by (simp add: upt_conv_Cons py_simps)
qed

lemma measure_spec:
  assumes ok: "agent_ok w" and clock: "clock_neutral view fd_path fd_avail clock"
    and room: "batch_room (nat n) (tabs view w)"
  obtains w' T1 ms vs where "measure_rule_update sys clock us to_ms n w = (Inr (ms, vs), w')"
    "agent_ok w'" "length vs = nat n" "batch 0x10000 0x20000 (nat n) (tabs view w) T1"
    "tabs view w' = without 0x10000 0x20000 (nat n) T1"
proof -
  have n: "int (nat n) \<le> 4096" using room unfolding batch_room_def by linarith
  obtain s w1 where 1: "monotonic_ns clock w = (Inr s, w1)" "agent_ok w1" "tabs view w1 = tabs view w"
    by (rule monotonic_spec [OF ok clock])
  have b: "batch 0x10000 0x20000 0 (tabs view w) (tabs view w1)" using 1(3) by (simp add: batch_0)
  obtain w2 vs where 2: "agent_ok w2" "batch 0x10000 0x20000 (nat n) (tabs view w) (tabs view w2)"
    "length vs = nat n" and
    run: "\<forall>is. measure_installs sys clock us 0x10000 0x20000 (map int [0..<nat n] @ is) [] w1 =
       measure_installs sys clock us 0x10000 0x20000 is ([] @ vs) w2"
    using measured_loop [OF 1(2) clock b room, of us "[]"] n by auto
  obtain e w3 where 3: "monotonic_ns clock w2 = (Inr e, w3)" "agent_ok w3" "tabs view w3 = tabs view w2"
    by (rule monotonic_spec [OF 2(1) clock])
  obtain w4 where 4: "py_for (map int [0..<nat n]) (\<lambda>i. remove_session sys (0x10000 + i) (0x20000 + i)) w3 =
      (Inr (), w4)" "agent_ok w4" "tabs view w4 = without 0x10000 0x20000 (nat n) (tabs view w2)"
    using remove_loop [OF 3(2), of "0x10000" "0x20000" 0 "tabs view w2" "nat n"] 3(3) n
    by (auto simp: without_0)
  show thesis
    by (rule that [of "to_ms (e - s)" vs w4 "tabs view w2"])
      (use 1 2 3 4 spec [OF run, of "[]"] in
        \<open>simp_all add: measure_rule_update_def py_range_def py_simps\<close>)
qed

text \<open>When the PDR table fills up, the measurement raises and skips its cleanup.\<close>

lemma measure_full:
  assumes ok: "agent_ok w" and clock: "clock_neutral view fd_path fd_avail clock"
    and room: "batch_room m (tabs view w)" and m: "int m < n" "card (dom (pdr_table (tabs view w))) + m = 4096"
    and fresh: "\<forall>x \<in> ids 0x20000 (Suc m). pdr_table (tabs view w) x = None"
  obtains w' where "measure_rule_update sys clock us to_ms n w = (Inl (OSError E2BIG), w')"
    "agent_ok w'" "batch 0x10000 0x20000 m (tabs view w) (tabs view w')"
proof -
  obtain s w1 where 1: "monotonic_ns clock w = (Inr s, w1)" "agent_ok w1" "tabs view w1 = tabs view w"
    by (rule monotonic_spec [OF ok clock])
  have b: "batch 0x10000 0x20000 0 (tabs view w) (tabs view w1)" using 1(3) by (simp add: batch_0)
  obtain w2 vs where 2: "agent_ok w2" "batch 0x10000 0x20000 m (tabs view w) (tabs view w2)" and
    run: "\<forall>is. measure_installs sys clock us 0x10000 0x20000 (map int [0..<m] @ is) [] w1 =
       measure_installs sys clock us 0x10000 0x20000 is ([] @ vs) w2"
    using measured_loop [OF 1(2) clock b room, of us "[]"] m by auto
  obtain e w3 where 3: "monotonic_ns clock w2 = (Inr e, w3)" "agent_ok w3" "tabs view w3 = tabs view w2"
    by (rule monotonic_spec [OF 2(1) clock])
  have full: "\<not> hash_room 4096 (pdr_table (tabs view w3)) (word_of_int (0x20000 + int m))"
    using room m fresh 2(2) 3(3) unfolding batch_def batch_room_def
    by (intro batch_full [of "pdr_table (tabs view w)"]) auto
  obtain w4 where 4: "install_default sys (0x10000 + int m) (0x20000 + int m) w3 = (Inl (OSError E2BIG), w4)"
    "agent_ok w4" "tabs view w4 = tabs view w3"
    using install_session_failures(1) [OF 3(2), of "0x20000 + int m" 1 1 100 1 "0x10000 + int m"] full m
    by (auto simp: in_u32_def install_default_def)
  have "py_range n = map int [0..<m] @ int m # map int [Suc m..<nat n]"
    using m upt_add_eq_append [of 0 m "nat n - m"] by (simp add: py_range_def upt_conv_Cons)
  with run 1 3 4 2 that [of w4] show thesis
    by (simp add: measure_rule_update_def py_simps)
qed

end

subsection \<open>Properties\<close>

text \<open>
  C24. Bootstrapping: from any agent whose PDR and bundle tables have room for \<open>n\<close> more rules, \<^verbatim>\<open>bootstrap_initial\<close> returns.
  FAR 1 forwards to the configured interface and QER 1 is unlimited. One after the other, for every \<open>j < n\<close>, the
  packets see a state in which the session of TEID 0x1000 + j has just been installed, with its PDR 0x2000 + j and a
  bundle of generation 0. At the end all \<open>n\<close> PDRs and bundles and the last session are there; an earlier session can only be missing
  because the LRU table evicted it. No other rule is touched and referential integrity is kept.
\<close>

theorem bootstrap_initial_installs:
  assumes "bpf_kernel sys pinned view fd_path fd_avail"
    and "world_ok pinned (fd_path \<circ> fst) (fd_avail \<circ> fst) upf_defs w"
    and "batch_room (nat n) (tabs (view \<circ> fst) w)" and "in_u32 out"
  defines "T \<equiv> (tabs (view \<circ> fst) w)
       \<lparr>far_table := (far_table (tabs (view \<circ> fst) w))(1 \<mapsto> \<lparr>far_action = FAR_FORWARD,
          far_out_ifindex = word_of_int out, far_peer_ipv4_be = 0, far_out_teid_be = 0\<rparr>),
        qer_table := (qer_table (tabs (view \<circ> fst) w))(1 \<mapsto> \<lparr>qer_mbr_ul_bps = 0, qer_mbr_dl_bps = 0,
          qer_burst_bytes = 0, qer_pad = 0\<rparr>)\<rparr>"
  shows "\<exists>w' shots. bootstrap_initial (traced sys) n out w = (Inr (), w') \<and>
    world_ok pinned (fd_path \<circ> fst) (fd_avail \<circ> fst) upf_defs w' \<and> observed view w' = observed view w @ shots \<and>
    (\<forall>j < nat n. \<exists>A \<in> set shots. batch 0x1000 0x2000 (Suc j) T (tables_of A) \<and>
       teid_session (tables_of A) (word_of_int (0x1000 + int j)) = Some (mk_session (0x2000 + int j) 1 1)) \<and>
    batch 0x1000 0x2000 (nat n) T (tabs (view \<circ> fst) w') \<and>
    (refs_ok (tabs (view \<circ> fst) w) \<longrightarrow> refs_ok (tabs (view \<circ> fst) w'))"
proof -
  obtain w' shots where run: "bootstrap_initial (traced sys) n out w = (Inr (), w')"
    "world_ok pinned (fd_path \<circ> fst) (fd_avail \<circ> fst) upf_defs w'" "batch 0x1000 0x2000 (nat n) T (tabs (view \<circ> fst) w')"
    "observed view w' = observed view w @ shots" "\<forall>j < nat n. \<exists>A \<in> set shots. batch 0x1000 0x2000 (Suc j) T (tables_of A)"
    unfolding T_def by (rule bpf_kernel.bootstrap_shown [OF assms(1-4)])
  have last: "teid_session T' (word_of_int (0x1000 + int j)) = Some (mk_session (0x2000 + int j) 1 1)"
    if "batch 0x1000 0x2000 (Suc j) T T'" for j T'
    using that by (simp add: batch_def)
  have "refs_ok T \<longleftrightarrow> refs_ok (tabs (view \<circ> fst) w)" by (simp add: refs_ok_def T_def)
  then show ?thesis using run last batch_refs_ok [OF run(3)] by (intro exI conjI) blast+
qed

lemma start_room: "n \<le> 4096 \<Longrightarrow> batch_room n (tabs upf_view start_world)"
  by (simp add: batch_room_def start_tabs)

theorem bootstrap_initial_installs_witness:
  "\<exists>w' A. bootstrap_initial (traced upf_sys) 10 2 start_traced = (Inr (), w') \<and> A \<in> set (observed upf_view w') \<and>
     teid_session (tables_of A) 0x1003 = Some (mk_session 0x2003 1 1) \<and>
     pdr_table (tabs (upf_view \<circ> fst) w') 0x2009 = Some (mk_pdr 1 1 100 1) \<and>
     pdr_table (tabs (upf_view \<circ> fst) w') 0x200A = None \<and> refs_ok (tabs (upf_view \<circ> fst) w')"
proof -
  have ids: "(0x2009 :: u32) \<in> ids 0x2000 10" "(0x200A :: u32) \<notin> ids 0x2000 10"
    by (auto simp: ids_def image_iff lessThan_nat_numeral lessThan_Suc)
  have room: "batch_room (nat 10) (tabs (upf_view \<circ> fst) start_traced)"
    using start_room [of 10] by (simp add: start_traced_tabs)
  have out: "in_u32 2" by (simp add: in_u32_def)
  note boot = bootstrap_initial_installs [OF rk.bpf_kernel_axioms start_traced_ok room out]
  show ?thesis
    using boot
  proof (elim exE conjE, goal_cases)
    case (1 w' shots)
    have "\<exists>A \<in> set shots. teid_session (tables_of A) (word_of_int (0x1000 + int 3)) = Some (mk_session (0x2000 + int 3) 1 1)"
      using 1(4) [rule_format, of 3] by auto
    then obtain A where "A \<in> set shots" "teid_session (tables_of A) 0x1003 = Some (mk_session 0x2003 1 1)" by auto
    with 1 ids start_refs_ok show ?case by (intro exI [of _ w'] exI [of _ A]) (auto simp: batch_def start_traced_tabs start_tabs)
  qed
qed

text \<open>
  C25. The rule-update measurement cleans up after itself: with room for \<open>n\<close> more rules,
  \<^verbatim>\<open>measure_rule_update\<close> returns one sample per rule and afterwards the PDRs and bundles with the
  measurement's identifiers are gone, every other PDR and bundle is as before, and of the
  sessions outside the measurement's range none is altered (at most evicted).
\<close>

theorem measure_rule_update_cleans:
  assumes "bpf_kernel sys pinned view fd_path fd_avail"
    and "world_ok pinned fd_path fd_avail upf_defs w"
    and "clock_neutral view fd_path fd_avail clock" and "batch_room (nat n) (tabs view w)"
  shows "\<exists>w' ms samples. measure_rule_update sys clock to_us to_ms n w = (Inr (ms, samples), w') \<and>
    length samples = nat n \<and>
    pdr_table (tabs view w') =
      (\<lambda>x. if x \<in> ids 0x20000 (nat n) then None else pdr_table (tabs view w) x) \<and>
    tc_bundle_map (tabs view w') =
      (\<lambda>x. if x \<in> ids 0x20000 (nat n) then None else tc_bundle_map (tabs view w) x) \<and>
    far_table (tabs view w') = far_table (tabs view w) \<and> qer_table (tabs view w') = qer_table (tabs view w) \<and>
    (\<forall>x. if x \<in> ids 0x10000 (nat n) then teid_session (tabs view w') x = None
       else teid_session (tabs view w') x \<in> {None, teid_session (tabs view w) x})"
  by (rule bpf_kernel.measure_spec [OF assms, of to_us to_ms], intro exI conjI, assumption+)
    (auto simp: without_def batch_def fun_eq_iff)

lemma zero_clock: "clock_neutral view fd_path fd_avail (\<lambda>k. (0, k))"
  by (simp add: clock_neutral_def)

theorem measure_rule_update_cleans_witness:
  "\<exists>w' ms samples. measure_rule_update upf_sys (\<lambda>k. (0, k)) id id 100 start_world = (Inr (ms, samples), w') \<and>
     length samples = 100 \<and> pdr_table (tabs upf_view w') = Map.empty"
  using measure_rule_update_cleans [OF rk.bpf_kernel_axioms start_world_ok zero_clock start_room, of 100 id id]
  by (auto simp: start_tabs fun_eq_iff)

text \<open>
  C26. A measurement larger than the PDR table leaks: when only \<open>m < n\<close> entries are free,
  \<^verbatim>\<open>measure_rule_update\<close> raises \<^verbatim>\<open>OSError(E2BIG)\<close> out of its install loop, its cleanup loop is not
  reached, and the \<open>m\<close> PDRs and bundles installed so far stay in the maps.
\<close>

theorem measure_rule_update_leaks:
  assumes "bpf_kernel sys pinned view fd_path fd_avail"
    and "world_ok pinned fd_path fd_avail upf_defs w"
    and "clock_neutral view fd_path fd_avail clock" and "batch_room m (tabs view w)"
    and "int m < n" and "card (dom (pdr_table (tabs view w))) + m = 4096"
    and "\<forall>x \<in> ids 0x20000 (Suc m). pdr_table (tabs view w) x = None"
  shows "\<exists>w'. measure_rule_update sys clock to_us to_ms n w = (Inl (OSError E2BIG), w') \<and>
    batch 0x10000 0x20000 m (tabs view w) (tabs view w')"
  by (rule bpf_kernel.measure_full [OF assms, of to_us to_ms]) blast

theorem measure_rule_update_leaks_witness:
  "\<exists>w'. measure_rule_update upf_sys (\<lambda>k. (0, k)) id id 4097 start_world = (Inl (OSError E2BIG), w') \<and>
     pdr_table (tabs upf_view w') 0x20000 = Some (mk_pdr 1 1 100 1)"
proof -
  have "(0x20000 :: u32) \<in> ids 0x20000 4096" by (auto simp: ids_def image_iff intro!: bexI [of _ 0])
  then show ?thesis
    using measure_rule_update_leaks [OF rk.bpf_kernel_axioms start_world_ok zero_clock start_room,
        of 4096 4097 id id]
    by (auto simp: start_tabs batch_def)
qed

end
