(* ===== verification/Py_Text.thy ===== *)
theory Py_Text
  imports Py_Struct
begin

text \<open>
  The text side of the Python code: JSON values as \<^verbatim>\<open>json.loads\<close> returns them, \<^verbatim>\<open>int(s, 0)\<close>,
  \<^verbatim>\<open>bytes(iterable)\<close>, decimal and two-digit hexadecimal formatting, and \<^verbatim>\<open>str.join\<close>.
\<close>

subsection \<open>JSON values\<close>

datatype json =
    JNull | JBool bool | JInt int | JStr string | JArr "json list" | JObj "(string \<times> json) list"

text \<open>\<^verbatim>\<open>v[name]\<close>, \<^verbatim>\<open>v.get(name, [])\<close> and the iteration of a list.\<close>

fun json_item :: "json \<Rightarrow> string \<Rightarrow> json res" where
  "json_item (JObj kvs) name = (case map_of kvs name of Some v \<Rightarrow> Inr v | None \<Rightarrow> Inl KeyError)"
| "json_item _ name = Inl TypeError"

fun json_get_list :: "json \<Rightarrow> string \<Rightarrow> json res" where
  "json_get_list (JObj kvs) name = (case map_of kvs name of Some v \<Rightarrow> Inr v | None \<Rightarrow> Inr (JArr []))"
| "json_get_list _ name = Inl AttributeError"

text \<open>Iterating an object yields its keys and iterating a string its characters.\<close>

fun json_iter :: "json \<Rightarrow> json list res" where
  "json_iter (JArr xs) = Inr xs"
| "json_iter (JObj kvs) = Inr (map (JStr \<circ> fst) kvs)"
| "json_iter (JStr s) = Inr (map (\<lambda>c. JStr [c]) s)"
| "json_iter _ = Inl TypeError"

subsection \<open>\<^verbatim>\<open>int(s, 0)\<close>\<close>

definition digit_val :: "char \<Rightarrow> int option" where
  "digit_val c =
     (let n = of_char c :: int in
      if 48 \<le> n \<and> n \<le> 57 then Some (n - 48)
      else if 97 \<le> n \<and> n \<le> 122 then Some (n - 87)
      else if 65 \<le> n \<and> n \<le> 90 then Some (n - 55)
      else None)"

text \<open>
  The digits after the prefix: single underscores may stand between digits. \<open>und\<close> says that
  the previous character was a digit (so that an underscore may follow).
\<close>

fun parse_digits :: "int \<Rightarrow> bool \<Rightarrow> int \<Rightarrow> string \<Rightarrow> int res" where
  "parse_digits base und acc [] = (if und then Inr acc else Inl ValueError)"
| "parse_digits base und acc (c # cs) =
     (if c = CHR ''_'' then (if und then parse_digits base False acc cs else Inl ValueError)
      else case digit_val c of
          Some d \<Rightarrow> if d < base then parse_digits base True (acc * base + d) cs else Inl ValueError
        | None \<Rightarrow> Inl ValueError)"

definition is_space :: "char \<Rightarrow> bool" where
  "is_space c \<longleftrightarrow> of_char c \<in> {9, 10, 11, 12, 13, 28, 29, 30, 31, 32, 133, 160 :: nat}"

definition strip :: "string \<Rightarrow> string" where
  "strip s = rev (dropWhile is_space (rev (dropWhile is_space s)))"

text \<open>After a base prefix one underscore may precede the digits.\<close>

fun parse_unsigned :: "string \<Rightarrow> int res" where
  "parse_unsigned [] = Inl ValueError"
| "parse_unsigned [c] = parse_digits 10 False 0 [c]"
| "parse_unsigned (c # d # cs) =
     (let prefixed = (\<lambda>base. parse_digits base True 0 cs) in
      if c = CHR ''0'' \<and> cs \<noteq> [] \<and> d \<in> {CHR ''x'', CHR ''X''} then prefixed 16
      else if c = CHR ''0'' \<and> cs \<noteq> [] \<and> d \<in> {CHR ''o'', CHR ''O''} then prefixed 8
      else if c = CHR ''0'' \<and> cs \<noteq> [] \<and> d \<in> {CHR ''b'', CHR ''B''} then prefixed 2
      else res_bind (parse_digits 10 False 0 (c # d # cs))
        (\<lambda>v. if c = CHR ''0'' \<and> v \<noteq> 0 then Inl ValueError else Inr v))"

definition int_of_text :: "string \<Rightarrow> int res" where
  "int_of_text s =
     (case strip s of
        [] \<Rightarrow> Inl ValueError
      | c # cs \<Rightarrow>
          if c = CHR ''-'' then res_bind (parse_unsigned cs) (\<lambda>v. Inr (- v))
          else if c = CHR ''+'' then parse_unsigned cs
          else parse_unsigned (c # cs))"

text \<open>\<^verbatim>\<open>int(x, 0)\<close> accepts strings only.\<close>

fun json_int0 :: "json \<Rightarrow> int res" where
  "json_int0 (JStr s) = int_of_text s"
| "json_int0 _ = Inl TypeError"

text \<open>\<^verbatim>\<open>bytes(ints)\<close>\<close>

definition py_byte :: "int \<Rightarrow> u8 res" where
  "py_byte v = (if 0 \<le> v \<and> v < 256 then Inr (word_of_int v) else Inl ValueError)"

definition json_bytes :: "json \<Rightarrow> bytes res" where
  "json_bytes j = res_bind (json_iter j) (res_map (\<lambda>b. res_bind (json_int0 b) py_byte))"

subsection \<open>Formatting\<close>

definition digit_char :: "nat \<Rightarrow> char" where
  "digit_char d = (if d < 10 then char_of (48 + d) else char_of (87 + d))"

text \<open>The format \<^verbatim>\<open>0x{x:02x}\<close>.\<close>

definition hex_byte :: "u8 \<Rightarrow> string" where
  "hex_byte b = ''0x'' @ [digit_char (unat b div 16), digit_char (unat b mod 16)]"

fun dec_digits :: "nat \<Rightarrow> string" where
  "dec_digits n = (if n < 10 then [digit_char n] else dec_digits (n div 10) @ [digit_char (n mod 10)])"

definition str_int :: "int \<Rightarrow> string" where
  "str_int v = (if v < 0 then CHR ''-'' # dec_digits (nat (- v)) else dec_digits (nat v))"

fun str_join :: "string \<Rightarrow> string list \<Rightarrow> string" where
  "str_join sep [] = []"
| "str_join sep [x] = x"
| "str_join sep (x # y # zs) = x @ sep @ str_join sep (y # zs)"

declare dec_digits.simps [simp del]

lemma of_digit_char: "d < 16 \<Longrightarrow> of_char (digit_char d) = (if d < 10 then 48 + d else 87 + d)"
  by (simp add: digit_char_def)

lemma digit_facts [simp]:
  assumes "d < 16"
  shows "digit_val (digit_char d) = Some (int d)" "digit_char d \<noteq> CHR ''_''" "\<not> is_space (digit_char d)"
    "digit_char d \<noteq> CHR ''-''" "digit_char d \<noteq> CHR ''+''"
proof -
  note code = of_digit_char [OF assms]
  have "(of_char (digit_char d) :: int) = int (of_char (digit_char d))" by (simp only: of_nat_of_char)
  then show "digit_val (digit_char d) = Some (int d)" using assms code by (simp add: digit_val_def)
  show "\<not> is_space (digit_char d)" using code assms by (auto simp: is_space_def split: if_splits)
  have "digit_char d \<noteq> c" if "of_char c \<in> {43, 45, 95 :: nat}" for c
    using that code assms by (auto split: if_splits)
  then show "digit_char d \<noteq> CHR ''_''" "digit_char d \<noteq> CHR ''-''" "digit_char d \<noteq> CHR ''+''"
    by simp_all
qed

lemma hex_digits: "unat (b :: u8) div 16 < 16" "unat b mod 16 < 16"
  using unsigned_less [of b, where ?'a = nat] by (simp_all add: less_mult_imp_div_less)

lemma not_space_0 [simp]: "\<not> is_space CHR ''0''"
  by code_simp

text \<open>\<^verbatim>\<open>int("0x%02x" % b, 0)\<close> is \<open>b\<close>.\<close>

lemma int_of_hex_byte: "int_of_text (hex_byte b) = Inr (uint b)"
proof -
  have "int (unat b div 16) * 16 + int (unat b mod 16) = int (unat b div 16 * 16 + unat b mod 16)"
    unfolding of_nat_add of_nat_mult by simp
  also have "\<dots> = uint b" by (simp only: div_mult_mod_eq uint_nat)
  finally show ?thesis
    using hex_digits [of b] by (simp add: int_of_text_def strip_def hex_byte_def)
qed

lemma json_bytes_hex: "json_bytes (JArr (map (JStr \<circ> hex_byte) bs)) = Inr bs"
proof -
  have "res_map (\<lambda>b. res_bind (json_int0 b) py_byte) (map (JStr \<circ> hex_byte) bs) = Inr bs"
  proof (induction bs)
    case (Cons b bs)
    have "0 \<le> uint b \<and> uint b < 256" using uint_lt2p [of b] by simp
    with Cons show ?case by (simp add: int_of_hex_byte py_byte_def)
  qed simp
  then show ?thesis by (simp add: json_bytes_def)
qed

end
