(* ===== verification/Agent_Metrics.thy ===== *)
theory Agent_Metrics
  imports Py_Text Upf_Maps
begin

text \<open>
  The counters the agent exports: \<^verbatim>\<open>read_metrics\<close>, \<^verbatim>\<open>prometheus_text\<close> and \<^verbatim>\<open>read_urr\<close> of
  \<^verbatim>\<open>loader/agent.py\<close>. What \<^verbatim>\<open>map_dump\<close> returns (the JSON that \<^verbatim>\<open>bpftool map dump\<close> prints) is a
  parameter \<open>dump\<close>; \<open>percpu_dump\<close> is its documented form for a per-CPU map, on which the
  properties are stated.
\<close>

definition METRIC_NAMES :: "string list" where
  "METRIC_NAMES =
     [''rx_total'', ''rx_gtpu'', ''rx_gpdu'',
      ''hit'', ''miss_teid'', ''miss_pdr'',
      ''pass_nongtp'', ''pass_ctrl'', ''drop_parse'',
      ''tc_miss_far'', ''tc_far_drop'', ''tc_far_forward'', ''tc_far_buffer'',
      ''tc_decap_err'', ''tc_redirect_err'', ''tc_qer_pass'', ''tc_qer_drop'',
      ''tc_urr_updated'', ''tc_dl_hit'', ''tc_dl_miss'', ''tc_dl_encap_err'']"

definition bytes_to_hexargs :: "bytes \<Rightarrow> string list" where
  "bytes_to_hexargs b = map hex_byte b"

text \<open>\<^verbatim>\<open>struct.unpack(fmt, bytes(int(b, 0) for b in v[name]))\<close>\<close>

definition unpack_hex :: "fmt_char list \<Rightarrow> json \<Rightarrow> string \<Rightarrow> int list res" where
  "unpack_hex fmt v name =
     res_bind (json_item v name) (\<lambda>hs. res_bind (json_bytes hs) (struct_unpack Little fmt))"

fun sum_values :: "json list \<Rightarrow> int \<Rightarrow> int res" where
  "sum_values [] tot = Inr tot"
| "sum_values (v # vs) tot =
     res_bind (unpack_hex [FmtQ] v ''value'') (\<lambda>u. sum_values vs (tot + u ! 0))"

fun read_entries :: "json list \<Rightarrow> (string \<rightharpoonup> int) \<Rightarrow> (string \<rightharpoonup> int) res" where
  "read_entries [] out = Inr out"
| "read_entries (entry # raw) out =
     res_bind (unpack_hex [FmtI] entry ''key'') (\<lambda>k.
       let idx = k ! 0 in
       if idx \<ge> int (length METRIC_NAMES) then read_entries raw out
       else res_bind (json_get_list entry ''values'') (\<lambda>vs.
            res_bind (json_iter vs) (\<lambda>vs.
            res_bind (sum_values vs 0) (\<lambda>tot.
            read_entries raw (out(METRIC_NAMES ! nat idx \<mapsto> tot))))))"

definition read_metrics :: "json \<Rightarrow> (string \<rightharpoonup> int) res" where
  "read_metrics dump = res_bind (json_iter dump) (\<lambda>raw. read_entries raw Map.empty)"

definition metric_line :: "(string \<rightharpoonup> int) \<Rightarrow> string \<Rightarrow> string" where
  "metric_line m name =
     ''upf_packets_total{stage='' @ [CHR 0x22] @ name @ [CHR 0x22] @ ''} '' @
     str_int (case m name of Some v \<Rightarrow> v | None \<Rightarrow> 0)"

definition prometheus_text :: "json \<Rightarrow> string res" where
  "prometheus_text dump =
     res_bind (read_metrics dump) (\<lambda>m.
       let lines = [''# HELP upf_packets_total UPF packet counters by stage'',
                    ''# TYPE upf_packets_total counter''] @ map (metric_line m) METRIC_NAMES
       in Inr (str_join [CHR 0x0A] lines @ [CHR 0x0A]))"

text \<open>The pair is the dictionary's \<^verbatim>\<open>bytes_ul\<close> and \<^verbatim>\<open>pkts_ul\<close>; \<open>None\<close> is Python's \<^verbatim>\<open>None\<close>.\<close>

fun sum_urr :: "json list \<Rightarrow> int \<times> int \<Rightarrow> (int \<times> int) res" where
  "sum_urr [] acc = Inr acc"
| "sum_urr (v # vs) (bytes_ul, pkts_ul) =
     res_bind (unpack_hex [FmtQ, FmtQ, FmtQ, FmtQ] v ''value'')
       (\<lambda>u. sum_urr vs (bytes_ul + u ! 0, pkts_ul + u ! 2))"

fun find_urr :: "int \<Rightarrow> json list \<Rightarrow> (int \<times> int) option res" where
  "find_urr urr_id [] = Inr None"
| "find_urr urr_id (entry # raw) =
     res_bind (unpack_hex [FmtI] entry ''key'') (\<lambda>k.
       if k ! 0 \<noteq> urr_id then find_urr urr_id raw
       else res_bind (json_get_list entry ''values'') (\<lambda>vs.
            res_bind (json_iter vs) (\<lambda>vs.
            res_bind (sum_urr vs (0, 0)) (\<lambda>s. Inr (Some s)))))"

definition read_urr :: "json \<Rightarrow> int \<Rightarrow> (int \<times> int) option res" where
  "read_urr dump urr_id = res_bind (json_iter dump) (find_urr urr_id)"

subsection \<open>The dump of a per-CPU map\<close>

text \<open>
  One object per key, with the key's bytes and one value per CPU, each byte as a hexadecimal
  string: the form the comment in \<^verbatim>\<open>read_metrics\<close> gives.
\<close>

definition hex_json :: "bytes \<Rightarrow> json" where
  "hex_json bs = JArr (map JStr (bytes_to_hexargs bs))"

definition percpu_entry :: "bytes \<Rightarrow> bytes list \<Rightarrow> json" where
  "percpu_entry key vals =
     JObj [(''key'', hex_json key),
           (''values'', JArr (map (\<lambda>(cpu, v). JObj [(''cpu'', JInt (int cpu)), (''value'', hex_json v)])
              (enumerate 0 vals)))]"

definition percpu_dump :: "(bytes \<times> bytes list) list \<Rightarrow> json" where
  "percpu_dump m = JArr (map (\<lambda>(k, vs). percpu_entry k vs) m)"

text \<open>The name under which each enumerator of \<^verbatim>\<open>enum metric_idx\<close> is exported.\<close>

fun metric_label :: "metric_idx \<Rightarrow> string" where
  "metric_label M_RX_TOTAL = ''rx_total''"
| "metric_label M_RX_GTPU = ''rx_gtpu''"
| "metric_label M_RX_GPDU = ''rx_gpdu''"
| "metric_label M_HIT = ''hit''"
| "metric_label M_MISS_TEID = ''miss_teid''"
| "metric_label M_MISS_PDR = ''miss_pdr''"
| "metric_label M_PASS_NONGTP = ''pass_nongtp''"
| "metric_label M_PASS_CTRL = ''pass_ctrl''"
| "metric_label M_DROP_PARSE = ''drop_parse''"
| "metric_label M_TC_MISS_FAR = ''tc_miss_far''"
| "metric_label M_TC_FAR_DROP = ''tc_far_drop''"
| "metric_label M_TC_FAR_FORWARD = ''tc_far_forward''"
| "metric_label M_TC_FAR_BUFFER = ''tc_far_buffer''"
| "metric_label M_TC_DECAP_ERR = ''tc_decap_err''"
| "metric_label M_TC_REDIRECT_ERR = ''tc_redirect_err''"
| "metric_label M_TC_QER_PASS = ''tc_qer_pass''"
| "metric_label M_TC_QER_DROP = ''tc_qer_drop''"
| "metric_label M_TC_URR_UPDATED = ''tc_urr_updated''"
| "metric_label M_TC_DL_HIT = ''tc_dl_hit''"
| "metric_label M_TC_DL_MISS = ''tc_dl_miss''"
| "metric_label M_TC_DL_ENCAP_ERR = ''tc_dl_encap_err''"

text \<open>The dump of the metrics map when metric \<open>m\<close> has the per-CPU counters \<open>c m\<close>.\<close>

definition metrics_dump :: "(metric_idx \<Rightarrow> u64 list) \<Rightarrow> json" where
  "metrics_dump c =
     percpu_dump (map (\<lambda>(i, m). (le_bytes 4 (int i), map (\<lambda>v. le_bytes 8 (uint v)) (c m)))
       (enumerate 0 metric_enum))"

lemma names_labels: "METRIC_NAMES = map metric_label metric_enum"
  by (simp add: METRIC_NAMES_def metric_enum_def)

lemma metric_label_inj: "metric_label m = metric_label m' \<longleftrightarrow> m = m'"
  by (cases m; cases m'; simp)

lemma json_bytes_hex_json [simp]: "json_bytes (hex_json bs) = Inr bs"
  using json_bytes_hex [of bs] by (simp add: hex_json_def bytes_to_hexargs_def)

lemma unpack_percpu [simp]:
  "unpack_hex fmt (percpu_entry k vs) ''key'' = struct_unpack Little fmt k"
  "json_get_list (percpu_entry k vs) ''values'' =
     Inr (JArr (map (\<lambda>(cpu, v). JObj [(''cpu'', JInt (int cpu)), (''value'', hex_json v)]) (enumerate 0 vs)))"
  "unpack_hex fmt (JObj [(''cpu'', c), (''value'', hex_json v)]) ''value'' = struct_unpack Little fmt v"
  by (simp_all add: unpack_hex_def percpu_entry_def)

lemma unpack_u32: "0 \<le> v \<Longrightarrow> v < 2 ^ 32 \<Longrightarrow> struct_unpack Little [FmtI] (le_bytes 4 v) = Inr [v]"
  using struct_unpack_pack [of Little "[FmtI]" "[v]" "le_bytes 4 v"]
  by (simp add: fmt_ok_def int_bytes_def del: le_bytes.simps)

lemma unpack_u64: "struct_unpack Little [FmtQ] (le_bytes 8 (uint (v :: u64))) = Inr [uint v]"
  using struct_unpack_pack [of Little "[FmtQ]" "[uint v]" "le_bytes 8 (uint v)"] uint_lt2p [of v]
  by (simp add: fmt_ok_def int_bytes_def del: le_bytes.simps)

lemma sum_values_percpu:
  "sum_values (map (\<lambda>(cpu, v). JObj [(''cpu'', JInt (int cpu)), (''value'', hex_json v)])
     (enumerate n (map (\<lambda>v. le_bytes 8 (uint v)) vs))) acc = Inr (acc + (\<Sum>v \<leftarrow> vs. uint (v :: u64)))"
  by (induction vs arbitrary: n acc) (simp_all add: unpack_u64 del: le_bytes.simps)

lemma read_entries_percpu:
  assumes "\<forall>(i, vs) \<in> set xs. i < length METRIC_NAMES"
  shows "read_entries (map (\<lambda>(k, vs). percpu_entry k vs)
      (map (\<lambda>(i, vs). (le_bytes 4 (int i), map (\<lambda>v. le_bytes 8 (uint v)) vs)) xs)) out =
    Inr (out ++ map_of (rev (map (\<lambda>(i, vs). (METRIC_NAMES ! i, \<Sum>v \<leftarrow> vs. uint (v :: u64))) xs)))"
  using assms
proof (induction xs arbitrary: out)
  case (Cons x xs)
  obtain i vs where x: "x = (i, vs)" by (cases x)
  have i: "i < length METRIC_NAMES" "int i < 2 ^ 32" using Cons.prems x by (auto simp: METRIC_NAMES_def)
  with Cons x show ?case by (simp add: unpack_u32 sum_values_percpu del: le_bytes.simps)
qed simp

lemma map_of_labels:
  assumes "x \<in> set ms" "distinct ms"
  shows "map_of (map (\<lambda>m. (metric_label m, f m)) ms) (metric_label x) = Some (f x)"
  using assms by (induction ms) (auto simp: metric_label_inj)

lemma enumerate_labels:
  "map (\<lambda>(i, vs). (METRIC_NAMES ! i, f vs)) (map (\<lambda>(i, m). (i, c m)) (enumerate 0 metric_enum)) =
   map (\<lambda>m. (metric_label m, f (c m))) metric_enum"
  by (simp add: names_labels metric_enum_def)

lemma read_metrics_dump:
  "read_metrics (metrics_dump c) =
     Inr (map_of (rev (map (\<lambda>m. (metric_label m, \<Sum>v \<leftarrow> c m. uint v)) metric_enum)))"
proof -
  let ?xs = "map (\<lambda>(i, m). (i, c m)) (enumerate 0 metric_enum)"
  have "\<forall>(i, vs) \<in> set ?xs. i < length METRIC_NAMES"
    by (auto simp: names_labels in_set_enumerate_eq)
  from read_entries_percpu [OF this, of Map.empty] show ?thesis
    by (simp only: enumerate_labels)
      (simp add: read_metrics_def metrics_dump_def percpu_dump_def case_prod_beta comp_def
        del: le_bytes.simps)
qed

subsection \<open>Properties\<close>

text \<open>
  C39. Metrics: on the dump of the per-CPU metrics map, \<^verbatim>\<open>read_metrics\<close> raises nothing and gives,
  under the name of each enumerator of \<^verbatim>\<open>enum metric_idx\<close>, the sum of that counter over the CPUs
  (as an unbounded integer, without wrap-around); so \<^verbatim>\<open>METRIC_NAMES\<close> and the C enumeration agree
  entry by entry.
\<close>

theorem read_metrics_sums:
  "\<exists>out. read_metrics (metrics_dump c) = Inr out \<and>
     (\<forall>m. out (metric_label m) = Some (\<Sum>v \<leftarrow> c m. uint v)) \<and>
     dom out = set METRIC_NAMES"
proof (intro exI conjI allI)
  show "read_metrics (metrics_dump c) =
     Inr (map_of (rev (map (\<lambda>m. (metric_label m, \<Sum>v \<leftarrow> c m. uint v)) metric_enum)))"
    by (rule read_metrics_dump)
  show "map_of (rev (map (\<lambda>m. (metric_label m, \<Sum>v \<leftarrow> c m. uint v)) metric_enum)) (metric_label m) =
     Some (\<Sum>v \<leftarrow> c m. uint v)" for m
    unfolding rev_map by (rule map_of_labels) (simp_all add: metric_enum_complete)
qed (simp add: dom_map_of_conv_image_fst names_labels image_image)

text \<open>
  The Prometheus page: \<^verbatim>\<open>prometheus_text\<close> of that dump is the two header lines followed by
  one line per enumerator, in the order of the enumeration, each with its total and every line
  ended by a newline.
\<close>

lemma prometheus_text_lines:
  "prometheus_text (metrics_dump c) =
     Inr (concat (map (\<lambda>l. l @ [CHR 0x0A])
       ([''# HELP upf_packets_total UPF packet counters by stage'', ''# TYPE upf_packets_total counter''] @
        map (\<lambda>m. ''upf_packets_total{stage='' @ [CHR 0x22] @ metric_label m @ [CHR 0x22] @ ''} '' @
          str_int (\<Sum>v \<leftarrow> c m. uint v)) metric_enum)))"
proof -
  have join: "str_join [CHR 0x0A] (x # xs) @ [CHR 0x0A] = concat (map (\<lambda>l. l @ [CHR 0x0A]) (x # xs))" for x xs
    by (induction xs arbitrary: x) auto
  let ?out = "map_of (rev (map (\<lambda>m. (metric_label m, \<Sum>v \<leftarrow> c m. uint v)) metric_enum))"
  have "?out (metric_label m) = Some (\<Sum>v \<leftarrow> c m. uint v)" for m
    unfolding rev_map by (rule map_of_labels) (simp_all add: metric_enum_complete)
  then have "map (metric_line ?out) METRIC_NAMES =
      map (\<lambda>m. ''upf_packets_total{stage='' @ [CHR 0x22] @ metric_label m @ [CHR 0x22] @ ''} '' @
          str_int (\<Sum>v \<leftarrow> c m. uint v)) metric_enum"
    by (simp add: names_labels metric_line_def)
  then show ?thesis
    unfolding prometheus_text_def read_metrics_dump
    by (simp only: res_bind_simps Let_def append_Cons append_Nil join)
qed


end
