(* ===== verification/Netlink.thy ===== *)
theory Netlink
  imports Py_Struct
begin

text \<open>
  Netlink attributes as \<^verbatim>\<open>results_native/gtp5g_baseline/gtp5g_genl.py\<close> builds them, and the netlink
  socket the clients talk through. An attribute is a 4-byte header (length, type), the payload
  and zero padding to a multiple of four. \<open>parse_attrs\<close> is the reading of such a stream that
  the netlink format prescribes; the round trip of the builders against it is the property.

  The kernel side of a socket is the parameter \<open>nk\<close>: it answers a message with the datagrams
  it queues for the sender, or refuses it with an exception of \<^verbatim>\<open>send\<close>. The sockets are blocking,
  so that \<^verbatim>\<open>recv\<close> on an empty queue does not return: the computation is then \<open>None\<close>.
\<close>

named_theorems nl_simps \<open>evaluation of netlink socket code\<close>

subsection \<open>Attribute builders\<close>

definition nla :: "int \<Rightarrow> bytes \<Rightarrow> bytes res" where
  "nla nla_type payload =
     (let len = 4 + int (length payload) in
      res_bind (struct_pack Little [FmtH, FmtH] [len, nla_type]) (\<lambda>header.
      let padded = header @ payload;
          pad_len = (4 - (len mod 4)) mod 4
      in Inr (padded @ replicate (nat pad_len) 0)))"

definition nla_nested :: "int \<Rightarrow> bytes list \<Rightarrow> bytes res" where
  "nla_nested nla_type attrs = nla nla_type (concat attrs)"

definition nla_u8 :: "int \<Rightarrow> int \<Rightarrow> bytes res" where
  "nla_u8 nla_type v = res_bind (struct_pack Little [FmtB] [v]) (nla nla_type)"

definition nla_u16 :: "int \<Rightarrow> int \<Rightarrow> bytes res" where
  "nla_u16 nla_type v = res_bind (struct_pack Little [FmtH] [v]) (nla nla_type)"

definition nla_u32 :: "int \<Rightarrow> int \<Rightarrow> bytes res" where
  "nla_u32 nla_type v = res_bind (struct_pack Little [FmtI] [v]) (nla nla_type)"

definition nla_be32 :: "int \<Rightarrow> int \<Rightarrow> bytes res" where
  "nla_be32 nla_type v = res_bind (struct_pack Big [FmtI] [v]) (nla nla_type)"

text \<open>\<^verbatim>\<open>a += b\<close> on byte strings whose right-hand side may raise.\<close>

definition cat :: "bytes \<Rightarrow> bytes res \<Rightarrow> bytes res" where
  "cat a r = res_bind r (\<lambda>b. Inr (a @ b))"

text \<open>\<^verbatim>\<open>str.encode()\<close>: UTF-8, for the code points below 256 that the model's characters have.\<close>

definition utf8_char :: "char \<Rightarrow> bytes" where
  "utf8_char c =
     (let n = of_char c :: nat in
      if n < 128 then [of_nat n] else [of_nat (192 + n div 64), of_nat (128 + n mod 64)])"

definition encode :: "string \<Rightarrow> bytes" where
  "encode s = concat (map utf8_char s)"

subsection \<open>Blocking sockets\<close>

type_synonym 'k nl_kernel = "bytes \<Rightarrow> 'k \<Rightarrow> bytes list res \<times> 'k"

record 'k nl_sock =
  rxq :: "bytes list"
  peer :: 'k

type_synonym ('s, 'a) io = "'s \<Rightarrow> ('a res \<times> 's) option"

definition io_return :: "'a \<Rightarrow> ('s, 'a) io" where
  "io_return x s = Some (Inr x, s)"

definition io_raise :: "py_error \<Rightarrow> ('s, 'a) io" where
  "io_raise e s = Some (Inl e, s)"

definition io_lift :: "'a res \<Rightarrow> ('s, 'a) io" where
  "io_lift r s = Some (r, s)"

definition io_bind :: "('s, 'a) io \<Rightarrow> ('a \<Rightarrow> ('s, 'b) io) \<Rightarrow> ('s, 'b) io" where
  "io_bind m f s =
     (case m s of
        None \<Rightarrow> None
      | Some (Inl e, s') \<Rightarrow> Some (Inl e, s')
      | Some (Inr x, s') \<Rightarrow> f x s')"

definition nl_send :: "'k nl_kernel \<Rightarrow> bytes \<Rightarrow> (('k, 'z) nl_sock_scheme, unit) io" where
  "nl_send nk msg s =
     (case nk msg (peer s) of
        (Inl e, k) \<Rightarrow> Some (Inl e, s\<lparr>peer := k\<rparr>)
      | (Inr replies, k) \<Rightarrow> Some (Inr (), s\<lparr>peer := k, rxq := rxq s @ replies\<rparr>))"

definition nl_recv :: "nat \<Rightarrow> (('k, 'z) nl_sock_scheme, bytes) io" where
  "nl_recv bufsize s =
     (case rxq s of [] \<Rightarrow> None | d # ds \<Rightarrow> Some (Inr (take bufsize d), s\<lparr>rxq := ds\<rparr>))"

subsection \<open>The netlink format\<close>

definition align4 :: "nat \<Rightarrow> nat" where
  "align4 n = (n + 3) div 4 * 4"

function parse_attrs :: "bytes \<Rightarrow> (int \<times> bytes) list option" where
  "parse_attrs bs =
     (if bs = [] then Some []
      else let len = nat (le_int (take 2 bs)); t = le_int (slice 2 4 bs) in
        if len < 4 \<or> length bs < len then None
        else map_option (Cons (t, slice 4 len bs)) (parse_attrs (drop (align4 len) bs)))"
  by pat_completeness auto
termination
  by (relation "measure length") (auto simp: align4_def)

declare parse_attrs.simps [simp del]

text \<open>An attribute the format can carry.\<close>

definition attr_ok :: "int \<times> bytes \<Rightarrow> bool" where
  "attr_ok a \<longleftrightarrow> 0 \<le> fst a \<and> fst a < 2 ^ 16 \<and> length (snd a) + 4 < 2 ^ 16"

definition attr_bytes :: "int \<times> bytes \<Rightarrow> bytes" where
  "attr_bytes a =
     le_bytes 2 (4 + int (length (snd a))) @ le_bytes 2 (fst a) @ snd a @
     replicate (align4 (length (snd a)) - length (snd a)) 0"

text \<open>The header of a message and an acknowledgement or error datagram, with its error number.\<close>

definition nlmsg_fields :: "bytes \<Rightarrow> int list option" where
  "nlmsg_fields d =
     (if 16 \<le> length d then Some (struct_fields Little [FmtI, FmtH, FmtH, FmtI, FmtI] d) else None)"

definition is_ack :: "int \<Rightarrow> bytes \<Rightarrow> bool" where
  "is_ack e d \<longleftrightarrow> 20 \<le> length d \<and> length d \<le> 65536 \<and> struct_fields Little [FmtI, FmtH, FmtH, FmtI, FmtI] d ! 1 = 2 \<and>
     struct_fields Little [Fmt_i] (drop 16 d) = [e]"

lemma io_simps [nl_simps]:
  "io_return x s = Some (Inr x, s)"
  "io_raise e s = Some (Inl e, s)"
  "io_lift r s = Some (r, s)"
  "m s = None \<Longrightarrow> io_bind m f s = None"
  "m s = Some (Inl e, s') \<Longrightarrow> io_bind m f s = Some (Inl e, s')"
  "m s = Some (Inr x, s') \<Longrightarrow> io_bind m f s = f x s'"
  by (simp_all add: io_return_def io_raise_def io_lift_def io_bind_def)

lemma io_bind_apply [nl_simps]:
  "io_bind (io_lift r) f s = (case r of Inl e \<Rightarrow> Some (Inl e, s) | Inr x \<Rightarrow> f x s)"
  "io_bind (io_return x) f s = f x s"
  by (auto simp: io_bind_def io_lift_def io_return_def split: sum.splits)

subsection \<open>The builders produce the format\<close>

lemma align4_facts: "n \<le> align4 n" "4 dvd align4 n" "align4 (n + 4) = align4 n + 4" "align4 n < n + 4"
  unfolding align4_def by presburger+

lemma pad_len_align: "nat ((4 - ((4 + int n) mod 4)) mod 4) = align4 n - n"
proof -
  have "int (align4 n) - int n = (4 - ((4 + int n) mod 4)) mod 4"
    unfolding align4_def by presburger
  then show ?thesis using align4_facts(1) [of n] by linarith
qed

lemma nla_eq: "nla t p = (if attr_ok (t, p) then Inr (attr_bytes (t, p)) else Inl StructError)"
proof -
  have "fmt_ok FmtH (4 + int (length p)) \<longleftrightarrow> length p + 4 < 2 ^ 16" by (auto simp: fmt_ok_def)
  moreover have "fmt_ok FmtH t \<longleftrightarrow> 0 \<le> t \<and> t < 2 ^ 16" by (simp add: fmt_ok_def)
  ultimately show ?thesis
    unfolding nla_def Let_def attr_ok_def attr_bytes_def pad_len_align
    by (simp add: int_bytes_def)
qed

lemma length_attr_bytes [layout_simps]:
  "length (attr_bytes a) = align4 (length (snd a)) + 4"
  using align4_facts(1) [of "length (snd a)"] by (simp add: attr_bytes_def)

lemma parse_attr_bytes:
  assumes "attr_ok a"
  shows "parse_attrs (attr_bytes a @ rest) = map_option (Cons a) (parse_attrs rest)"
proof -
  obtain t p where a: "a = (t, p)" by (rule prod.exhaust)
  let ?n = "length p" and ?bs = "attr_bytes a @ rest"
  have ok: "0 \<le> t" "t < 65536" "4 + int ?n < 65536" using assms by (simp_all add: a attr_ok_def)
  have bs: "?bs = le_bytes 2 (4 + int ?n) @ le_bytes 2 t @ p @ replicate (align4 ?n - ?n) 0 @ rest"
    by (simp add: a attr_bytes_def)
  have len: "nat (le_int (take 2 ?bs)) = ?n + 4"
    unfolding bs using ok by (simp add: le_int_le_bytes del: le_bytes.simps)
  have ty: "le_int (slice 2 4 ?bs) = t"
    unfolding bs using ok by (simp add: slice_def le_int_le_bytes del: le_bytes.simps)
  have pay: "slice 4 (?n + 4) ?bs = p"
    unfolding bs by (simp add: slice_def del: le_bytes.simps)
  have "length (attr_bytes a) = align4 (?n + 4)"
    by (simp add: length_attr_bytes a align4_facts)
  then have rest: "drop (align4 (?n + 4)) ?bs = rest" by simp
  have "?n + 4 \<le> length ?bs" using align4_facts(1) [of ?n] by (simp add: length_attr_bytes a)
  moreover have "?bs \<noteq> []" unfolding bs by (simp add: numeral_2_eq_2)
  ultimately show ?thesis
    unfolding parse_attrs.simps [of ?bs] Let_def len ty pay rest by (simp only: if_False a) simp
qed

lemma parse_attrs_Nil [simp]: "parse_attrs [] = Some []"
  by (simp add: parse_attrs.simps)

lemma parse_attrs_concat:
  "list_all attr_ok as \<Longrightarrow> parse_attrs (concat (map attr_bytes as)) = Some as"
  by (induction as) (simp_all add: parse_attr_bytes)

lemma length_attrs_aligned: "4 dvd length (concat (map attr_bytes as))"
  by (induction as) (simp_all add: length_attr_bytes align4_facts)

lemma res_map_nla:
  "res_map (\<lambda>(t, p). nla t p) as =
     (if list_all attr_ok as then Inr (map attr_bytes as) else Inl StructError)"
  by (induction as) (auto simp: nla_eq)

text \<open>
  Round trip of the attribute builder: a list of attributes is refused with \<^verbatim>\<open>struct.error\<close>
  exactly when one of them has a type outside 16 bits or does not fit the 16-bit length;
  otherwise the concatenation of what \<^verbatim>\<open>nla\<close> builds is aligned to four bytes and reads back, by the
  netlink format, as exactly these attributes in this order.
\<close>

lemma nla_round_trip:
  "case res_map (\<lambda>(t, p). nla t p) as of
     Inl e \<Rightarrow> e = StructError \<and> (\<exists>a \<in> set as. \<not> attr_ok a)
   | Inr bss \<Rightarrow> list_all attr_ok as \<and> 4 dvd length (concat bss) \<and> parse_attrs (concat bss) = Some as"
  using parse_attrs_concat [of as] length_attrs_aligned [of as]
  by (auto simp: res_map_nla list_all_iff)

end
