(* ===== verification/Agent_Http.thy ===== *)
theory Agent_Http
  imports Agent_Batch Agent_Metrics Netlink
begin

text \<open>
  The request handler of \<^verbatim>\<open>loader/agent.py\<close>: \<^verbatim>\<open>Handler._send\<close> and \<^verbatim>\<open>Handler.do_GET\<close>. A request either
  raises (\<^verbatim>\<open>http.server\<close> then drops the connection without a response) or writes one response. The
  query string is split as \<^verbatim>\<open>urlparse\<close> and \<^verbatim>\<open>parse_qs\<close> do for a path of this form. Parameters: the map dump
  (\<^verbatim>\<open>sudo bpftool\<close>), the clock, percent-decoding (\<open>unquote\<close>), the floating-point conversions, the two
  products of the sample count with 0.95 and 0.99 (\<open>i95\<close>, \<open>i99\<close>), and \<open>dumps\<close>, the JSON text of a body.
\<close>

subsection \<open>Responses\<close>

record response =
  r_status :: int
  r_type :: string
  r_length :: int
  r_body :: bytes

definition send_response :: "int \<Rightarrow> bytes \<Rightarrow> string \<Rightarrow> response" where
  "send_response code b ctype =
     \<lparr>r_status = code, r_type = ctype, r_length = int (length b), r_body = b\<rparr>"

definition text_plain :: string where
  "text_plain = ''text/plain; charset=utf-8''"

subsection \<open>The query\<close>

definition query_of :: "string \<Rightarrow> string" where
  "query_of path =
     (let url = takeWhile (\<lambda>c. c \<noteq> CHR ''#'') path in tl (dropWhile (\<lambda>c. c \<noteq> CHR ''?'') url))"

fun split_on :: "char \<Rightarrow> string \<Rightarrow> string list" where
  "split_on sep [] = [[]]"
| "split_on sep (c # cs) =
     (if c = sep then [] # split_on sep cs
      else case split_on sep cs of x # xs \<Rightarrow> (c # x) # xs | [] \<Rightarrow> [[c]])"

text \<open>
  \<^verbatim>\<open>parse_qs\<close>: fields without an equal sign or with an empty value are dropped; a plus sign stands
  for a blank. The result is an association list, in the order of the fields.
\<close>

definition qs_field :: "(string \<Rightarrow> string) \<Rightarrow> string \<Rightarrow> (string \<times> string) list" where
  "qs_field unquote f =
     (let name = takeWhile (\<lambda>c. c \<noteq> CHR ''='') f;
          v = tl (dropWhile (\<lambda>c. c \<noteq> CHR ''='') f);
          plus = map (\<lambda>c. if c = CHR ''+'' then CHR '' '' else c)
      in if v = [] then [] else [(unquote (plus name), unquote (plus v))])"

definition parse_qs :: "(string \<Rightarrow> string) \<Rightarrow> string \<Rightarrow> (string \<times> string) list" where
  "parse_qs unquote q = concat (map (qs_field unquote) (split_on CHR ''&'' q))"

text \<open>\<^verbatim>\<open>int(s)\<close>, in base ten.\<close>

definition int10 :: "string \<Rightarrow> int res" where
  "int10 s =
     (case strip s of
        [] \<Rightarrow> Inl ValueError
      | c # cs \<Rightarrow>
          if c = CHR ''-'' then res_bind (parse_digits 10 False 0 cs) (\<lambda>v. Inr (- v))
          else if c = CHR ''+'' then parse_digits 10 False 0 cs
          else parse_digits 10 False 0 (c # cs))"

definition requested_rules :: "(string \<Rightarrow> string) \<Rightarrow> string \<Rightarrow> int res" where
  "requested_rules unquote path =
     (case map_of (parse_qs unquote (query_of path)) ''n'' of
        None \<Rightarrow> int10 ''100''
      | Some v \<Rightarrow> int10 v)"

subsection \<open>\<^verbatim>\<open>do_GET\<close>\<close>

text \<open>\<^verbatim>\<open>xs[i]\<close> on a list, for an index that is not negative.\<close>

definition py_index :: "'a list \<Rightarrow> nat \<Rightarrow> 'a res" where
  "py_index xs i = (if i < length xs then Inr (xs ! i) else Inl IndexError)"

record 'f stats =
  n_rules :: int
  total_ms :: 'f
  per_rule_us_p50 :: 'f
  per_rule_us_p95 :: 'f
  per_rule_us_p99 :: 'f
  per_rule_us_min :: 'f
  per_rule_us_max :: 'f

definition rule_stats :: "(nat \<Rightarrow> nat) \<Rightarrow> (nat \<Rightarrow> nat) \<Rightarrow> int \<Rightarrow> 'f \<Rightarrow> 'f list \<Rightarrow> ('f :: linorder) stats res" where
  "rule_stats i95 i99 n ms per_us =
     res_bind (py_index (sort per_us) (length per_us div 2)) (\<lambda>p50.
     res_bind (py_index (sort per_us) (i95 (length per_us))) (\<lambda>p95.
     res_bind (py_index (sort per_us) (i99 (length per_us))) (\<lambda>p99.
     if per_us = [] then Inl ValueError
     else Inr \<lparr>n_rules = n, total_ms = ms, per_rule_us_p50 = p50, per_rule_us_p95 = p95, per_rule_us_p99 = p99,
            per_rule_us_min = Min (set per_us), per_rule_us_max = Max (set per_us)\<rparr>)))"

record ('k, 'f) http_env =
  env_sys :: "'k bpf_sys"
  env_dump :: "'k \<Rightarrow> json res"
  env_clock :: "'k \<Rightarrow> int \<times> 'k"
  env_unquote :: "string \<Rightarrow> string"
  env_us :: "int \<Rightarrow> 'f"
  env_ms :: "int \<Rightarrow> 'f"
  env_round3 :: "'f \<Rightarrow> 'f"
  env_i95 :: "nat \<Rightarrow> nat"
  env_i99 :: "nat \<Rightarrow> nat"
  env_dumps :: "'f stats \<Rightarrow> bytes"

definition do_GET :: "('k, 'f :: linorder) http_env \<Rightarrow> string \<Rightarrow> ('k world, response) py" where
  "do_GET E path =
     (if path = ''/metrics'' then
        (\<lambda>w. py_bind (py_lift (res_bind (env_dump E (kern w)) prometheus_text)) (\<lambda>page.
          py_return (send_response 200 (encode page) text_plain)) w)
      else if take 11 path = ''/ruleupdate'' then
        py_bind (py_lift (requested_rules (env_unquote E) path)) (\<lambda>n.
        py_bind (measure_rule_update (env_sys E) (env_clock E) (env_us E) (env_ms E) n) (\<lambda>(ms, per_us).
        py_bind (py_lift (rule_stats (env_i95 E) (env_i99 E) n (env_round3 E ms) per_us)) (\<lambda>body.
        py_return (send_response 200 (env_dumps E body) ''application/json''))))
      else if path = ''/healthz'' then
        py_return (send_response 200 (encode (''ok'' @ [CHR 0x0A])) text_plain)
      else py_return (send_response 404 (encode (''not found'' @ [CHR 0x0A])) text_plain))"

text \<open>What the two floating-point products are relied on for: valid, ordered indices.\<close>

definition index_laws :: "(nat \<Rightarrow> nat) \<Rightarrow> (nat \<Rightarrow> nat) \<Rightarrow> bool" where
  "index_laws i95 i99 \<longleftrightarrow> (\<forall>n > 0. n div 2 \<le> i95 n \<and> i95 n \<le> i99 n \<and> i99 n < n)"

definition demo_env :: "(ref_kernel, int) http_env" where
  "demo_env = \<lparr>env_sys = upf_sys, env_dump = \<lambda>k. Inr (metrics_dump (\<lambda>m. [])), env_clock = \<lambda>k. (0, k), env_unquote = id,
     env_us = id, env_ms = id, env_round3 = id, env_i95 = \<lambda>n. n * 95 div 100, env_i99 = \<lambda>n. n * 99 div 100,
     env_dumps = \<lambda>s. []\<rparr>"

lemma rule_stats_empty: "rule_stats i95 i99 n ms [] = Inl IndexError"
  by (simp add: rule_stats_def py_index_def)

lemma sorted_nth_Min_Max:
  assumes "xs \<noteq> []"
  shows "i < length xs \<Longrightarrow> Min (set xs) \<le> sort xs ! i" "i < length xs \<Longrightarrow> sort xs ! i \<le> Max (set xs)"
proof -
  have "i < length xs \<Longrightarrow> sort xs ! i \<in> set xs" using nth_mem [of i "sort xs"] by simp
  then show "i < length xs \<Longrightarrow> Min (set xs) \<le> sort xs ! i" "i < length xs \<Longrightarrow> sort xs ! i \<le> Max (set xs)"
    by simp_all
qed

text \<open>The report of a list of samples, and that its numbers are in order.\<close>

definition stats_of :: "('k, 'f :: linorder) http_env \<Rightarrow> int \<Rightarrow> 'f \<Rightarrow> 'f list \<Rightarrow> 'f stats" where
  "stats_of E n ms vs = \<lparr>n_rules = n, total_ms = env_round3 E ms, per_rule_us_p50 = sort vs ! (length vs div 2),
     per_rule_us_p95 = sort vs ! env_i95 E (length vs), per_rule_us_p99 = sort vs ! env_i99 E (length vs),
     per_rule_us_min = Min (set vs), per_rule_us_max = Max (set vs)\<rparr>"

lemma rule_stats_value:
  assumes "index_laws (env_i95 E) (env_i99 E)" "vs \<noteq> []"
  shows "rule_stats (env_i95 E) (env_i99 E) n (env_round3 E ms) vs = Inr (stats_of E n ms vs)"
    and "Min (set vs) \<le> sort vs ! (length vs div 2)"
    and "sort vs ! (length vs div 2) \<le> sort vs ! env_i95 E (length vs)"
    and "sort vs ! env_i95 E (length vs) \<le> sort vs ! env_i99 E (length vs)"
    and "sort vs ! env_i99 E (length vs) \<le> Max (set vs)"
proof -
  let ?n = "length vs"
  have i: "?n div 2 \<le> env_i95 E ?n" "env_i95 E ?n \<le> env_i99 E ?n" "env_i99 E ?n < ?n"
    using assms by (simp_all add: index_laws_def)
  then show "rule_stats (env_i95 E) (env_i99 E) n (env_round3 E ms) vs = Inr (stats_of E n ms vs)"
    using assms(2) by (simp add: rule_stats_def py_index_def stats_of_def)
  have s: "sorted (sort vs)" "length (sort vs) = ?n" by simp_all
  show "sort vs ! (?n div 2) \<le> sort vs ! env_i95 E ?n" "sort vs ! env_i95 E ?n \<le> sort vs ! env_i99 E ?n"
    using i s by (auto intro!: sorted_nth_mono)
  show "Min (set vs) \<le> sort vs ! (?n div 2)" "sort vs ! env_i99 E ?n \<le> Max (set vs)"
    using i sorted_nth_Min_Max [OF assms(2)] by simp_all
qed

subsection \<open>Properties\<close>

text \<open>
  C34. The \<^verbatim>\<open>/ruleupdate\<close> endpoint with \<open>n\<close> requested rules and room for them in the PDR and bundle tables: the
  measurement returns a total and \<open>n\<close> samples. For positive \<open>n\<close> the response
  has status 200 and its JSON body reports \<open>n\<close>, the rounded total, the elements of the sorted samples at the positions of the
  median and of the 95th and 99th percentile, and the least and the greatest sample, and these are in order; for \<open>n\<close> zero or negative the request raises \<^verbatim>\<open>IndexError\<close> and no response is
  written. In both cases no measured rule is left in the PDR table.
\<close>

theorem do_GET_ruleupdate:
  assumes "bpf_kernel (env_sys E) pinned view fd_path fd_avail"
    and "world_ok pinned fd_path fd_avail upf_defs w" and "clock_neutral view fd_path fd_avail (env_clock E)"
    and "index_laws (env_i95 E) (env_i99 E)"
    and "take 11 path = ''/ruleupdate''" and "requested_rules (env_unquote E) path = Inr n"
    and "batch_room (nat n) (tabs view w)"
  shows "\<exists>w' ms vs. pdr_table (tabs view w') = (\<lambda>x. if x \<in> ids 0x20000 (nat n) then None else pdr_table (tabs view w) x) \<and>
    measure_rule_update (env_sys E) (env_clock E) (env_us E) (env_ms E) n w = (Inr (ms, vs), w') \<and> length vs = nat n \<and>
    (if n \<le> 0 then do_GET E path w = (Inl IndexError, w')
     else \<exists>p50 p95 p99. do_GET E path w = (Inr (send_response 200 (env_dumps E
         \<lparr>n_rules = n, total_ms = env_round3 E ms, per_rule_us_p50 = p50, per_rule_us_p95 = p95, per_rule_us_p99 = p99,
           per_rule_us_min = Min (set vs), per_rule_us_max = Max (set vs)\<rparr>) ''application/json''), w') \<and>
       p50 = sort vs ! (nat n div 2) \<and> p95 = sort vs ! env_i95 E (nat n) \<and> p99 = sort vs ! env_i99 E (nat n) \<and>
       Min (set vs) \<le> p50 \<and> p50 \<le> p95 \<and> p95 \<le> p99 \<and> p99 \<le> Max (set vs))"
proof -
  obtain w' T1 ms vs where
    m: "measure_rule_update (env_sys E) (env_clock E) (env_us E) (env_ms E) n w = (Inr (ms, vs), w')"
    "length vs = nat n" "batch 0x10000 0x20000 (nat n) (tabs view w) T1"
    "tabs view w' = without 0x10000 0x20000 (nat n) T1"
    by (rule bpf_kernel.measure_spec [OF assms(1-3,7), of "env_us E" "env_ms E"])
  have tab: "pdr_table (tabs view w') = (\<lambda>x. if x \<in> ids 0x20000 (nat n) then None else pdr_table (tabs view w) x)"
    using m(3,4) by (auto simp: batch_def without_def)
  have path: "path \<noteq> ''/metrics''" using assms(5) by auto
  have run: "do_GET E path w = py_bind (py_lift (rule_stats (env_i95 E) (env_i99 E) n (env_round3 E ms) vs)) (\<lambda>body.
      py_return (send_response 200 (env_dumps E body) ''application/json'')) w'"
    using assms(5,6) path m(1) by (simp add: do_GET_def py_simps)
  show ?thesis
  proof (cases "n \<le> 0")
    case True
    with m(1,2) tab run show ?thesis by (auto simp: rule_stats_empty py_simps)
  next
    case False
    then have "vs \<noteq> []" using m(2) by auto
    note stats = rule_stats_value [OF assms(4) this, unfolded m(2)]
    have "do_GET E path w = (Inr (send_response 200 (env_dumps E (stats_of E n ms vs)) ''application/json''), w')"
      using run stats(1) by (simp add: py_simps)
    with False m(1,2) tab stats(2-) show ?thesis by (auto simp: stats_of_def)
  qed
qed

theorem do_GET_ruleupdate_witness:
  "(\<exists>w'. do_GET demo_env ''/ruleupdate?n=0'' start_world = (Inl IndexError, w')) \<and>
   (\<exists>w' st vs. do_GET demo_env ''/ruleupdate'' start_world =
      (Inr (send_response 200 (env_dumps demo_env st) ''application/json''), w') \<and> n_rules st = 100 \<and>
      length vs = 100 \<and> per_rule_us_p50 st = sort vs ! 50 \<and> per_rule_us_p99 st = sort vs ! 99 \<and>
      per_rule_us_max st = Max (set vs))"
proof -
  have laws: "index_laws (env_i95 demo_env) (env_i99 demo_env)" by (auto simp: index_laws_def demo_env_def)
  have k: "bpf_kernel (env_sys demo_env) upf_pinned upf_view rk_fd_path rk_fd_avail"
    using rk.bpf_kernel_axioms by (simp add: demo_env_def)
  have c: "clock_neutral upf_view rk_fd_path rk_fd_avail (env_clock demo_env)"
    by (simp add: demo_env_def clock_neutral_def)
  have n: "requested_rules (env_unquote demo_env) ''/ruleupdate?n=0'' = Inr 0"
    "requested_rules (env_unquote demo_env) ''/ruleupdate'' = Inr 100"
    unfolding demo_env_def http_env.simps by code_simp+
  show ?thesis
  proof
    show "\<exists>w'. do_GET demo_env ''/ruleupdate?n=0'' start_world = (Inl IndexError, w')"
      using do_GET_ruleupdate [OF k start_world_ok c laws _ n(1)] start_room [of 0] by auto
    have room: "batch_room (nat 100) (tabs upf_view start_world)" using start_room [of 100] by simp
    have idx: "env_i99 demo_env 100 = 99" by (simp add: demo_env_def)
    have path: "take 11 ''/ruleupdate'' = ''/ruleupdate''" by simp
    obtain w' ms vs where "length vs = 100" "do_GET demo_env ''/ruleupdate'' start_world =
        (Inr (send_response 200 (env_dumps demo_env (stats_of demo_env 100 ms vs)) ''application/json''), w')"
      using do_GET_ruleupdate [OF k start_world_ok c laws path n(2) room] by (auto simp: stats_of_def)
    with idx show "\<exists>w' st vs. do_GET demo_env ''/ruleupdate'' start_world =
      (Inr (send_response 200 (env_dumps demo_env st) ''application/json''), w') \<and> n_rules st = 100 \<and>
      length vs = 100 \<and> per_rule_us_p50 st = sort vs ! 50 \<and> per_rule_us_p99 st = sort vs ! 99 \<and>
      per_rule_us_max st = Max (set vs)"
      by (intro exI [of _ w'] exI [of _ "stats_of demo_env 100 ms vs"] exI [of _ vs]) (simp add: stats_of_def)
  qed
qed

end
