(* ===== verification/Agent_Server.thy ===== *)
theory Agent_Server
  imports Agent_Http
begin

text \<open>
  The process of \<^verbatim>\<open>loader/agent.py\<close>: \<^verbatim>\<open>main\<close> bootstraps the rules and \<^verbatim>\<open>serve\<close> answers requests.
  \<^verbatim>\<open>HTTPServer\<close> handles one request after the other; an exception that a handler raises is reported by
  \<^verbatim>\<open>handle_error\<close> and the loop goes on, so \<open>serve_forever\<close> yields, for the \<^verbatim>\<open>GET\<close> requests that have
  arrived so far, the outcome of each. Parameter: \<open>listen\<close>, the creation of the listening socket.
\<close>

record args =
  arg_addr :: string
  arg_port :: int
  arg_initial :: int
  arg_out_ifindex :: int

text \<open>The defaults that the parser is given.\<close>

definition default_args :: args where
  "default_args = \<lparr>arg_addr = ''127.0.0.1'', arg_port = 9090, arg_initial = 10, arg_out_ifindex = 2\<rparr>"

fun serve_forever :: "('k, 'f :: linorder) http_env \<Rightarrow> string list \<Rightarrow> 'k world \<Rightarrow> response res list \<times> 'k world" where
  "serve_forever E [] w = ([], w)"
| "serve_forever E (path # paths) w =
     (case do_GET E path w of (r, w1) \<Rightarrow>
        (case serve_forever E paths w1 of (rs, w2) \<Rightarrow> (r # rs, w2)))"

definition agent_serve :: "('k, 'f :: linorder) http_env \<Rightarrow> (string \<Rightarrow> int \<Rightarrow> unit res) \<Rightarrow> string \<Rightarrow> int \<Rightarrow>
    string list \<Rightarrow> ('k world, response res list) py" where
  "agent_serve E listen addr port paths =
     py_bind (py_lift (listen addr port)) (\<lambda>_ w. case serve_forever E paths w of (rs, w') \<Rightarrow> (Inr rs, w'))"

definition agent_main :: "('k, 'f :: linorder) http_env \<Rightarrow> (string \<Rightarrow> int \<Rightarrow> unit res) \<Rightarrow> args \<Rightarrow>
    string list \<Rightarrow> ('k world, response res list) py" where
  "agent_main E listen a paths =
     py_bind (bootstrap_initial (env_sys E) (arg_initial a) (arg_out_ifindex a)) (\<lambda>_.
     agent_serve E listen (arg_addr a) (arg_port a) paths)"

subsection \<open>Requests that are answered\<close>

text \<open>
  A request is in order when it is not a measurement, or measures at least one and at most \<open>free\<close>
  rules. \<open>answer_ok\<close> says which response it is due.
\<close>

definition in_order :: "(string \<Rightarrow> string) \<Rightarrow> nat \<Rightarrow> string \<Rightarrow> bool" where
  "in_order unquote free path \<longleftrightarrow>
     (take 11 path = ''/ruleupdate'' \<longrightarrow>
        (case requested_rules unquote path of Inr n \<Rightarrow> 1 \<le> n \<and> n \<le> int free | Inl _ \<Rightarrow> False))"

definition due_status :: "string \<Rightarrow> int" where
  "due_status path =
     (if path \<in> {''/metrics'', ''/healthz''} \<or> take 11 path = ''/ruleupdate'' then 200 else 404)"

text \<open>
  What is relied on of \<^verbatim>\<open>bpftool map dump -j\<close> on the counters: it succeeds and prints, in its documented form,
  one entry per counter with a value per CPU.
\<close>

definition dumps_metrics :: "('k, 'f :: linorder) http_env \<Rightarrow> bool" where
  "dumps_metrics E \<longleftrightarrow> (\<forall>k. \<exists>c. env_dump E k = Inr (metrics_dump c))"

text \<open>The page of the counters \<open>c\<close>: after two comment lines, per counter its name and its sum over the CPUs.\<close>

definition metrics_page :: "(metric_idx \<Rightarrow> u64 list) \<Rightarrow> string" where
  "metrics_page c = concat (map (\<lambda>l. l @ [CHR 0x0A])
     ([''# HELP upf_packets_total UPF packet counters by stage'', ''# TYPE upf_packets_total counter''] @
      map (\<lambda>m. ''upf_packets_total{stage='' @ [CHR 0x22] @ metric_label m @ [CHR 0x22] @ ''} '' @
        str_int (\<Sum>v \<leftarrow> c m. uint v)) metric_enum))"

definition answered :: "('k, 'f :: linorder) http_env \<Rightarrow> string \<Rightarrow> response res \<Rightarrow> bool" where
  "answered E path r \<longleftrightarrow>
     (case r of Inl _ \<Rightarrow> False
      | Inr resp \<Rightarrow> r_status resp = due_status path \<and> r_length resp = int (length (r_body resp)) \<and>
          (path = ''/metrics'' \<longrightarrow>
             (\<exists>k c. env_dump E k = Inr (metrics_dump c) \<and> r_body resp = encode (metrics_page c))) \<and>
          (path = ''/healthz'' \<longrightarrow> r_body resp = encode (''ok'' @ [CHR 0x0A])))"

lemma prometheus_page: "prometheus_text (metrics_dump c) = Inr (metrics_page c)"
  unfolding prometheus_text_lines metrics_page_def ..

lemma metrics_page_dump: "metrics_dump c = metrics_dump c' \<Longrightarrow> metrics_page c = metrics_page c'"
  using prometheus_page [of c] prometheus_page [of c'] by simp

lemma batch_room_mono: "batch_room n T \<Longrightarrow> m \<le> n \<Longrightarrow> batch_room m T"
  by (auto simp: batch_room_def)

lemma dom_subset_room:
  assumes "batch_room n T" "dom (pdr_table T') \<subseteq> dom (pdr_table T)"
    "dom (tc_bundle_map T') \<subseteq> dom (tc_bundle_map T)"
  shows "batch_room n T'"
  using assms card_mono [of "dom (pdr_table T)"] card_mono [of "dom (tc_bundle_map T)"]
  unfolding batch_room_def by (meson add_le_mono1 finite_subset order_trans)

context bpf_kernel
begin

lemma do_GET_answers:
  assumes sys: "env_sys E = sys" and ok: "agent_ok w" and clock: "clock_neutral view fd_path fd_avail (env_clock E)"
    and laws: "index_laws (env_i95 E) (env_i99 E)" and dump: "dumps_metrics E"
    and room: "batch_room free (tabs view w)" and path: "in_order (env_unquote E) free path"
  obtains r w' where "do_GET E path w = (r, w')" "answered E path r" "agent_ok w'" "batch_room free (tabs view w')"
proof (cases "take 11 path = ''/ruleupdate''")
  case True
  with path obtain n where n: "requested_rules (env_unquote E) path = Inr n" "1 \<le> n" "n \<le> int free"
    by (auto simp: in_order_def split: sum.splits)
  have "batch_room (nat n) (tabs view w)" using batch_room_mono [OF room, of "nat n"] n(3) by simp
  then obtain w' T1 ms vs where
    m: "measure_rule_update (env_sys E) (env_clock E) (env_us E) (env_ms E) n w = (Inr (ms, vs), w')"
    "agent_ok w'" "length vs = nat n" "batch 0x10000 0x20000 (nat n) (tabs view w) T1"
    "tabs view w' = without 0x10000 0x20000 (nat n) T1"
    unfolding sys by (rule measure_spec [OF ok clock, of n "env_us E" "env_ms E"])
  have "dom (pdr_table (tabs view w')) \<subseteq> dom (pdr_table (tabs view w))"
    "dom (tc_bundle_map (tabs view w')) \<subseteq> dom (tc_bundle_map (tabs view w))"
    using m(4,5) by (auto simp: batch_def without_def split: if_splits)
  then have room': "batch_room free (tabs view w')" by (rule dom_subset_room [OF room])
  have "vs \<noteq> []" using m(3) n(2) by auto
  from rule_stats_value(1) [OF laws this]
  obtain st where st: "rule_stats (env_i95 E) (env_i99 E) n (env_round3 E ms) vs = Inr st" by blast
  have other: "path \<noteq> ''/metrics''" using True by auto
  have "do_GET E path w = (Inr (send_response 200 (env_dumps E st) ''application/json''), w')"
    using True other n m(1) st by (simp add: do_GET_def py_simps)
  moreover have "answered E path (Inr (send_response 200 (env_dumps E st) ''application/json''))"
    using True by (auto simp: answered_def send_response_def due_status_def)
  ultimately show thesis using that m(2) room' by blast
next
  case False
  obtain c where c: "env_dump E (kern w) = Inr (metrics_dump c)"
    using dump unfolding dumps_metrics_def by blast
  then have page: "res_bind (env_dump E (kern w)) prometheus_text = Inr (metrics_page c)"
    by (simp add: prometheus_page)
  note answer = do_GET_def py_simps answered_def send_response_def due_status_def
  have "\<exists>r. do_GET E path w = (r, w) \<and> answered E path r"
  proof (cases "path = ''/metrics''")
    case True
    with page c show ?thesis by (auto simp: answer)
  next
    case False
    with \<open>take 11 path \<noteq> ''/ruleupdate''\<close> show ?thesis by (auto simp: answer)
  qed
  then show thesis using that ok room by blast
qed

lemma serve_answers:
  assumes "env_sys E = sys" "clock_neutral view fd_path fd_avail (env_clock E)"
    "index_laws (env_i95 E) (env_i99 E)" "dumps_metrics E"
  shows "agent_ok w \<Longrightarrow> batch_room free (tabs view w) \<Longrightarrow> list_all (in_order (env_unquote E) free) paths \<Longrightarrow>
    \<exists>rs w'. serve_forever E paths w = (rs, w') \<and> list_all2 (answered E) paths rs \<and> agent_ok w' \<and>
      batch_room free (tabs view w')"
proof (induction paths arbitrary: w)
  case (Cons path paths)
  obtain r w1 where 1: "do_GET E path w = (r, w1)" "answered E path r" "agent_ok w1" "batch_room free (tabs view w1)"
    by (rule do_GET_answers [OF assms(1) Cons.prems(1) assms(2-4) Cons.prems(2), of path]) (use Cons.prems(3) in simp)
  obtain rs w2 where "serve_forever E paths w1 = (rs, w2)" "list_all2 (answered E) paths rs" "agent_ok w2"
    "batch_room free (tabs view w2)"
    using Cons.IH [OF 1(3,4)] Cons.prems(3) by auto
  with 1 show ?case by simp
qed simp

end

lemma batch_room_after:
  assumes "batch t0 p0 m T T'" "batch_room (m + free) T"
  shows "batch_room free T'"
proof -
  have d: "dom (pdr_table T') \<subseteq> dom (pdr_table T) \<union> ids p0 m"
    "dom (tc_bundle_map T') \<subseteq> dom (tc_bundle_map T) \<union> ids p0 m"
    using assms(1) by (auto simp: batch_def split: if_splits)
  have fin: "finite (dom (pdr_table T))" "finite (dom (tc_bundle_map T))"
    using assms(2) by (simp_all add: batch_room_def)
  have "card (dom (pdr_table T')) \<le> card (dom (pdr_table T)) + m"
    "card (dom (tc_bundle_map T')) \<le> card (dom (tc_bundle_map T)) + m"
    using card_mono [OF _ d(1)] card_mono [OF _ d(2)] card_Un_le [of "dom (pdr_table T)" "ids p0 m"]
      card_Un_le [of "dom (tc_bundle_map T)" "ids p0 m"] card_ids [of p0 m] fin by fastforce+
  with assms(2) fin d card_ids(1) [of p0 m] show ?thesis
    unfolding batch_room_def by (auto intro: finite_subset)
qed

subsection \<open>Property\<close>

text \<open>
  C35. The agent keeps answering. Started where the tables have room for the \<open>initial\<close> sessions and \<open>free\<close>
  more rules, with a port it can bind, the agent bootstraps and then answers every sequence of requests
  that are in order (measurements of 1 to \<open>free\<close> rules, scrapes, health checks, any other path), each with
  the status it is due and a content length that is the body's, whatever was requested before: no
  measurement uses up the room that the next one needs. A scrape is answered with the page of the counters that
  bpftool dumps, a health check with \<^verbatim>\<open>ok\<close>.
\<close>

theorem agent_main_answers:
  assumes "bpf_kernel (env_sys E) pinned view fd_path fd_avail"
    and "world_ok pinned fd_path fd_avail upf_defs w" and "clock_neutral view fd_path fd_avail (env_clock E)"
    and "index_laws (env_i95 E) (env_i99 E)" and "dumps_metrics E"
    and "in_u32 (arg_out_ifindex a)" and "listen (arg_addr a) (arg_port a) = Inr ()"
    and "batch_room (nat (arg_initial a) + free) (tabs view w)"
    and "list_all (in_order (env_unquote E) free) paths"
  shows "\<exists>rs w'. agent_main E listen a paths w = (Inr rs, w') \<and> list_all2 (answered E) paths rs \<and>
    world_ok pinned fd_path fd_avail upf_defs w'"
proof -
  have room: "batch_room (nat (arg_initial a)) (tabs view w)" by (rule batch_room_mono [OF assms(8)]) simp
  obtain w1 where 1: "bootstrap_initial (env_sys E) (arg_initial a) (arg_out_ifindex a) w = (Inr (), w1)"
    "world_ok pinned fd_path fd_avail upf_defs w1"
    and b: "batch 0x1000 0x2000 (nat (arg_initial a)) ((tabs view w)
       \<lparr>far_table := (far_table (tabs view w))(1 \<mapsto> \<lparr>far_action = FAR_FORWARD,
          far_out_ifindex = word_of_int (arg_out_ifindex a), far_peer_ipv4_be = 0, far_out_teid_be = 0\<rparr>),
        qer_table := (qer_table (tabs view w))(1 \<mapsto> \<lparr>qer_mbr_ul_bps = 0, qer_mbr_dl_bps = 0,
          qer_burst_bytes = 0, qer_pad = 0\<rparr>)\<rparr>) (tabs view w1)"
    by (rule bpf_kernel.bootstrap_spec [OF assms(1,2) room assms(6)])
  have "batch_room free (tabs view w1)"
    by (rule batch_room_after [OF b]) (use assms(8) in \<open>simp add: batch_room_def\<close>)
  from bpf_kernel.serve_answers [OF assms(1) refl assms(3-5) 1(2) this assms(9)] 1(1) assms(7) show ?thesis
    by (auto simp: agent_main_def agent_serve_def py_simps)
qed

theorem agent_main_answers_witness:
  "\<exists>rs w'. agent_main demo_env (\<lambda>_ _. Inr ()) default_args
       [''/ruleupdate'', ''/healthz'', ''/ruleupdate?n=4086'', ''/nowhere'', ''/metrics'', ''/ruleupdate''] start_world = (Inr rs, w') \<and>
     map (map_sum id r_status) rs = map Inr [200, 200, 200, 404, 200, 200] \<and>
     map_sum id r_body (rs ! 4) = Inr (encode (metrics_page (\<lambda>_. [])))"
proof -
  let ?paths = "[''/ruleupdate'', ''/healthz'', ''/ruleupdate?n=4086'', ''/nowhere'', ''/metrics'', ''/ruleupdate'']"
  have k: "bpf_kernel (env_sys demo_env) upf_pinned upf_view rk_fd_path rk_fd_avail"
    using rk.bpf_kernel_axioms by (simp add: demo_env_def)
  have c: "clock_neutral upf_view rk_fd_path rk_fd_avail (env_clock demo_env)"
    by (simp add: demo_env_def clock_neutral_def)
  have laws: "index_laws (env_i95 demo_env) (env_i99 demo_env)" by (auto simp: index_laws_def demo_env_def)
  have dump: "dumps_metrics demo_env" by (auto simp: dumps_metrics_def demo_env_def)
  have n: "requested_rules (env_unquote demo_env) ''/ruleupdate'' = Inr 100"
    "requested_rules (env_unquote demo_env) ''/ruleupdate?n=4086'' = Inr 4086"
    unfolding demo_env_def http_env.simps by code_simp+
  have paths: "list_all (in_order (env_unquote demo_env) 4086) ?paths"
    using n by (simp add: in_order_def)
  have args: "in_u32 (arg_out_ifindex default_args)" "nat (arg_initial default_args) + 4086 = 4096"
    by (simp_all add: default_args_def in_u32_def)
  have room: "batch_room (nat (arg_initial default_args) + 4086) (tabs upf_view start_world)"
    unfolding args(2) by (rule start_room) simp
  obtain rs w' where r: "agent_main demo_env (\<lambda>_ _. Inr ()) default_args ?paths start_world = (Inr rs, w')"
    and a: "list_all2 (answered demo_env) ?paths rs"
    using agent_main_answers [OF k start_world_ok c laws dump args(1) _ room paths, of "\<lambda>_ _. Inr ()"] by auto
  have "map_sum id r_status x = Inr (due_status p)" if "answered demo_env p x" for p x
    using that by (cases x) (simp_all add: answered_def)
  then have "map (map_sum id r_status) rs = map (Inr \<circ> due_status) ?paths"
    using a by (auto simp: list_all2_Cons1)
  moreover have "answered demo_env ''/metrics'' (rs ! 4)" using list_all2_nthD [OF a, of 4] by simp
  then have "map_sum id r_body (rs ! 4) = Inr (encode (metrics_page (\<lambda>_. [])))"
    by (auto simp: answered_def demo_env_def dest: metrics_page_dump split: sum.splits)
  ultimately show ?thesis using r by (auto simp: due_status_def)
qed

end
