(* ===== verification/Upf_Datapath.thy ===== *)
theory Upf_Datapath
  imports Upf_Maps
begin

text \<open>
  The execution model of the BPF programs. A program runs on one CPU: \<open>dp\<close> holds the rule
  tables it reads, that CPU's slots of the per-CPU maps, the shared QER buckets, the perf
  events emitted so far and the number of clock reads. A program step may get stuck (\<open>None\<close>):
  that is a load or store outside the packet, which the kernel's verifier is to exclude.
  Kernel helpers whose result the program does not determine (\<^verbatim>\<open>bpf_ktime_get_ns\<close>,
  \<^verbatim>\<open>bpf_skb_adjust_room\<close>, \<^verbatim>\<open>bpf_redirect\<close>) are parameters.
\<close>

subsection \<open>Per-CPU state\<close>

record qer_bucket =
  tokens_bytes :: u64
  last_ns :: u64

record urr_val =
  bytes_ul :: u64
  bytes_dl :: u64
  pkts_ul :: u64
  pkts_dl :: u64

datatype perf_event =
    BufferEvent u32 u32 u32 u32 u64        \<comment> \<open>teid, pdr_id, far_id, pkt_len, ts_ns\<close>
  | DecisionEvent u32 u32 u32 u32          \<comment> \<open>far_id, qer_id, generation, pdr_id\<close>
  | LatencyEvent u64 u32                   \<comment> \<open>latency_ns, pkt_len\<close>

record dp =
  tables :: rule_tables
  metrics :: "metric_idx \<Rightarrow> u64"
  qer_state :: "u32 \<rightharpoonup> qer_bucket"
  qer_state_shared :: "u32 \<rightharpoonup> qer_bucket"
  urr_counters :: "u32 \<rightharpoonup> urr_val"
  perf_events :: "perf_event list"
  ktime_reads :: nat

definition MAX_QERS :: nat where "MAX_QERS = 4096"
definition MAX_URRS :: nat where "MAX_URRS = 4096"

text \<open>The array maps have all their entries, and the agent writes none of them beyond.\<close>

definition arrays_ok :: "dp \<Rightarrow> bool" where
  "arrays_ok s \<longleftrightarrow>
     dom (far_table (tables s)) = {k. unat k < 4096} \<and>
     dom (qer_table (tables s)) = {k. unat k < MAX_QERS} \<and>
     dom (qer_state s) = {k. unat k < MAX_QERS} \<and>
     dom (qer_state_shared s) = {k. unat k < MAX_QERS}"

subsection \<open>Programs\<close>

type_synonym 'a prog = "dp \<Rightarrow> ('a \<times> dp) option"

definition p_return :: "'a \<Rightarrow> 'a prog" where
  "p_return x s = Some (x, s)"

definition p_bind :: "'a prog \<Rightarrow> ('a \<Rightarrow> 'b prog) \<Rightarrow> 'b prog" where
  "p_bind m f s = (case m s of None \<Rightarrow> None | Some (x, s') \<Rightarrow> f x s')"

definition p_get :: "(dp \<Rightarrow> 'a) \<Rightarrow> 'a prog" where
  "p_get f s = Some (f s, s)"

text \<open>Loads from the packet, host byte order; out of bounds is stuck.\<close>

definition p_load8 :: "bytes \<Rightarrow> nat \<Rightarrow> u8 prog" where
  "p_load8 pkt off s = (if off + 1 \<le> length pkt then Some (rd8 pkt off, s) else None)"

definition p_load16 :: "bytes \<Rightarrow> nat \<Rightarrow> u16 prog" where
  "p_load16 pkt off s = (if off + 2 \<le> length pkt then Some (rd16 pkt off, s) else None)"

definition p_load32 :: "bytes \<Rightarrow> nat \<Rightarrow> u32 prog" where
  "p_load32 pkt off s = (if off + 4 \<le> length pkt then Some (rd32 pkt off, s) else None)"

definition bump :: "metric_idx \<Rightarrow> unit prog" where
  "bump idx s = Some ((), s\<lparr>metrics := (metrics s)(idx := metrics s idx + 1)\<rparr>)"

definition p_emit :: "perf_event \<Rightarrow> unit prog" where
  "p_emit e s = Some ((), s\<lparr>perf_events := perf_events s @ [e]\<rparr>)"

text \<open>\<^verbatim>\<open>bpf_ktime_get_ns\<close>: the \<open>i\<close>-th read of the clock returns \<open>ktime i\<close>.\<close>

definition bpf_ktime_get_ns :: "(nat \<Rightarrow> u64) \<Rightarrow> u64 prog" where
  "bpf_ktime_get_ns ktime s = Some (ktime (ktime_reads s), s\<lparr>ktime_reads := ktime_reads s + 1\<rparr>)"

subsection \<open>Byte order\<close>

definition bpf_htonl :: "u32 \<Rightarrow> u32" where
  "bpf_htonl x = rd32 (rev (le_bytes 4 (uint x))) 0"

definition bpf_ntohl :: "u32 \<Rightarrow> u32" where
  "bpf_ntohl x = bpf_htonl x"

definition bpf_htons :: "u16 \<Rightarrow> u16" where
  "bpf_htons x = rd16 (rev (le_bytes 2 (uint x))) 0"

subsection \<open>Counting\<close>

definition bumped :: "metric_idx list \<Rightarrow> (metric_idx \<Rightarrow> u64) \<Rightarrow> metric_idx \<Rightarrow> u64" where
  "bumped ms c m = c m + of_nat (count_list ms m)"

definition bump_all :: "metric_idx list \<Rightarrow> dp \<Rightarrow> dp" where
  "bump_all ms s = s\<lparr>metrics := bumped ms (metrics s)\<rparr>"

lemma p_bind_simps [simp]:
  "p_bind (p_return x) fr s = fr x s"
  "p_bind (p_get g) fg s = fg (g s) s"
  "p_bind (bump m) f s = f () (s\<lparr>metrics := (metrics s)(m := metrics s m + 1)\<rparr>)"
  "p_bind (p_emit e) f s = f () (s\<lparr>perf_events := perf_events s @ [e]\<rparr>)"
  "off + 1 \<le> length pkt \<Longrightarrow> p_bind (p_load8 pkt off) g8 s = g8 (rd8 pkt off) s"
  "off + 2 \<le> length pkt \<Longrightarrow> p_bind (p_load16 pkt off) g16 s = g16 (rd16 pkt off) s"
  "off + 4 \<le> length pkt \<Longrightarrow> p_bind (p_load32 pkt off) g32 s = g32 (rd32 pkt off) s"
  by (simp_all add: p_bind_def p_return_def p_get_def bump_def p_emit_def p_load8_def p_load16_def
      p_load32_def)

lemma p_return_apply [simp]: "p_return x s = Some (x, s)"
  by (simp add: p_return_def)

lemma bumped_Nil [simp]: "bumped [] c = c"
  by (simp add: bumped_def fun_eq_iff)

lemma bumped_Cons: "bumped (m # ms) c = bumped ms (c(m := c m + 1))"
  by (auto simp: bumped_def fun_eq_iff)

lemma bump_all_Nil [simp]: "bump_all [] s = s"
  by (simp add: bump_all_def)

lemma bump_all_Cons: "bump_all (m # ms) s = bump_all ms (s\<lparr>metrics := (metrics s)(m := metrics s m + 1)\<rparr>)"
  by (simp add: bump_all_def bumped_Cons)

lemma bump_all_fields [simp]:
  "tables (bump_all ms s) = tables s" "qer_state (bump_all ms s) = qer_state s"
  "qer_state_shared (bump_all ms s) = qer_state_shared s" "urr_counters (bump_all ms s) = urr_counters s"
  "perf_events (bump_all ms s) = perf_events s" "ktime_reads (bump_all ms s) = ktime_reads s"
  "metrics (bump_all ms s) = bumped ms (metrics s)"
  by (simp_all add: bump_all_def)

text \<open>Byte order conversions undo themselves, and read big-endian fields.\<close>

lemma rd32_rev: "length bs = 4 \<Longrightarrow> bpf_htonl (rd32 bs 0) = rd32 (rev bs) 0"
  using le_int_bound [of bs]
  by (simp add: bpf_htonl_def rd32_def slice_def uint_word_of_int del: le_bytes.simps)

lemma rd16_rev: "length bs = 2 \<Longrightarrow> bpf_htons (rd16 bs 0) = rd16 (rev bs) 0"
  using le_int_bound [of bs]
  by (simp add: bpf_htons_def rd16_def slice_def uint_word_of_int del: le_bytes.simps)

lemma htonl_invol [simp]: "bpf_htonl (bpf_htonl x) = x"
proof -
  have "bpf_htonl (bpf_htonl x) = rd32 (le_bytes 4 (uint x)) 0"
    by (subst bpf_htonl_def [of x]) (simp add: rd32_rev del: le_bytes.simps)
  then show ?thesis by (simp add: layout_simps del: le_bytes.simps)
qed

lemma htons_invol [simp]: "bpf_htons (bpf_htons x) = x"
proof -
  have "bpf_htons (bpf_htons x) = rd16 (le_bytes 2 (uint x)) 0"
    by (subst bpf_htons_def [of x]) (simp add: rd16_rev del: le_bytes.simps)
  then show ?thesis by (simp add: layout_simps del: le_bytes.simps)
qed

end
