(* ===== verification/Upf_Xdp.thy ===== *)
theory Upf_Xdp
  imports Upf_Datapath
begin

text \<open>
  \<^verbatim>\<open>bpf/upf_xdp.c\<close>: uplink classification at the XDP hook. \<open>classify\<close> is the abstract reading
  of a frame; the program is shown to implement it, memory-safely, with exactly the counters
  and the verdict of the class.
\<close>

datatype xdp_action = XDP_DROP | XDP_PASS

definition ETH_P_IP :: u16 where "ETH_P_IP = 0x0800"
definition IPPROTO_UDP :: u8 where "IPPROTO_UDP = 17"
definition GTPU_PORT :: u16 where "GTPU_PORT = 2152"
definition GTPU_GPDU :: u8 where "GTPU_GPDU = 0xff"

text \<open>\<^verbatim>\<open>sizeof\<close> of the Ethernet, IPv4 and UDP headers.\<close>

abbreviation ETH_HLEN :: nat where "ETH_HLEN \<equiv> 14"
abbreviation IP_HLEN :: nat where "IP_HLEN \<equiv> 20"
abbreviation UDP_HLEN :: nat where "UDP_HLEN \<equiv> 8"

text \<open>\<^verbatim>\<open>ip->ihl * 4\<close>: the low nibble of the first byte of the IPv4 header.\<close>

definition ihl_bytes :: "u8 \<Rightarrow> nat" where
  "ihl_bytes b = unat (and b 0x0f) * 4"

definition upf_xdp_uplink :: "bytes \<Rightarrow> xdp_action prog" where
  "upf_xdp_uplink pkt =
     p_bind (bump M_RX_TOTAL) (\<lambda>_.
     if ETH_HLEN > length pkt then p_bind (bump M_DROP_PARSE) (\<lambda>_. p_return XDP_DROP) else
     p_bind (p_load16 pkt 12) (\<lambda>h_proto.
     if h_proto \<noteq> bpf_htons ETH_P_IP then p_return XDP_PASS else
     let ip = ETH_HLEN in
     if ip + IP_HLEN > length pkt then p_bind (bump M_DROP_PARSE) (\<lambda>_. p_return XDP_DROP) else
     p_bind (p_load8 pkt (ip + 9)) (\<lambda>protocol.
     if protocol \<noteq> IPPROTO_UDP then p_return XDP_PASS else
     p_bind (p_load8 pkt ip) (\<lambda>vihl.
     let ihl = ihl_bytes vihl in
     if ihl < IP_HLEN then p_bind (bump M_DROP_PARSE) (\<lambda>_. p_return XDP_DROP) else
     let udp = ip + ihl in
     if udp + UDP_HLEN > length pkt then p_bind (bump M_DROP_PARSE) (\<lambda>_. p_return XDP_DROP) else
     p_bind (p_load16 pkt (udp + 2)) (\<lambda>dest.
     if dest \<noteq> bpf_htons GTPU_PORT then p_bind (bump M_PASS_NONGTP) (\<lambda>_. p_return XDP_PASS) else
     p_bind (bump M_RX_GTPU) (\<lambda>_.
     let gtp = udp + UDP_HLEN in
     if gtp + 8 > length pkt then p_bind (bump M_DROP_PARSE) (\<lambda>_. p_return XDP_DROP) else
     p_bind (p_load8 pkt gtp) (\<lambda>flags.
     p_bind (p_load8 pkt (gtp + 1)) (\<lambda>msg_type.
     p_bind (p_load32 pkt (gtp + 4)) (\<lambda>teid_be.
     let teid = bpf_ntohl teid_be in
     if msg_type \<noteq> GTPU_GPDU then p_bind (bump M_PASS_CTRL) (\<lambda>_. p_return XDP_PASS) else
     p_bind (bump M_RX_GPDU) (\<lambda>_.
     p_bind (p_get (\<lambda>s. teid_session (tables s) teid)) (\<lambda>sess.
     case sess of
       None \<Rightarrow> p_bind (bump M_MISS_TEID) (\<lambda>_. p_return XDP_DROP)
     | Some se \<Rightarrow>
         p_bind (p_get (\<lambda>s. pdr_table (tables s) (sess_pdr_id se))) (\<lambda>pdr.
         case pdr of
           None \<Rightarrow> p_bind (bump M_MISS_PDR) (\<lambda>_. p_return XDP_DROP)
         | Some _ \<Rightarrow> p_bind (bump M_HIT) (\<lambda>_. p_return XDP_PASS)))))))))))))"

subsection \<open>The abstract reading of a frame\<close>

datatype frame_class =
    ShortFrame                \<comment> \<open>truncated at Ethernet, IPv4 or UDP, or a bad header length\<close>
  | NotUdp                    \<comment> \<open>not IPv4, or not UDP\<close>
  | NotGtp                    \<comment> \<open>UDP to another port\<close>
  | ShortGtp                  \<comment> \<open>GTP-U port, header truncated\<close>
  | GtpControl                \<comment> \<open>GTP-U, other message type\<close>
  | GPdu u32 nat              \<comment> \<open>TEID, IPv4 header length\<close>

definition classify :: "bytes \<Rightarrow> frame_class" where
  "classify pkt =
     (let ihl = ihl_bytes (rd8 pkt 14) in
      if length pkt < 14 then ShortFrame
      else if rd16 pkt 12 \<noteq> bpf_htons ETH_P_IP then NotUdp
      else if length pkt < 34 then ShortFrame
      else if rd8 pkt 23 \<noteq> IPPROTO_UDP then NotUdp
      else if ihl < 20 \<or> length pkt < 22 + ihl then ShortFrame
      else if rd16 pkt (16 + ihl) \<noteq> bpf_htons GTPU_PORT then NotGtp
      else if length pkt < 30 + ihl then ShortGtp
      else if rd8 pkt (23 + ihl) \<noteq> GTPU_GPDU then GtpControl
      else GPdu (bpf_ntohl (rd32 pkt (26 + ihl))) ihl)"

fun xdp_spec :: "rule_tables \<Rightarrow> frame_class \<Rightarrow> xdp_action \<times> metric_idx list" where
  "xdp_spec T ShortFrame = (XDP_DROP, [M_RX_TOTAL, M_DROP_PARSE])"
| "xdp_spec T NotUdp = (XDP_PASS, [M_RX_TOTAL])"
| "xdp_spec T NotGtp = (XDP_PASS, [M_RX_TOTAL, M_PASS_NONGTP])"
| "xdp_spec T ShortGtp = (XDP_DROP, [M_RX_TOTAL, M_RX_GTPU, M_DROP_PARSE])"
| "xdp_spec T GtpControl = (XDP_PASS, [M_RX_TOTAL, M_RX_GTPU, M_PASS_CTRL])"
| "xdp_spec T (GPdu teid _) =
     (case teid_session T teid of
        None \<Rightarrow> (XDP_DROP, [M_RX_TOTAL, M_RX_GTPU, M_RX_GPDU, M_MISS_TEID])
      | Some se \<Rightarrow>
          if pdr_table T (sess_pdr_id se) = None
          then (XDP_DROP, [M_RX_TOTAL, M_RX_GTPU, M_RX_GPDU, M_MISS_PDR])
          else (XDP_PASS, [M_RX_TOTAL, M_RX_GTPU, M_RX_GPDU, M_HIT]))"

text \<open>A run of the program over the frames a CPU receives.\<close>

fun xdp_run :: "bytes list \<Rightarrow> dp \<Rightarrow> (xdp_action list \<times> dp) option" where
  "xdp_run [] s = Some ([], s)"
| "xdp_run (pkt # pkts) s =
     (case upf_xdp_uplink pkt s of
        None \<Rightarrow> None
      | Some (a, s') \<Rightarrow> map_option (\<lambda>(acts, s''). (a # acts, s'')) (xdp_run pkts s'))"

text \<open>
  The books of the XDP stage, on unbounded counts: every frame is counted once, every GTP-U
  and G-PDU frame has one outcome, and the dropped frames are the parse failures and misses.
\<close>

definition xdp_books :: "nat \<Rightarrow> nat \<Rightarrow> (metric_idx \<Rightarrow> nat) \<Rightarrow> bool" where
  "xdp_books frames drops c \<longleftrightarrow>
     c M_RX_TOTAL = frames \<and>
     c M_RX_GPDU = c M_HIT + c M_MISS_TEID + c M_MISS_PDR \<and>
     drops = c M_DROP_PARSE + c M_MISS_TEID + c M_MISS_PDR \<and>
     c M_RX_GPDU + c M_PASS_CTRL \<le> c M_RX_GTPU \<and>
     c M_RX_GTPU \<le> c M_RX_GPDU + c M_PASS_CTRL + c M_DROP_PARSE"

lemma xdp_refines_spec:
  "upf_xdp_uplink pkt s =
     (case xdp_spec (tables s) (classify pkt) of (a, ms) \<Rightarrow> Some (a, bump_all ms s))"
proof -
  note step = upf_xdp_uplink_def classify_def Let_def bump_all_Cons
  consider "length pkt < 14" | "14 \<le> length pkt" "length pkt < 34" | "34 \<le> length pkt" by linarith
  then show ?thesis
  proof cases
    case 3
    define ihl where "ihl = ihl_bytes (rd8 pkt 14)"
    have "rd8 pkt 23 \<noteq> IPPROTO_UDP \<or> ihl < 20 \<or> length pkt < 22 + ihl \<or>
        22 + ihl \<le> length pkt \<and> length pkt < 30 + ihl \<or> 30 + ihl \<le> length pkt" by linarith
    then show ?thesis using 3
      by (elim disjE)
        (simp_all add: step ihl_def [symmetric] add.commute split: option.splits)
  qed (simp_all add: step)
qed

lemma xdp_spec_books:
  "xdp_books 1 (if fst (xdp_spec T c) = XDP_DROP then 1 else 0) (count_list (snd (xdp_spec T c)))"
  by (cases c) (auto simp: xdp_books_def split: option.splits)

lemma xdp_books_add:
  "xdp_books n d c \<Longrightarrow> xdp_books n' d' c' \<Longrightarrow> xdp_books (n + n') (d + d') (\<lambda>m. c m + c' m)"
  by (simp add: xdp_books_def)

lemma xdp_run_books:
  "\<exists>acts s' c. xdp_run pkts s = Some (acts, s') \<and> length acts = length pkts \<and> tables s' = tables s \<and>
     metrics s' = (\<lambda>m. metrics s m + of_nat (c m)) \<and> xdp_books (length pkts) (count_list acts XDP_DROP) c"
proof (induction pkts arbitrary: s)
  case Nil
  show ?case by (intro exI [of _ "[]"] exI [of _ s] exI [of _ "\<lambda>_. 0"]) (simp add: xdp_books_def)
next
  case (Cons pkt pkts)
  obtain a ms where am: "xdp_spec (tables s) (classify pkt) = (a, ms)" by (rule prod.exhaust)
  then have step: "upf_xdp_uplink pkt s = Some (a, bump_all ms s)" by (simp add: xdp_refines_spec)
  obtain acts s' c where IH: "xdp_run pkts (bump_all ms s) = Some (acts, s')" "length acts = length pkts"
    "tables s' = tables s" "metrics s' = (\<lambda>m. metrics (bump_all ms s) m + of_nat (c m))"
    "xdp_books (length pkts) (count_list acts XDP_DROP) c"
    using Cons [of "bump_all ms s"] by auto
  have "metrics s' = (\<lambda>m. metrics s m + of_nat (count_list ms m + c m))"
    using IH(4) by (simp add: fun_eq_iff bumped_def)
  moreover have "xdp_books (length (pkt # pkts)) (count_list (a # acts) XDP_DROP)
      (\<lambda>m. count_list ms m + c m)"
    using xdp_books_add [OF xdp_spec_books IH(5), of "tables s" "classify pkt"] am
    by (cases a) simp_all
  ultimately show ?case
    using step IH by (intro exI [of _ "a # acts"] exI [of _ s'] exI [of _ "\<lambda>m. count_list ms m + c m"]) simp
qed

subsection \<open>Properties\<close>

text \<open>
  C11. Memory safety and functional correctness of \<^verbatim>\<open>upf_xdp_uplink\<close>: on every frame, of any
  length and content, the program never accesses the packet out of bounds, and its verdict and
  the counters it bumps are those of the frame's abstract class, where a G-PDU passes exactly
  when its TEID has a session whose PDR exists. Nothing but the counters changes.
\<close>

theorem upf_xdp_uplink_refines:
  "upf_xdp_uplink pkt s =
     Some (fst (xdp_spec (tables s) (classify pkt)), bump_all (snd (xdp_spec (tables s) (classify pkt))) s)"
  by (simp add: xdp_refines_spec case_prod_beta)

text \<open>
  C12. The books of the XDP stage balance over any sequence of frames: \<^verbatim>\<open>rx_total\<close> counts the
  frames, every G-PDU is a hit, a TEID miss or a PDR miss, the dropped frames are the parse
  failures and the misses, and \<^verbatim>\<open>rx_gtpu\<close> exceeds the G-PDUs and control messages only by
  frames dropped as too short (each counter modulo 2^64).
\<close>

theorem xdp_counters_balance:
  "\<exists>acts s' c. xdp_run pkts s = Some (acts, s') \<and> length acts = length pkts \<and>
     (\<forall>m. metrics s' m = metrics s m + of_nat (c m)) \<and>
     xdp_books (length pkts) (count_list acts XDP_DROP) c"
  using xdp_run_books [of pkts s] by auto

end
