(* ===== verification/Upf_Qer.thy ===== *)
theory Upf_Qer
  imports Upf_Datapath
begin

text \<open>
  QER policing in \<^verbatim>\<open>bpf/upf_tc.c\<close>: the token bucket of \<^verbatim>\<open>upf_qer_admit\<close> in its per-CPU and its
  shared, spin-locked build. All arithmetic is on 64-bit words, as in the C code. The lemmas
  bound the fill level and the number of admitted bytes, and show where wrap-around and
  out-of-order clock samples break the bound.
\<close>

abbreviation NS_CAP :: u64 where "NS_CAP \<equiv> 1000000000"
abbreviation BITS_NS :: u64 where "BITS_NS \<equiv> 8000000000"

definition add_refill :: "qer_val \<Rightarrow> u64 \<Rightarrow> u64 \<Rightarrow> u64" where
  "add_refill qv elapsed tokens =
     (let elapsed = (if elapsed > NS_CAP then NS_CAP else elapsed);
          refill = (elapsed * qer_mbr_ul_bps qv) div BITS_NS;
          tokens = tokens + refill
      in if tokens > ucast (qer_burst_bytes qv) then ucast (qer_burst_bytes qv) else tokens)"

definition refill_percpu :: "qer_val \<Rightarrow> u64 \<Rightarrow> qer_bucket \<Rightarrow> qer_bucket" where
  "refill_percpu qv now st =
     (if last_ns st = 0 then \<lparr>tokens_bytes = ucast (qer_burst_bytes qv), last_ns = now\<rparr>
      else let elapsed = now - last_ns st
           in \<lparr>tokens_bytes = add_refill qv elapsed (tokens_bytes st), last_ns = now\<rparr>)"

definition refill_shared :: "qer_val \<Rightarrow> u64 \<Rightarrow> qer_bucket \<Rightarrow> qer_bucket" where
  "refill_shared qv now st =
     (if last_ns st = 0 then \<lparr>tokens_bytes = ucast (qer_burst_bytes qv), last_ns = now\<rparr>
      else let elapsed = (if now > last_ns st then now - last_ns st else 0)
           in \<lparr>tokens_bytes = add_refill qv elapsed (tokens_bytes st), last_ns = now\<rparr>)"

definition take_tokens :: "u32 \<Rightarrow> qer_bucket \<Rightarrow> bool \<times> qer_bucket" where
  "take_tokens pkt_len st =
     (if tokens_bytes st \<ge> ucast pkt_len
      then (True, st\<lparr>tokens_bytes := tokens_bytes st - ucast pkt_len\<rparr>)
      else (False, st))"

definition p_put_qer :: "u32 \<Rightarrow> qer_bucket \<Rightarrow> unit prog" where
  "p_put_qer k b s = Some ((), s\<lparr>qer_state := (qer_state s)(k \<mapsto> b)\<rparr>)"

definition p_put_qer_shared :: "u32 \<Rightarrow> qer_bucket \<Rightarrow> unit prog" where
  "p_put_qer_shared k b s = Some ((), s\<lparr>qer_state_shared := (qer_state_shared s)(k \<mapsto> b)\<rparr>)"

definition upf_qer_admit :: "(nat \<Rightarrow> u64) \<Rightarrow> u32 \<Rightarrow> u32 \<Rightarrow> bool prog" where
  "upf_qer_admit ktime qer_id pkt_len =
     p_bind (p_get (\<lambda>s. qer_table (tables s) qer_id)) (\<lambda>qv.
     case qv of
       None \<Rightarrow> p_return True
     | Some qv \<Rightarrow>
         if qer_mbr_ul_bps qv = 0 then p_return True else
         p_bind (p_get (\<lambda>s. qer_state s qer_id)) (\<lambda>st.
         case st of
           None \<Rightarrow> p_return True
         | Some st \<Rightarrow>
             p_bind (bpf_ktime_get_ns ktime) (\<lambda>now.
             let (admit, st) = take_tokens pkt_len (refill_percpu qv now st) in
             p_bind (p_put_qer qer_id st) (\<lambda>_. p_return admit))))"

definition upf_qer_admit_shared :: "(nat \<Rightarrow> u64) \<Rightarrow> u32 \<Rightarrow> u32 \<Rightarrow> bool prog" where
  "upf_qer_admit_shared ktime qer_id pkt_len =
     p_bind (p_get (\<lambda>s. qer_table (tables s) qer_id)) (\<lambda>qv.
     case qv of
       None \<Rightarrow> p_return True
     | Some qv \<Rightarrow>
         if qer_mbr_ul_bps qv = 0 then p_return True else
         p_bind (p_get (\<lambda>s. qer_state_shared s qer_id)) (\<lambda>st.
         case st of
           None \<Rightarrow> p_return True
         | Some st \<Rightarrow>
             p_bind (bpf_ktime_get_ns ktime) (\<lambda>now.
             let (admit, st) = take_tokens pkt_len (refill_shared qv now st) in
             p_bind (p_put_qer_shared qer_id st) (\<lambda>_. p_return admit))))"

text \<open>The packets of one QER in the order in which they are policed, and the bytes let through.\<close>

fun admit_run :: "(u32 \<Rightarrow> bool prog) \<Rightarrow> u32 list \<Rightarrow> dp \<Rightarrow> (bool list \<times> dp) option" where
  "admit_run admit [] s = Some ([], s)"
| "admit_run admit (len # lens) s =
     (case admit len s of
        None \<Rightarrow> None
      | Some (b, s') \<Rightarrow> map_option (\<lambda>(bs, s''). (b # bs, s'')) (admit_run admit lens s'))"

definition admitted :: "bool list \<Rightarrow> u32 list \<Rightarrow> nat" where
  "admitted bs lens = (\<Sum>(b, len) \<leftarrow> zip bs lens. if b then unat len else 0)"

text \<open>The same run on the bucket alone, for a refill function \<open>R\<close> and clock samples.\<close>

fun bucket_run :: "(qer_val \<Rightarrow> u64 \<Rightarrow> qer_bucket \<Rightarrow> qer_bucket) \<Rightarrow> qer_val \<Rightarrow> (u64 \<times> u32) list \<Rightarrow>
    qer_bucket \<Rightarrow> bool list \<times> qer_bucket" where
  "bucket_run R qv [] st = ([], st)"
| "bucket_run R qv ((now, len) # xs) st =
     (case take_tokens len (R qv now st) of
        (b, st1) \<Rightarrow> (case bucket_run R qv xs st1 of (bs, st2) \<Rightarrow> (b # bs, st2)))"

text \<open>How far the clock moved forward between consecutive samples.\<close>

fun forward :: "nat \<Rightarrow> nat list \<Rightarrow> nat" where
  "forward t [] = 0"
| "forward t (t' # ts) = (t' - t) + forward t' ts"

text \<open>
  Concrete set-ups: one policed QER (id 1) with an unused bucket, and its state; a clock that
  ticks every second; a clock whose third sample is out of order.
\<close>

definition demo_qer :: "nat \<Rightarrow> nat \<Rightarrow> qer_val" where
  "demo_qer mbr burst = \<lparr>qer_mbr_ul_bps = of_nat mbr, qer_mbr_dl_bps = 0,
     qer_burst_bytes = of_nat burst, qer_pad = 0\<rparr>"

definition demo_dp :: "qer_val \<Rightarrow> dp" where
  "demo_dp qv =
     \<lparr>tables = \<lparr>teid_session = Map.empty, pdr_table = Map.empty, far_table = Map.empty,
        qer_table = [1 \<mapsto> qv], tc_bundle_map = Map.empty, dl_ue_map = Map.empty,
        upf_config_map = Map.empty\<rparr>,
      metrics = (\<lambda>_. 0), qer_state = [1 \<mapsto> \<lparr>tokens_bytes = 0, last_ns = 0\<rparr>],
      qer_state_shared = [1 \<mapsto> \<lparr>tokens_bytes = 0, last_ns = 0\<rparr>], urr_counters = Map.empty,
      perf_events = [], ktime_reads = 0\<rparr>"

definition late_clock :: "nat \<Rightarrow> u64" where
  "late_clock i = (if i = 0 then 1000000000 else if i = 2 then 1000000001 else 2000000000)"

definition steady_clock :: "nat \<Rightarrow> u64" where
  "steady_clock i = (if i = 0 then 1000000000 else 2000000000)"

text \<open>The largest rate for which \<^verbatim>\<open>elapsed * mbr_ul_bps\<close> stays below 2^64.\<close>

definition MBR_NO_WRAP :: nat where "MBR_NO_WRAP = 18446744073"

definition policed :: "u32 \<Rightarrow> qer_val \<Rightarrow> dp \<Rightarrow> bool" where
  "policed k qv s \<longleftrightarrow> qer_table (tables s) k = Some qv \<and> qer_mbr_ul_bps qv \<noteq> 0 \<and>
     unat (qer_mbr_ul_bps qv) \<le> MBR_NO_WRAP"

text \<open>\<open>n\<close> clock samples from the \<open>r\<close>-th read on.\<close>

fun samples :: "(nat \<Rightarrow> u64) \<Rightarrow> nat \<Rightarrow> nat \<Rightarrow> u64 list" where
  "samples ktime r 0 = []"
| "samples ktime r (Suc n) = ktime r # samples ktime (Suc r) n"

lemma p_bind_qer [simp]:
  "p_bind (p_put_qer k b) f s = f () (s\<lparr>qer_state := (qer_state s)(k \<mapsto> b)\<rparr>)"
  "p_bind (p_put_qer_shared k b) f s = f () (s\<lparr>qer_state_shared := (qer_state_shared s)(k \<mapsto> b)\<rparr>)"
  "p_bind (bpf_ktime_get_ns ktime) g s = g (ktime (ktime_reads s)) (s\<lparr>ktime_reads := ktime_reads s + 1\<rparr>)"
  by (simp_all add: p_bind_def p_put_qer_def p_put_qer_shared_def bpf_ktime_get_ns_def)

lemma add_refill_burst: "add_refill qv e t \<le> ucast (qer_burst_bytes qv)"
  by (simp add: add_refill_def Let_def not_less)

lemma unat_ucast_u32: "unat (ucast (x :: u32) :: u64) = unat x"
  using unsigned_less [of x, where ?'a = nat] by (simp add: unsigned_ucast_eq take_bit_nat_eq_self_iff)

text \<open>Without wrap-around the refill is at most the rate times the elapsed time.\<close>

lemma add_refill_bound:
  assumes mbr: "unat (qer_mbr_ul_bps qv) \<le> MBR_NO_WRAP" and t: "unat t \<le> unat (qer_burst_bytes qv)"
  shows "8000000000 * unat (add_refill qv e t) \<le> 8000000000 * unat t + unat e * unat (qer_mbr_ul_bps qv)"
proof -
  define e' where "e' = (if e > NS_CAP then NS_CAP else e)"
  define r where "r = (e' * qer_mbr_ul_bps qv) div BITS_NS"
  have e': "unat e' \<le> unat e" "unat e' \<le> 1000000000"
    by (auto simp: e'_def word_le_nat_alt word_less_nat_alt)
  have "unat e' * unat (qer_mbr_ul_bps qv) \<le> 1000000000 * 18446744073"
    using e'(2) mbr unfolding MBR_NO_WRAP_def by (intro mult_le_mono) auto
  then have prod: "unat (e' * qer_mbr_ul_bps qv) = unat e' * unat (qer_mbr_ul_bps qv)"
    by (simp add: unat_word_ariths)
  then have r: "unat r = unat e' * unat (qer_mbr_ul_bps qv) div 8000000000"
    by (simp add: r_def unat_div)
  have r': "8000000000 * unat r \<le> unat e' * unat (qer_mbr_ul_bps qv)"
    unfolding r by simp
  have "unat r \<le> 1000000000 * 18446744073 div 8000000000"
    unfolding r by (intro div_le_mono) fact
  moreover have "unat (qer_burst_bytes qv) < 2 ^ 32" using unsigned_less [of "qer_burst_bytes qv", where ?'a = nat] by simp
  ultimately have "unat (t + r) = unat t + unat r" using t by (simp add: unat_word_ariths)
  then have "8000000000 * unat (t + r) \<le> 8000000000 * unat t + unat e * unat (qer_mbr_ul_bps qv)"
    using r' mult_le_mono1 [OF e'(1), of "unat (qer_mbr_ul_bps qv)"] by linarith
  moreover have "unat (add_refill qv e t) \<le> unat (t + r)"
    by (auto simp: add_refill_def Let_def e'_def r_def word_le_nat_alt word_less_nat_alt)
  ultimately show ?thesis by linarith
qed

lemma take_tokens_cases:
  obtains "take_tokens len st = (True, st\<lparr>tokens_bytes := tokens_bytes st - ucast len\<rparr>)"
      "unat (tokens_bytes st - ucast len) + unat len = unat (tokens_bytes st)"
  | "take_tokens len st = (False, st)"
proof (cases "tokens_bytes st \<ge> ucast len")
  case True
  then have "unat (tokens_bytes st - ucast len) = unat (tokens_bytes st) - unat len"
    by (simp add: unat_sub unat_ucast_u32)
  moreover have "unat len \<le> unat (tokens_bytes st)"
    using True by (simp add: word_le_nat_alt unat_ucast_u32)
  ultimately show thesis using that(1) True by (simp add: take_tokens_def)
qed (use that(2) in \<open>simp add: take_tokens_def\<close>)

lemma take_tokens_le:
  "take_tokens len st = (b, st') \<Longrightarrow>
     unat (tokens_bytes st') + (if b then unat len else 0) = unat (tokens_bytes st) \<and> last_ns st' = last_ns st"
  by (cases rule: take_tokens_cases [of len st]) auto

lemma admitted_simps [simp]:
  "admitted [] [] = 0"
  "admitted (b # bs) (len # lens) = (if b then unat len else 0) + admitted bs lens"
  by (simp_all add: admitted_def)

subsection \<open>What a refill function promises, and the rate bound it gives\<close>

locale token_bucket =
  fixes R :: "qer_val \<Rightarrow> u64 \<Rightarrow> qer_bucket \<Rightarrow> qer_bucket"
    and in_order :: "u64 \<Rightarrow> u64 \<Rightarrow> bool"
  assumes first_use: "last_ns st = 0 \<Longrightarrow> tokens_bytes (R qv now st) = ucast (qer_burst_bytes qv)"
    and stamps: "last_ns (R qv now st) = now"
    and capped: "tokens_bytes (R qv now st) \<le> ucast (qer_burst_bytes qv)"
    and refills: "last_ns st \<noteq> 0 \<Longrightarrow> in_order (last_ns st) now \<Longrightarrow>
      unat (qer_mbr_ul_bps qv) \<le> MBR_NO_WRAP \<Longrightarrow> unat (tokens_bytes st) \<le> unat (qer_burst_bytes qv) \<Longrightarrow>
      8000000000 * unat (tokens_bytes (R qv now st)) \<le>
        8000000000 * unat (tokens_bytes st) + (unat now - unat (last_ns st)) * unat (qer_mbr_ul_bps qv)"
begin

lemma capped_nat: "unat (tokens_bytes (R qv now st)) \<le> unat (qer_burst_bytes qv)"
  using capped [of qv now st] by (simp add: word_le_nat_alt unat_ucast_u32)

lemma run_bound:
  assumes "last_ns st \<noteq> 0" "unat (tokens_bytes st) \<le> unat (qer_burst_bytes qv)"
    "unat (qer_mbr_ul_bps qv) \<le> MBR_NO_WRAP" "0 \<notin> set (map fst xs)"
    "successively in_order (last_ns st # map fst xs)" "bucket_run R qv xs st = (bs, st')"
  shows "8000000000 * (admitted bs (map snd xs) + unat (tokens_bytes st')) \<le>
    8000000000 * unat (tokens_bytes st) +
    forward (unat (last_ns st)) (map (\<lambda>x. unat (fst x)) xs) * unat (qer_mbr_ul_bps qv)"
  using assms
proof (induction xs arbitrary: st bs)
  case Nil
  then show ?case by simp
next
  case (Cons x xs)
  obtain now len where x: "x = (now, len)" by (cases x)
  obtain b st1 where t: "take_tokens len (R qv now st) = (b, st1)" by (rule prod.exhaust)
  obtain bs1 where run: "bucket_run R qv xs st1 = (bs1, st')" "bs = b # bs1"
    using Cons.prems(6) x t by (auto split: prod.splits)
  have st1: "unat (tokens_bytes st1) + (if b then unat len else 0) = unat (tokens_bytes (R qv now st))"
    "last_ns st1 = now"
    using take_tokens_le [OF t] by (simp_all add: stamps)
  have ord: "in_order (last_ns st) now" "successively in_order (now # map fst xs)"
    using Cons.prems(5) x by (simp_all add: successively_Cons)
  have "unat (tokens_bytes st1) \<le> unat (qer_burst_bytes qv)" using st1(1) capped_nat [of qv now st] by linarith
  then have "8000000000 * (admitted bs1 (map snd xs) + unat (tokens_bytes st')) \<le>
      8000000000 * unat (tokens_bytes st1) +
      forward (unat now) (map (\<lambda>x. unat (fst x)) xs) * unat (qer_mbr_ul_bps qv)"
    using Cons.IH [of st1 bs1] Cons.prems(3,4) ord run st1(2) x by auto
  moreover have "8000000000 * unat (tokens_bytes (R qv now st)) \<le>
      8000000000 * unat (tokens_bytes st) + (unat now - unat (last_ns st)) * unat (qer_mbr_ul_bps qv)"
    by (rule refills) (use Cons.prems ord in simp_all)
  ultimately show ?case
    using st1(1) run(2) x by (cases b) (simp_all add: distrib_left distrib_right)
qed

lemma first_run_bound:
  assumes st: "last_ns st = 0" and mbr: "unat (qer_mbr_ul_bps qv) \<le> MBR_NO_WRAP"
    and nz: "0 \<notin> set (map fst ((now, len) # xs))" and ord: "successively in_order (now # map fst xs)"
    and run: "bucket_run R qv ((now, len) # xs) st = (bs, st')"
  shows "8000000000 * admitted bs (len # map snd xs) \<le>
    8000000000 * unat (qer_burst_bytes qv) +
    forward (unat now) (map (\<lambda>x. unat (fst x)) xs) * unat (qer_mbr_ul_bps qv)"
proof -
  obtain b st1 where t: "take_tokens len (R qv now st) = (b, st1)" by (rule prod.exhaust)
  obtain bs1 where r1: "bucket_run R qv xs st1 = (bs1, st')" "bs = b # bs1"
    using run t by (auto split: prod.splits)
  have full: "unat (tokens_bytes (R qv now st)) = unat (qer_burst_bytes qv)"
    using first_use [OF st, of qv now] by (simp add: unat_ucast_u32)
  have st1: "unat (tokens_bytes st1) + (if b then unat len else 0) = unat (qer_burst_bytes qv)"
    "last_ns st1 = now"
    using take_tokens_le [OF t] full by (simp_all add: stamps)
  have "8000000000 * (admitted bs1 (map snd xs) + unat (tokens_bytes st')) \<le>
      8000000000 * unat (tokens_bytes st1) +
      forward (unat now) (map (\<lambda>x. unat (fst x)) xs) * unat (qer_mbr_ul_bps qv)"
    using run_bound [OF _ _ mbr, of st1 xs bs1 st'] st1 nz ord r1 by (cases b) auto
  then show ?thesis using st1(1) r1(2) by (cases b) simp_all
qed

end

interpretation percpu: token_bucket refill_percpu "(\<le>)"
proof (unfold_locales, goal_cases)
  case (4 st now qv)
  then have "unat (now - last_ns st) = unat now - unat (last_ns st)" by (simp add: unat_sub)
  with add_refill_bound [of qv "tokens_bytes st" "now - last_ns st"] 4 show ?case
    by (simp add: refill_percpu_def)
qed (simp_all add: refill_percpu_def add_refill_burst Let_def)

interpretation shared: token_bucket refill_shared "\<lambda>_ _. True"
proof (unfold_locales, goal_cases)
  case (4 st now qv)
  have "unat (if now > last_ns st then now - last_ns st else 0) = unat now - unat (last_ns st)"
    by (auto simp: unat_sub word_less_nat_alt word_le_nat_alt)
  with add_refill_bound [of qv "tokens_bytes st" "if now > last_ns st then now - last_ns st else 0"] 4
  show ?case by (simp add: refill_shared_def)
qed (simp_all add: refill_shared_def add_refill_burst Let_def)

subsection \<open>The programs run the bucket\<close>

lemma admit_percpu:
  assumes "policed k qv s" "qer_state s k = Some st"
  shows "upf_qer_admit ktime k len s =
    (case take_tokens len (refill_percpu qv (ktime (ktime_reads s)) st) of (b, st') \<Rightarrow>
       Some (b, s\<lparr>qer_state := (qer_state s)(k \<mapsto> st'), ktime_reads := ktime_reads s + 1\<rparr>))"
  using assms by (auto simp: upf_qer_admit_def policed_def split: prod.split)

lemma admit_shared:
  assumes "policed k qv s" "qer_state_shared s k = Some st"
  shows "upf_qer_admit_shared ktime k len s =
    (case take_tokens len (refill_shared qv (ktime (ktime_reads s)) st) of (b, st') \<Rightarrow>
       Some (b, s\<lparr>qer_state_shared := (qer_state_shared s)(k \<mapsto> st'), ktime_reads := ktime_reads s + 1\<rparr>))"
  using assms by (auto simp: upf_qer_admit_shared_def policed_def split: prod.split)

lemma admit_run_percpu:
  assumes "policed k qv s" "qer_state s k = Some st"
  shows "\<exists>s'. admit_run (upf_qer_admit ktime k) lens s =
    Some (fst (bucket_run refill_percpu qv (zip (samples ktime (ktime_reads s) (length lens)) lens) st), s')"
  using assms
proof (induction lens arbitrary: s st)
  case (Cons len lens)
  obtain b st1 where t: "take_tokens len (refill_percpu qv (ktime (ktime_reads s)) st) = (b, st1)"
    by (rule prod.exhaust)
  let ?s1 = "s\<lparr>qer_state := (qer_state s)(k \<mapsto> st1), ktime_reads := ktime_reads s + 1\<rparr>"
  obtain s' where "admit_run (upf_qer_admit ktime k) lens ?s1 =
      Some (fst (bucket_run refill_percpu qv (zip (samples ktime (ktime_reads ?s1) (length lens)) lens) st1), s')"
    using Cons.IH [of ?s1 st1] Cons.prems by (auto simp: policed_def)
  then show ?case
    using admit_percpu [OF Cons.prems, of ktime len] t
    by (auto split: prod.splits)
qed simp

lemma admit_run_shared:
  assumes "policed k qv s" "qer_state_shared s k = Some st"
  shows "\<exists>s'. admit_run (upf_qer_admit_shared ktime k) lens s =
    Some (fst (bucket_run refill_shared qv (zip (samples ktime (ktime_reads s) (length lens)) lens) st), s')"
  using assms
proof (induction lens arbitrary: s st)
  case (Cons len lens)
  obtain b st1 where t: "take_tokens len (refill_shared qv (ktime (ktime_reads s)) st) = (b, st1)"
    by (rule prod.exhaust)
  let ?s1 = "s\<lparr>qer_state_shared := (qer_state_shared s)(k \<mapsto> st1), ktime_reads := ktime_reads s + 1\<rparr>"
  obtain s' where "admit_run (upf_qer_admit_shared ktime k) lens ?s1 =
      Some (fst (bucket_run refill_shared qv (zip (samples ktime (ktime_reads ?s1) (length lens)) lens) st1), s')"
    using Cons.IH [of ?s1 st1] Cons.prems by (auto simp: policed_def)
  then show ?case
    using admit_shared [OF Cons.prems, of ktime len] t
    by (auto split: prod.splits)
qed simp

lemma forward_sorted:
  assumes "\<And>i. ktime i \<le> ktime (Suc i)"
  shows "forward (unat (ktime r)) (map unat (samples ktime (Suc r) n)) = unat (ktime (r + n)) - unat (ktime r)"
proof (induction n arbitrary: r)
  case (Suc n)
  have "ktime r \<le> ktime (Suc r)" "ktime (Suc r) \<le> ktime (Suc r + n)"
    using assms lift_Suc_mono_le [of ktime] by auto
  then show ?case using Suc [of "Suc r"] by (simp add: word_le_nat_alt)
qed simp

lemma samples_facts:
  "length (samples ktime r n) = n"
  "(\<And>i. ktime i \<noteq> 0) \<Longrightarrow> 0 \<notin> set (samples ktime r n)"
  "(\<And>i. ktime i \<le> ktime (Suc i)) \<Longrightarrow> successively (\<le>) (samples ktime r n)"
proof -
  show "length (samples ktime r n) = n" by (induction n arbitrary: r) auto
  show "0 \<notin> set (samples ktime r n)" if "\<And>i. ktime i \<noteq> 0"
  proof (induction n arbitrary: r)
    case (Suc n)
    then show ?case using that [of r] by simp
  qed simp
  show "successively (\<le>) (samples ktime r n)" if "\<And>i. ktime i \<le> ktime (Suc i)"
  proof (induction n arbitrary: r)
    case (Suc n)
    then show ?case using that by (cases n) (auto simp: successively_Cons)
  qed simp
qed

lemma zip_samples:
  "map fst (zip (samples ktime r (length lens)) lens) = samples ktime r (length lens)"
  "map snd (zip (samples ktime r (length lens)) lens) = lens"
  "map (\<lambda>x. unat (fst x)) (zip (samples ktime r (length lens)) lens) =
     map unat (samples ktime r (length lens))"
proof -
  show fst: "map fst (zip (samples ktime r (length lens)) lens) = samples ktime r (length lens)"
    and "map snd (zip (samples ktime r (length lens)) lens) = lens"
    by (simp_all add: samples_facts)
  show "map (\<lambda>x. unat (fst x)) (zip (samples ktime r (length lens)) lens) =
     map unat (samples ktime r (length lens))"
    using arg_cong [OF fst, of "map unat"] by (simp add: comp_def)
qed

lemma bucket_run_length: "length (fst (bucket_run R qv xs st)) = length xs"
  by (induction R qv xs st rule: bucket_run.induct) (auto split: prod.splits)

subsection \<open>Properties\<close>

text \<open>
  C19. Rate enforcement of the per-CPU bucket: for a QER with a rate the multiplication can
  carry, a bucket not used before and a clock that does not run backwards, the bytes that
  \<^verbatim>\<open>upf_qer_admit\<close> lets through in any sequence of packets never exceed the burst plus the rate
  times the time between the first and the last packet (in units of 1/8000000000 byte).
\<close>

theorem upf_qer_admit_rate_bound:
  assumes "policed k qv s" and "qer_state s k = Some st" and "last_ns st = 0"
    and "\<And>i. ktime i \<noteq> 0" and "\<And>i. ktime i \<le> ktime (Suc i)"
  shows "\<exists>bs s'. admit_run (upf_qer_admit ktime k) (len # lens) s = Some (bs, s') \<and>
    8000000000 * admitted bs (len # lens) \<le> 8000000000 * unat (qer_burst_bytes qv) +
      (unat (ktime (ktime_reads s + length lens)) - unat (ktime (ktime_reads s))) * unat (qer_mbr_ul_bps qv)"
proof -
  let ?r = "ktime_reads s"
  let ?xs = "zip (samples ktime (Suc ?r) (length lens)) lens"
  let ?run = "bucket_run refill_percpu qv ((ktime ?r, len) # ?xs) st"
  obtain s' where run: "admit_run (upf_qer_admit ktime k) (len # lens) s = Some (fst ?run, s')"
    using admit_run_percpu [OF assms(1,2), of ktime "len # lens"] by auto
  have mbr: "unat (qer_mbr_ul_bps qv) \<le> MBR_NO_WRAP" using assms(1) by (simp add: policed_def)
  have nz: "0 \<notin> set (map fst ((ktime ?r, len) # ?xs))"
    using samples_facts(2) [of ktime ?r "Suc (length lens)"] assms(4) by (simp add: zip_samples)
  have ord: "successively (\<le>) (ktime ?r # map fst ?xs)"
    using samples_facts(3) [of ktime ?r "Suc (length lens)"] assms(5) by (simp add: zip_samples)
  have "8000000000 * admitted (fst ?run) (len # map snd ?xs) \<le>
      8000000000 * unat (qer_burst_bytes qv) +
      forward (unat (ktime ?r)) (map (\<lambda>x. unat (fst x)) ?xs) * unat (qer_mbr_ul_bps qv)"
    by (rule percpu.first_run_bound [OF assms(3) mbr nz ord, of _ "snd ?run"]) simp
  then show ?thesis using run assms(5) by (simp add: zip_samples forward_sorted)
qed

theorem upf_qer_admit_rate_bound_witness:
  "\<exists>bs s'. admit_run (upf_qer_admit steady_clock 1) [1000, 500, 900] (demo_dp (demo_qer 8000 1000)) =
       Some (bs, s') \<and>
     8000000000 * admitted bs [1000, 500, 900] \<le> 8000000000 * 1000 + 1000000000 * 8000"
proof -
  have "\<And>i. steady_clock i \<noteq> 0" "\<And>i. steady_clock i \<le> steady_clock (Suc i)"
    by (simp_all add: steady_clock_def)
  then show ?thesis
    using upf_qer_admit_rate_bound [of 1 "demo_qer 8000 1000" "demo_dp (demo_qer 8000 1000)"
        "\<lparr>tokens_bytes = 0, last_ns = 0\<rparr>" steady_clock 1000 "[500, 900]"]
    by (simp add: policed_def demo_dp_def demo_qer_def MBR_NO_WRAP_def steady_clock_def)
qed

text \<open>
  C20. Rate enforcement of the shared bucket, with clock samples in any order: the admitted
  bytes never exceed the burst plus the rate times the sum of the forward movements between
  consecutive samples. With samples in order that sum is the elapsed time, as for the per-CPU
  bucket.
\<close>

theorem upf_qer_admit_shared_rate_bound:
  assumes "policed k qv s" and "qer_state_shared s k = Some st" and "last_ns st = 0"
    and "\<And>i. ktime i \<noteq> 0"
  shows "\<exists>bs s'. admit_run (upf_qer_admit_shared ktime k) (len # lens) s = Some (bs, s') \<and>
    8000000000 * admitted bs (len # lens) \<le> 8000000000 * unat (qer_burst_bytes qv) +
      forward (unat (ktime (ktime_reads s))) (map unat (samples ktime (Suc (ktime_reads s)) (length lens))) *
        unat (qer_mbr_ul_bps qv)"
proof -
  let ?r = "ktime_reads s"
  let ?xs = "zip (samples ktime (Suc ?r) (length lens)) lens"
  let ?run = "bucket_run refill_shared qv ((ktime ?r, len) # ?xs) st"
  obtain s' where run: "admit_run (upf_qer_admit_shared ktime k) (len # lens) s = Some (fst ?run, s')"
    using admit_run_shared [OF assms(1,2), of ktime "len # lens"] by auto
  have mbr: "unat (qer_mbr_ul_bps qv) \<le> MBR_NO_WRAP" using assms(1) by (simp add: policed_def)
  have nz: "0 \<notin> set (map fst ((ktime ?r, len) # ?xs))"
    using samples_facts(2) [of ktime ?r "Suc (length lens)"] assms(4) by (simp add: zip_samples)
  have ord: "successively (\<lambda>_ _. True) (ktime ?r # map fst ?xs)"
    by (simp add: successively_conv_nth)
  have "8000000000 * admitted (fst ?run) (len # map snd ?xs) \<le>
      8000000000 * unat (qer_burst_bytes qv) +
      forward (unat (ktime ?r)) (map (\<lambda>x. unat (fst x)) ?xs) * unat (qer_mbr_ul_bps qv)"
    by (rule shared.first_run_bound [OF assms(3) mbr nz ord, of _ "snd ?run"]) simp
  then show ?thesis using run by (simp add: zip_samples)
qed

theorem upf_qer_admit_shared_rate_bound_witness:
  "\<exists>bs s'. admit_run (upf_qer_admit_shared late_clock 1) [1000, 1000, 1000, 999]
       (demo_dp (demo_qer 8000 1000)) = Some (bs, s') \<and>
     8000000000 * admitted bs [1000, 1000, 1000, 999] \<le> 8000000000 * 1000 + 1999999999 * 8000"
  using upf_qer_admit_shared_rate_bound [of 1 "demo_qer 8000 1000" "demo_dp (demo_qer 8000 1000)"
      "\<lparr>tokens_bytes = 0, last_ns = 0\<rparr>" late_clock 1000 "[1000, 1000, 999]"]
  by (simp add: policed_def demo_dp_def demo_qer_def MBR_NO_WRAP_def late_clock_def)

text \<open>
  Two CPUs whose clock samples alternate between \<open>t\<close> and \<open>t + e\<close>: each late sample moves \<^verbatim>\<open>last_ns\<close> back, and the
  next one is credited the same interval again. An empty bucket admits \<open>q\<close> bytes per round.
\<close>

lemma add_refill_exact:
  assumes "unat e \<le> 1000000000" "unat (qer_mbr_ul_bps qv) \<le> MBR_NO_WRAP"
    "unat e * unat (qer_mbr_ul_bps qv) div 8000000000 \<le> unat (qer_burst_bytes qv)"
  shows "unat (add_refill qv e 0) = unat e * unat (qer_mbr_ul_bps qv) div 8000000000"
proof -
  have "unat e * unat (qer_mbr_ul_bps qv) \<le> 1000000000 * 18446744073"
    using assms(1,2) unfolding MBR_NO_WRAP_def by (rule mult_le_mono)
  then have "unat (e * qer_mbr_ul_bps qv div BITS_NS) = unat e * unat (qer_mbr_ul_bps qv) div 8000000000"
    by (simp add: unat_div unat_word_ariths)
  then show ?thesis
    using assms(1,3) by (simp add: add_refill_def Let_def word_less_nat_alt unat_ucast_u32)
qed

lemma late_rounds:
  fixes t e :: u64 and qv
  defines "q \<equiv> unat e * unat (qer_mbr_ul_bps qv) div 8000000000"
  assumes "t \<noteq> 0" "t < t + e" "unat e \<le> 1000000000" "unat (qer_mbr_ul_bps qv) \<le> MBR_NO_WRAP"
    "q \<le> unat (qer_burst_bytes qv)" "l \<noteq> 0"
  shows "bucket_run refill_shared qv (concat (replicate n [(t + e, of_nat q), (t, l)])) \<lparr>tokens_bytes = 0, last_ns = t\<rparr> =
    (concat (replicate n [True, False]), \<lparr>tokens_bytes = 0, last_ns = t\<rparr>)"
proof (induction n)
  case (Suc n)
  have r: "unat (add_refill qv e 0) = q" unfolding q_def by (rule add_refill_exact) (use assms in simp_all)
  have "q < 2 ^ 32" using assms(6) unsigned_less [of "qer_burst_bytes qv", where ?'a = nat] by simp
  then have q: "unat (of_nat q :: u32) = q" by (simp add: unat_of_nat)
  then have eq: "add_refill qv e 0 = ucast (of_nat q :: u32)" using r by (simp add: word_unat_eq_iff unat_ucast_u32)
  have high: "take_tokens (of_nat q) (refill_shared qv (t + e) \<lparr>tokens_bytes = 0, last_ns = t\<rparr>) =
      (True, \<lparr>tokens_bytes = 0, last_ns = t + e\<rparr>)"
    using assms(2,3) eq by (simp add: refill_shared_def take_tokens_def)
  have late: "add_refill qv 0 0 = 0" by (simp add: add_refill_def)
  have "ucast l \<noteq> (0 :: u64)" using assms(7) unat_ucast_u32 [of l] by (metis unat_0 unat_eq_0)
  then have low: "take_tokens l (refill_shared qv t \<lparr>tokens_bytes = 0, last_ns = t + e\<rparr>) =
      (False, \<lparr>tokens_bytes = 0, last_ns = t\<rparr>)"
    using assms(2,3) late by (auto simp: refill_shared_def take_tokens_def word_le_nat_alt unat_gt_0)
  show ?case using Suc by (simp add: high low)
qed simp

lemma zip_alternating:
  assumes "\<And>i. ktime (r + i) = (if even i then a else b)"
  shows "zip (samples ktime r (2 * n)) (concat (replicate n [x, y])) = concat (replicate n [(a, x), (b, y)])"
  using assms
proof (induction n arbitrary: r)
  case (Suc n)
  have "ktime (Suc (Suc r) + i) = (if even i then a else b)" for i using Suc.prems [of "Suc (Suc i)"] by simp
  with Suc.IH [of "Suc (Suc r)"] Suc.prems [of 0] Suc.prems [of 1] show ?case by simp
qed simp


definition swing_clock :: "nat \<Rightarrow> u64" where
  "swing_clock i = (if even i then 1000000000 else 2000000000)"


text \<open>
  C22. The refill multiplication wraps: for every QER with a rate above 18446744073 bit/s, when at least a second has passed since the
  last packet, \<^verbatim>\<open>upf_qer_admit\<close> decides a packet on a bucket that was credited the product
  modulo 2^64, which is short of what the rate grants in a second by at least 2305843009 bytes.
\<close>

theorem qer_refill_wraps:
  assumes "qer_table (tables s) k = Some qv" and "MBR_NO_WRAP < unat (qer_mbr_ul_bps qv)"
    and "qer_state s k = Some st" and "last_ns st \<noteq> 0" and "unat (tokens_bytes st) \<le> unat (qer_burst_bytes qv)"
    and "NS_CAP \<le> ktime (ktime_reads s) - last_ns st"
  defines "got \<equiv> unat (tokens_bytes st) + 1000000000 * unat (qer_mbr_ul_bps qv) mod 2 ^ 64 div 8000000000"
  shows "(\<exists>s'. upf_qer_admit ktime k len s = Some (unat len \<le> min (unat (qer_burst_bytes qv)) got, s')) \<and>
    got + 2305843009 \<le> unat (tokens_bytes st) + 1000000000 * unat (qer_mbr_ul_bps qv) div 8000000000"
proof
  let ?mbr = "qer_mbr_ul_bps qv" and ?e = "ktime (ktime_reads s) - last_ns st"
  let ?r = "NS_CAP * ?mbr div BITS_NS"
  have r: "unat ?r = 1000000000 * unat ?mbr mod 2 ^ 64 div 8000000000" by (simp add: unat_div unat_word_ariths)
  have "unat ?r \<le> 2 ^ 64 div 8000000000" unfolding r by (intro div_le_mono) simp
  moreover have "unat (qer_burst_bytes qv) < 2 ^ 32" using unsigned_less [of "qer_burst_bytes qv", where ?'a = nat] by simp
  ultimately have sum: "unat (tokens_bytes st + ?r) = got" using assms(5) r by (simp add: unat_word_ariths got_def)
  have "add_refill qv ?e (tokens_bytes st) =
      (if tokens_bytes st + ?r > ucast (qer_burst_bytes qv) then ucast (qer_burst_bytes qv) else tokens_bytes st + ?r)"
    using assms(6) by (auto simp: add_refill_def Let_def)
  then have "unat (add_refill qv ?e (tokens_bytes st)) = min (unat (qer_burst_bytes qv)) got"
    using sum by (auto simp: word_less_nat_alt unat_ucast_u32)
  moreover have "?mbr \<noteq> 0" using assms(2) by (auto simp: MBR_NO_WRAP_def)
  ultimately show "\<exists>s'. upf_qer_admit ktime k len s = Some (unat len \<le> min (unat (qer_burst_bytes qv)) got, s')"
    using assms(1,3,4)
    by (auto simp: upf_qer_admit_def refill_percpu_def take_tokens_def word_le_nat_alt unat_ucast_u32 Let_def)
  let ?x = "1000000000 * unat ?mbr"
  have "2 ^ 64 \<le> ?x" using assms(2) by (simp add: MBR_NO_WRAP_def)
  then have "?x mod 2 ^ 64 \<le> ?x - 2 ^ 64" by (metis le_mod_geq mod_less_eq_dividend)
  then have "?x mod 2 ^ 64 + 2305843009 * 8000000000 \<le> ?x" using \<open>2 ^ 64 \<le> ?x\<close> by simp
  then have "(?x mod 2 ^ 64 + 2305843009 * 8000000000) div 8000000000 \<le> ?x div 8000000000" by (rule div_le_mono)
  then show "got + 2305843009 \<le> unat (tokens_bytes st) + ?x div 8000000000" by (simp add: got_def)
qed

definition wrap_dp :: dp where
  "wrap_dp = (demo_dp (demo_qer (MBR_NO_WRAP + 1) 1000000))\<lparr>qer_state := [1 \<mapsto> \<lparr>tokens_bytes = 0, last_ns = 1000000000\<rparr>]\<rparr>"

theorem qer_refill_wraps_witness:
  "\<exists>s'. upf_qer_admit (\<lambda>_. 2000000000) 1 1 wrap_dp = Some (False, s')"
  using qer_refill_wraps [of wrap_dp 1 "demo_qer (MBR_NO_WRAP + 1) 1000000" "\<lparr>tokens_bytes = 0, last_ns = 1000000000\<rparr>"
      "\<lambda>_. 2000000000" 1]
  by (simp add: wrap_dp_def demo_dp_def demo_qer_def MBR_NO_WRAP_def)

end
