(* ===== verification/Upf_Tc.thy ===== *)
theory Upf_Tc
  imports Upf_Xdp Upf_Qer
begin

text \<open>
  \<^verbatim>\<open>bpf/upf_tc.c\<close>: the TC ingress program, which enforces the decision of the active bundle
  slot (drop, buffer, or decapsulate, police, account and redirect). \<open>skb\<close> is the socket
  buffer with its linear part, where the program may load, and its fragments, which only
  count in the length. The build switches of the program are the record \<open>build\<close>, the kernel
  helpers the record \<open>helpers\<close>.
\<close>

record skb =
  skb_data :: bytes
  skb_frags :: bytes

record build =
  UPF_QER_SHARED_LOCK :: bool
  UPF_EMIT_DECISION_EVENTS :: bool
  UPF_EMIT_LATENCY_EVENTS :: bool

record helpers =
  ktime_get_ns :: "nat \<Rightarrow> u64"
  skb_adjust_room :: "int \<Rightarrow> skb \<Rightarrow> int \<times> skb"
  redirect :: "u32 \<Rightarrow> int"

definition TC_ACT_OK :: int where "TC_ACT_OK = 0"
definition TC_ACT_SHOT :: int where "TC_ACT_SHOT = 2"
definition TC_ACT_REDIRECT :: int where "TC_ACT_REDIRECT = 7"

definition skb_len :: "skb \<Rightarrow> u32" where
  "skb_len sk = of_nat (length (skb_data sk) + length (skb_frags sk))"

definition p_put_urr :: "u32 \<Rightarrow> urr_val \<Rightarrow> unit prog" where
  "p_put_urr k v s = Some ((), s\<lparr>urr_counters := (urr_counters s)(k \<mapsto> v)\<rparr>)"

text \<open>\<^verbatim>\<open>bpf_map_update_elem(..., BPF_NOEXIST)\<close>, whose result the program ignores.\<close>

definition p_insert_urr :: "u32 \<Rightarrow> urr_val \<Rightarrow> unit prog" where
  "p_insert_urr k v s =
     (if urr_counters s k = None \<and> card (dom (urr_counters s)) < MAX_URRS
      then p_put_urr k v s else Some ((), s))"

definition upf_urr_update :: "u32 \<Rightarrow> u32 \<Rightarrow> unit prog" where
  "upf_urr_update urr_id pkt_len =
     (if urr_id = 0 then p_return () else
      p_bind (p_get (\<lambda>s. urr_counters s urr_id)) (\<lambda>uv.
      p_bind
        (case uv of
           Some v \<Rightarrow> p_put_urr urr_id
             (v\<lparr>bytes_ul := bytes_ul v + ucast pkt_len, pkts_ul := pkts_ul v + 1\<rparr>)
         | None \<Rightarrow> p_insert_urr urr_id
             \<lparr>bytes_ul = ucast pkt_len, bytes_dl = 0, pkts_ul = 1, pkts_dl = 0\<rparr>)
        (\<lambda>_. bump M_TC_URR_UPDATED)))"

definition qer_admit :: "build \<Rightarrow> helpers \<Rightarrow> u32 \<Rightarrow> u32 \<Rightarrow> bool prog" where
  "qer_admit B H = (if UPF_QER_SHARED_LOCK B then upf_qer_admit_shared (ktime_get_ns H)
     else upf_qer_admit (ktime_get_ns H))"

definition upf_far_forward :: "build \<Rightarrow> helpers \<Rightarrow> skb \<Rightarrow> u32 \<Rightarrow> u32 \<Rightarrow> u32 \<Rightarrow> u32 \<Rightarrow> u32 \<Rightarrow> nat \<Rightarrow> u64 \<Rightarrow>
    (int \<times> skb) prog" where
  "upf_far_forward B H sk far_id qer_id urr_id pdr_id generation outer_hdr_len t_entry =
     (case skb_adjust_room H (- int outer_hdr_len) sk of
        (ret, sk1) \<Rightarrow>
     if ret < 0 then p_bind (bump M_TC_DECAP_ERR) (\<lambda>_. p_return (TC_ACT_SHOT, sk1)) else
     p_bind (p_get (\<lambda>s. far_table (tables s) far_id)) (\<lambda>far.
     case far of
       None \<Rightarrow> p_bind (bump M_TC_DECAP_ERR) (\<lambda>_. p_return (TC_ACT_SHOT, sk1))
     | Some far \<Rightarrow>
         let pkt_len = skb_len sk1 in
         p_bind (qer_admit B H qer_id pkt_len) (\<lambda>admit.
         if \<not> admit then p_bind (bump M_TC_QER_DROP) (\<lambda>_. p_return (TC_ACT_SHOT, sk1)) else
         p_bind (bump M_TC_QER_PASS) (\<lambda>_.
         p_bind (upf_urr_update urr_id pkt_len) (\<lambda>_.
         p_bind (if UPF_EMIT_DECISION_EVENTS B
                 then p_emit (DecisionEvent far_id qer_id generation pdr_id) else p_return ()) (\<lambda>_.
         p_bind (if UPF_EMIT_LATENCY_EVENTS B
                 then p_bind (bpf_ktime_get_ns (ktime_get_ns H)) (\<lambda>now. p_emit (LatencyEvent (now - t_entry) pkt_len))
                 else p_return ()) (\<lambda>_.
         p_bind (bump M_TC_FAR_FORWARD) (\<lambda>_.
         let ret = redirect H (far_out_ifindex far) in
         p_bind (if ret \<noteq> TC_ACT_REDIRECT then bump M_TC_REDIRECT_ERR else p_return ()) (\<lambda>_.
         p_return (ret, sk1))))))))))"

text \<open>The part of the program after parsing, for a G-PDU.\<close>

definition tc_enforce :: "build \<Rightarrow> helpers \<Rightarrow> skb \<Rightarrow> u64 \<Rightarrow> u32 \<Rightarrow> nat \<Rightarrow> (int \<times> skb) prog" where
  "tc_enforce B H sk t_entry teid ihl =
     p_bind (p_get (\<lambda>s. teid_session (tables s) teid)) (\<lambda>sess.
     case sess of
       None \<Rightarrow> p_bind (bump M_TC_MISS_FAR) (\<lambda>_. p_return (TC_ACT_OK, sk))
     | Some se \<Rightarrow>
     p_bind (p_get (\<lambda>s. tc_bundle_map (tables s) (sess_pdr_id se))) (\<lambda>bundle.
     case bundle of
       None \<Rightarrow> p_bind (bump M_TC_MISS_FAR) (\<lambda>_. p_return (TC_ACT_OK, sk))
     | Some b \<Rightarrow>
     let cur = active_slot b in
     p_bind (p_get (\<lambda>s. far_table (tables s) (slot_far_id cur))) (\<lambda>far.
     case far of
       None \<Rightarrow> p_bind (bump M_TC_MISS_FAR) (\<lambda>_. p_return (TC_ACT_OK, sk))
     | Some far \<Rightarrow>
     if far_action far = FAR_DROP then
       p_bind (bump M_TC_FAR_DROP) (\<lambda>_. p_return (TC_ACT_SHOT, sk))
     else if far_action far = FAR_BUFFER then
       p_bind (bpf_ktime_get_ns (ktime_get_ns H)) (\<lambda>now.
       p_bind (p_emit (BufferEvent teid (sess_pdr_id se) (slot_far_id cur) (skb_len sk) now)) (\<lambda>_.
       p_bind (bump M_TC_FAR_BUFFER) (\<lambda>_. p_return (TC_ACT_SHOT, sk))))
     else
       let outer_hdr_len = ihl + UDP_HLEN + 8 in
       upf_far_forward B H sk (slot_far_id cur) (slot_qer_id cur) (slot_urr_id cur)
         (sess_pdr_id se) (slot_generation cur) outer_hdr_len t_entry)))"

definition upf_tc_ingress :: "build \<Rightarrow> helpers \<Rightarrow> skb \<Rightarrow> (int \<times> skb) prog" where
  "upf_tc_ingress B H sk =
     p_bind (if UPF_EMIT_LATENCY_EVENTS B then bpf_ktime_get_ns (ktime_get_ns H) else p_return 0) (\<lambda>t_entry.
     let pkt = skb_data sk in
     if ETH_HLEN > length pkt then p_return (TC_ACT_OK, sk) else
     p_bind (p_load16 pkt 12) (\<lambda>h_proto.
     if h_proto \<noteq> bpf_htons ETH_P_IP then p_return (TC_ACT_OK, sk) else
     let ip = ETH_HLEN in
     if ip + IP_HLEN > length pkt then p_return (TC_ACT_OK, sk) else
     p_bind (p_load8 pkt (ip + 9)) (\<lambda>protocol.
     if protocol \<noteq> IPPROTO_UDP then p_return (TC_ACT_OK, sk) else
     p_bind (p_load8 pkt ip) (\<lambda>vihl.
     let ihl = ihl_bytes vihl in
     if ihl < IP_HLEN then p_return (TC_ACT_OK, sk) else
     let udp = ip + ihl in
     if udp + UDP_HLEN > length pkt then p_return (TC_ACT_OK, sk) else
     p_bind (p_load16 pkt (udp + 2)) (\<lambda>dest.
     if dest \<noteq> bpf_htons GTPU_PORT then p_return (TC_ACT_OK, sk) else
     let gtp = udp + UDP_HLEN in
     if gtp + 8 > length pkt then p_return (TC_ACT_OK, sk) else
     p_bind (p_load8 pkt (gtp + 1)) (\<lambda>msg_type.
     if msg_type \<noteq> GTPU_GPDU then p_return (TC_ACT_OK, sk) else
     p_bind (p_load32 pkt (gtp + 4)) (\<lambda>teid_be.
     let teid = bpf_ntohl teid_be in
     tc_enforce B H sk t_entry teid ihl)))))))"

text \<open>The clock read at entry, in the builds that have it.\<close>

definition tc_entry :: "build \<Rightarrow> helpers \<Rightarrow> dp \<Rightarrow> u64 \<times> dp" where
  "tc_entry B H s = (if UPF_EMIT_LATENCY_EVENTS B
     then (ktime_get_ns H (ktime_reads s), s\<lparr>ktime_reads := ktime_reads s + 1\<rparr>) else (0, s))"

text \<open>
  What is relied on of \<^verbatim>\<open>bpf_skb_adjust_room\<close> at the MAC layer with a negative difference: when
  it succeeds it removes the bytes after the Ethernet header.
\<close>

definition decap_law :: "helpers \<Rightarrow> bool" where
  "decap_law H \<longleftrightarrow>
     (\<forall>n sk ret sk'. skb_adjust_room H (- int n) sk = (ret, sk') \<and> 0 \<le> ret \<and> 14 + n \<le> length (skb_data sk) \<longrightarrow>
        skb_data sk' = take 14 (skb_data sk) @ drop (14 + n) (skb_data sk) \<and> skb_frags sk' = skb_frags sk)"

text \<open>The counters a forwarded packet may touch besides those of its FAR action.\<close>

definition forward_metrics :: "metric_idx set" where
  "forward_metrics = {M_TC_DECAP_ERR, M_TC_QER_DROP, M_TC_QER_PASS, M_TC_URR_UPDATED, M_TC_FAR_FORWARD,
     M_TC_REDIRECT_ERR}"

definition count_urr :: "u32 \<Rightarrow> urr_val option \<Rightarrow> urr_val" where
  "count_urr len uv =
     (case uv of
        Some v \<Rightarrow> v\<lparr>bytes_ul := bytes_ul v + ucast len, pkts_ul := pkts_ul v + 1\<rparr>
      | None \<Rightarrow> \<lparr>bytes_ul = ucast len, bytes_dl = 0, pkts_ul = 1, pkts_dl = 0\<rparr>)"

text \<open>The events a forwarded packet emits, by build.\<close>

definition decision_events :: "build \<Rightarrow> u32 \<Rightarrow> u32 \<Rightarrow> u32 \<Rightarrow> u32 \<Rightarrow> perf_event list" where
  "decision_events B far_id qer_id generation pdr_id =
     (if UPF_EMIT_DECISION_EVENTS B then [DecisionEvent far_id qer_id generation pdr_id] else [])"

definition forward_counters :: "u32 \<Rightarrow> int \<Rightarrow> metric_idx list" where
  "forward_counters urr_id ret =
     [M_TC_QER_PASS] @ (if urr_id = 0 then [] else [M_TC_URR_UPDATED]) @ [M_TC_FAR_FORWARD] @
     (if ret = TC_ACT_REDIRECT then [] else [M_TC_REDIRECT_ERR])"

text \<open>URR accounting: a new URR needs room in the map; then exactly one packet is counted.\<close>

definition urr_room :: "u32 \<Rightarrow> dp \<Rightarrow> bool" where
  "urr_room u s \<longleftrightarrow> u = 0 \<or> urr_counters s u \<noteq> None \<or> card (dom (urr_counters s)) < MAX_URRS"

definition counted_urr :: "u32 \<Rightarrow> u32 \<Rightarrow> (u32 \<rightharpoonup> urr_val) \<Rightarrow> (u32 \<rightharpoonup> urr_val)" where
  "counted_urr u len c = (if u = 0 then c else c(u \<mapsto> count_urr len (c u)))"

text \<open>The abstract decision: the session, the active slot and the FAR that a TEID resolves to.\<close>

definition tc_lookup :: "rule_tables \<Rightarrow> u32 \<Rightarrow> (session_val \<times> tc_bundle_slot \<times> far_val) option" where
  "tc_lookup T teid =
     (case teid_session T teid of
        None \<Rightarrow> None
      | Some se \<Rightarrow>
          (case tc_bundle_map T (sess_pdr_id se) of
             None \<Rightarrow> None
           | Some b \<Rightarrow> map_option (\<lambda>far. (se, active_slot b, far)) (far_table T (slot_far_id (active_slot b)))))"

text \<open>
  A concrete set-up: a G-PDU for TEID 4096 carrying four bytes, tables that forward it through
  FAR 1 and count it in URR 1, and helpers that succeed.
\<close>

definition demo_gpdu :: bytes where
  "demo_gpdu =
     [2, 0, 0, 0, 0, 1, 2, 0, 0, 0, 0, 2, 0x08, 0x00] @
     [0x45, 0, 0, 40, 0, 0, 0, 0, 64, 17, 0, 0, 10, 0, 0, 1, 10, 0, 0, 2] @
     [0x08, 0x68, 0x08, 0x68, 0, 20, 0, 0] @
     [0x30, 0xff, 0, 4, 0, 0, 0x10, 0x00] @ [0xde, 0xad, 0xbe, 0xef]"

definition demo_skb :: skb where
  "demo_skb = \<lparr>skb_data = demo_gpdu, skb_frags = []\<rparr>"

definition demo_build :: build where
  "demo_build = \<lparr>UPF_QER_SHARED_LOCK = False, UPF_EMIT_DECISION_EVENTS = True,
     UPF_EMIT_LATENCY_EVENTS = False\<rparr>"

definition demo_adjust :: "int \<Rightarrow> skb \<Rightarrow> int \<times> skb" where
  "demo_adjust d sk =
     (0, sk\<lparr>skb_data := take 14 (skb_data sk) @ replicate (nat d) 0 @ drop (14 + nat (- d)) (skb_data sk)\<rparr>)"

definition demo_helpers :: helpers where
  "demo_helpers = \<lparr>ktime_get_ns = steady_clock, skb_adjust_room = demo_adjust, redirect = (\<lambda>_. 7)\<rparr>"

definition demo_slot :: tc_bundle_slot where
  "demo_slot = \<lparr>slot_far_id = 1, slot_qer_id = 1, slot_urr_id = 1, slot_precedence = 100,
     slot_generation = 0, slot_pad = 0\<rparr>"

definition demo_state :: "u32 \<Rightarrow> nat \<Rightarrow> dp" where
  "demo_state action burst = (demo_dp (demo_qer 8000 burst))
     \<lparr>tables := (tables (demo_dp (demo_qer 8000 burst)))
        \<lparr>teid_session := [4096 \<mapsto> \<lparr>sess_pdr_id = 8192, sess_qer_id = 1, sess_far_id = 1, sess_pad = 0\<rparr>],
         pdr_table := [8192 \<mapsto> \<lparr>pdr_far_id = 1, pdr_qer_id = 1, pdr_precedence = 100, pdr_urr_id = 1\<rparr>],
         far_table := [1 \<mapsto> \<lparr>far_action = action, far_out_ifindex = 2, far_peer_ipv4_be = 0,
           far_out_teid_be = 0\<rparr>],
         tc_bundle_map := [8192 \<mapsto> \<lparr>bundle_active = 0, bundle_pad = 0, bundle_slot0 = demo_slot,
           bundle_slot1 = demo_slot\<rparr>]\<rparr>\<rparr>"

lemma tc_ingress_classify:
  "upf_tc_ingress B H sk s =
     (case tc_entry B H s of (t, s1) \<Rightarrow>
        (case classify (skb_data sk) of
           GPdu teid ihl \<Rightarrow> tc_enforce B H sk t teid ihl s1
         | _ \<Rightarrow> Some ((TC_ACT_OK, sk), s1)))"
proof -
  define pkt where "pkt = skb_data sk"
  note step = upf_tc_ingress_def classify_def Let_def tc_entry_def pkt_def [symmetric]
  consider "length pkt < 14" | "14 \<le> length pkt" "length pkt < 34" | "34 \<le> length pkt" by linarith
  then show ?thesis
  proof cases
    case 3
    define ihl where "ihl = ihl_bytes (rd8 pkt 14)"
    have "rd8 pkt 23 \<noteq> IPPROTO_UDP \<or> ihl < 20 \<or> length pkt < 22 + ihl \<or>
        22 + ihl \<le> length pkt \<and> length pkt < 30 + ihl \<or> 30 + ihl \<le> length pkt" by linarith
    then show ?thesis using 3
      by (elim disjE) (simp_all add: step ihl_def [symmetric] add.commute)
  qed (simp_all add: step)
qed

lemma p_bind_assoc: "p_bind (p_bind m f) g s = p_bind m (\<lambda>x. p_bind (f x) g) s"
  by (simp add: p_bind_def split: option.split)

lemma qer_admit_frame:
  obtains b s' where "qer_admit B H k len s = Some (b, s')" "tables s' = tables s" "metrics s' = metrics s"
    "urr_counters s' = urr_counters s" "perf_events s' = perf_events s"
proof -
  have "\<exists>b s'. qer_admit B H k len s = Some (b, s') \<and> tables s' = tables s \<and> metrics s' = metrics s \<and>
      urr_counters s' = urr_counters s \<and> perf_events s' = perf_events s"
    by (auto simp: qer_admit_def upf_qer_admit_def upf_qer_admit_shared_def Let_def
        split: option.splits prod.splits)
  then show thesis using that by blast
qed

lemma urr_update_frame:
  obtains s' where "upf_urr_update u len s = Some ((), s')" "tables s' = tables s"
    "perf_events s' = perf_events s" "qer_state s' = qer_state s" "qer_state_shared s' = qer_state_shared s"
    "metrics s' = (if u = 0 then metrics s else bumped [M_TC_URR_UPDATED] (metrics s))"
    "u \<noteq> 0 \<Longrightarrow> urr_counters s u \<noteq> None \<or> card (dom (urr_counters s)) < MAX_URRS \<Longrightarrow>
       urr_counters s' = (urr_counters s)(u \<mapsto> count_urr len (urr_counters s u))"
    "u = 0 \<Longrightarrow> urr_counters s' = urr_counters s"
proof -
  note defs = upf_urr_update_def p_put_urr_def p_insert_urr_def p_bind_def bump_def p_get_def count_urr_def
    bumped_Cons
  show thesis
  proof (cases "urr_counters s u")
    case None
    show thesis
      by (rule that [of "snd (the (upf_urr_update u len s))"]) (use None in \<open>auto simp: defs\<close>)
  next
    case (Some v)
    show thesis
      by (rule that [of "snd (the (upf_urr_update u len s))"]) (use Some in \<open>auto simp: defs\<close>)
  qed
qed

lemma bumped_append: "bumped ms2 (bumped ms1 c) = bumped (ms1 @ ms2) c"
  by (simp add: bumped_def fun_eq_iff)

lemma bumped_one: "c(m := c m + 1) = bumped [m] c"
  by (simp add: bumped_Cons)

lemma bumped_other: "m \<notin> set ms \<Longrightarrow> bumped ms c m = c m"
  by (simp add: bumped_def)

lemma far_forward_admitted:
  assumes adj: "skb_adjust_room H (- int n) sk = (ret, sk1)" "0 \<le> ret"
    and far: "far_table (tables s) f = Some far"
    and adm: "qer_admit B H q (skb_len sk1) s = Some (True, s1)"
  defines "rd \<equiv> redirect H (far_out_ifindex far)"
  obtains s' ev where
    "upf_far_forward B H sk f q u p g n t s = Some ((rd, sk1), s')" "tables s' = tables s"
    "metrics s' = bumped (forward_counters u rd) (metrics s)"
    "urr_room u s \<longrightarrow> urr_counters s' = counted_urr u (skb_len sk1) (urr_counters s)"
    "perf_events s' = perf_events s @ decision_events B f q g p @ ev"
    "ev = [] \<or> UPF_EMIT_LATENCY_EVENTS B \<and> (\<exists>l. ev = [LatencyEvent l (skb_len sk1)])"
proof -
  have fr: "tables s1 = tables s" "metrics s1 = metrics s" "urr_counters s1 = urr_counters s"
    "perf_events s1 = perf_events s"
    using adm by (auto intro: qer_admit_frame [of B H q "skb_len sk1" s])
  define s2 where "s2 = s1\<lparr>metrics := bumped [M_TC_QER_PASS] (metrics s1)\<rparr>"
  have s2: "tables s2 = tables s" "metrics s2 = bumped [M_TC_QER_PASS] (metrics s)"
    "urr_counters s2 = urr_counters s" "perf_events s2 = perf_events s"
    using fr by (simp_all add: s2_def)
  obtain s3 where u3: "upf_urr_update u (skb_len sk1) s2 = Some ((), s3)" "tables s3 = tables s"
    "perf_events s3 = perf_events s"
    "metrics s3 = bumped ([M_TC_QER_PASS] @ (if u = 0 then [] else [M_TC_URR_UPDATED])) (metrics s)"
    "urr_room u s \<longrightarrow> urr_counters s3 = counted_urr u (skb_len sk1) (urr_counters s)"
    by (rule urr_update_frame [of u "skb_len sk1" s2])
      (use s2 in \<open>auto simp: bumped_append urr_room_def counted_urr_def\<close>)
  let ?ev = "if UPF_EMIT_LATENCY_EVENTS B
    then [LatencyEvent (ktime_get_ns H (ktime_reads s3) - t) (skb_len sk1)] else []"
  let ?r4 = "if UPF_EMIT_LATENCY_EVENTS B then ktime_reads s3 + 1 else ktime_reads s3"
  let ?s4 = "s3\<lparr>metrics := bumped (forward_counters u rd) (metrics s),
    perf_events := perf_events s @ decision_events B f q g p @ ?ev, ktime_reads := ?r4\<rparr>"
  have run: "p_bind (qer_admit B H q (skb_len sk1)) h s = h True s1"
    "u' = u \<Longrightarrow> p_bind (upf_urr_update u' (skb_len sk1)) h' s2 = h' () s3" for u' and h :: "bool \<Rightarrow> (int \<times> skb) prog" and h'
    using adm u3(1) by (simp_all add: p_bind_def)
  have "upf_far_forward B H sk f q u p g n t s = Some ((rd, sk1), ?s4)"
    using adj far u3(2-5)
    by (simp add: upf_far_forward_def Let_def run s2_def [symmetric] decision_events_def
        forward_counters_def rd_def bumped_one bumped_append p_bind_assoc)
  then show thesis by (rule that) (use u3 in \<open>auto split: if_splits\<close>)
qed

lemma forward_counters_subset: "set (forward_counters u r) \<subseteq> forward_metrics"
  by (auto simp: forward_counters_def forward_metrics_def)

lemma far_forward_rejected:
  assumes adj: "skb_adjust_room H (- int n) sk = (ret, sk1)"
    and rej: "ret < 0 \<or> far_table (tables s) f = None \<or> qer_admit B H q (skb_len sk1) s = Some (False, s1)"
  shows "\<exists>s'. upf_far_forward B H sk f q u p g n t s = Some ((TC_ACT_SHOT, sk1), s') \<and>
    tables s' = tables s \<and> urr_counters s' = urr_counters s \<and> perf_events s' = perf_events s \<and>
    metrics s' = bumped [if ret < 0 \<or> far_table (tables s) f = None then M_TC_DECAP_ERR else M_TC_QER_DROP]
      (metrics s)"
proof (cases "ret < 0 \<or> far_table (tables s) f = None")
  case True
  with adj show ?thesis
    by (auto simp: upf_far_forward_def bumped_Cons split: option.splits)
next
  case False
  with rej have adm: "qer_admit B H q (skb_len sk1) s = Some (False, s1)" by auto
  have fr: "tables s1 = tables s" "metrics s1 = metrics s" "urr_counters s1 = urr_counters s"
    "perf_events s1 = perf_events s"
    using adm by (auto intro: qer_admit_frame [of B H q "skb_len sk1" s])
  have "p_bind (qer_admit B H q (skb_len sk1)) h s = h False s1" for h :: "bool \<Rightarrow> (int \<times> skb) prog"
    using adm by (simp add: p_bind_def)
  with False adj fr show ?thesis
    by (cases "far_table (tables s) f") (auto simp: upf_far_forward_def Let_def bumped_Cons)
qed

lemma far_forward_frame:
  "\<exists>r s'. upf_far_forward B H sk f q u p g n t s = Some (r, s') \<and> tables s' = tables s \<and>
     (\<forall>m. m \<notin> forward_metrics \<longrightarrow> metrics s' m = metrics s m)"
proof -
  obtain ret sk1 where adj: "skb_adjust_room H (- int n) sk = (ret, sk1)" by (rule prod.exhaust)
  obtain b s1 where adm: "qer_admit B H q (skb_len sk1) s = Some (b, s1)" by (rule qer_admit_frame)
  show ?thesis
  proof (cases "ret < 0 \<or> far_table (tables s) f = None \<or> \<not> b")
    case True
    with adm have "ret < 0 \<or> far_table (tables s) f = None \<or>
        qer_admit B H q (skb_len sk1) s = Some (False, s1)" by auto
    from far_forward_rejected [OF adj this, of u p g t] show ?thesis
      by (auto simp: bumped_other forward_metrics_def)
  next
    case False
    then obtain far where far: "far_table (tables s) f = Some far" by auto
    from False adm have adm: "qer_admit B H q (skb_len sk1) s = Some (True, s1)" by simp
    obtain s' where "upf_far_forward B H sk f q u p g n t s =
        Some ((redirect H (far_out_ifindex far), sk1), s')" "tables s' = tables s"
      "metrics s' = bumped (forward_counters u (redirect H (far_out_ifindex far))) (metrics s)"
      by (rule far_forward_admitted [OF adj _ far adm]) (use False in auto)
    then show ?thesis
      using forward_counters_subset [of u "redirect H (far_out_ifindex far)"]
      by (auto intro!: bumped_other)
  qed
qed

text \<open>The enforcement step by the outcome of the lookup and the FAR's action.\<close>

lemma tc_enforce_eq:
  "tc_enforce B H sk t teid ihl s =
     (case tc_lookup (tables s) teid of
        None \<Rightarrow> Some ((TC_ACT_OK, sk), bump_all [M_TC_MISS_FAR] s)
      | Some (se, cur, far) \<Rightarrow>
          if far_action far = FAR_DROP then Some ((TC_ACT_SHOT, sk), bump_all [M_TC_FAR_DROP] s)
          else if far_action far = FAR_BUFFER
          then Some ((TC_ACT_SHOT, sk), bump_all [M_TC_FAR_BUFFER]
            (s\<lparr>perf_events := perf_events s @ [BufferEvent teid (sess_pdr_id se) (slot_far_id cur) (skb_len sk)
                 (ktime_get_ns H (ktime_reads s))], ktime_reads := ktime_reads s + 1\<rparr>))
          else upf_far_forward B H sk (slot_far_id cur) (slot_qer_id cur) (slot_urr_id cur)
            (sess_pdr_id se) (slot_generation cur) (ihl + 16) t s)"
  by (auto simp: tc_enforce_def tc_lookup_def Let_def bump_all_Cons add.commute [of 16] split: option.splits)

lemma tc_enforce_frame:
  "\<exists>r s'. tc_enforce B H sk t teid ihl s = Some (r, s') \<and> tables s' = tables s"
proof (cases "tc_lookup (tables s) teid")
  case (Some x)
  obtain se cur far where x: "x = (se, cur, far)" by (rule prod_cases3)
  obtain r s' where "upf_far_forward B H sk (slot_far_id cur) (slot_qer_id cur) (slot_urr_id cur)
      (sess_pdr_id se) (slot_generation cur) (ihl + 16) t s = Some (r, s')" "tables s' = tables s"
    using far_forward_frame by blast
  with Some x show ?thesis by (simp add: tc_enforce_eq)
qed (simp add: tc_enforce_eq)

text \<open>When nothing speaks against forwarding, the packet leaves decapsulated with the verdict of the redirect.\<close>

lemma ingress_forward_run:
  assumes "classify (skb_data sk) = GPdu teid ihl" "tc_lookup (tables s) teid = Some (se, cur, far)"
    "far_action far \<noteq> FAR_DROP" "far_action far \<noteq> FAR_BUFFER"
    "skb_adjust_room H (- int (ihl + 16)) sk = (ret, sk1)" "0 \<le> ret"
    "qer_admit B H (slot_qer_id cur) (skb_len sk1) (snd (tc_entry B H s)) = Some (True, s1)"
  obtains s' where "upf_tc_ingress B H sk s = Some ((redirect H (far_out_ifindex far), sk1), s')"
proof -
  obtain t s0 where e: "tc_entry B H s = (t, s0)" by (rule prod.exhaust)
  have s0: "tables s0 = tables s" using e by (auto simp: tc_entry_def split: if_splits)
  have far: "far_table (tables s0) (slot_far_id cur) = Some far"
    using assms(2) s0 by (auto simp: tc_lookup_def split: option.splits)
  have adm: "qer_admit B H (slot_qer_id cur) (skb_len sk1) s0 = Some (True, s1)" using assms(7) e by simp
  obtain s' where "upf_far_forward B H sk (slot_far_id cur) (slot_qer_id cur) (slot_urr_id cur)
      (sess_pdr_id se) (slot_generation cur) (ihl + 16) t s0 = Some ((redirect H (far_out_ifindex far), sk1), s')"
    by (rule far_forward_admitted [OF assms(5,6) far adm])
  with assms(1-4) e s0 that show thesis by (simp add: tc_ingress_classify tc_enforce_eq)
qed

lemma demo_classify: "classify demo_gpdu = GPdu 4096 20"
  by code_simp

lemma demo_lookup: "tc_lookup (tables (demo_state a burst)) 4096 =
    Some (\<lparr>sess_pdr_id = 8192, sess_qer_id = 1, sess_far_id = 1, sess_pad = 0\<rparr>, demo_slot,
      \<lparr>far_action = a, far_out_ifindex = 2, far_peer_ipv4_be = 0, far_out_teid_be = 0\<rparr>)"
  by (simp add: tc_lookup_def demo_state_def active_slot_def demo_slot_def)

lemma demo_decap_law: "decap_law demo_helpers"
  by (auto simp: decap_law_def demo_helpers_def demo_adjust_def)

subsection \<open>Properties\<close>

text \<open>
  C15. Safety of \<^verbatim>\<open>upf_tc_ingress\<close> in every build and with any behaviour of the kernel helpers: the
  program never accesses the packet out of bounds and never changes the rule maps. Traffic that
  is not a G-PDU passes unmodified and uncounted; a G-PDU without session, bundle or FAR passes
  unmodified and is counted as a miss; FAR DROP drops it; FAR BUFFER drops it and notifies the
  control plane with the TEID, PDR, FAR and length of the packet.
\<close>

theorem upf_tc_ingress_safe:
  "\<exists>v sk' s'. upf_tc_ingress B H sk s = Some ((v, sk'), s') \<and> tables s' = tables s \<and>
     (case classify (skb_data sk) of
        GPdu teid ihl \<Rightarrow>
          (case tc_lookup (tables s) teid of
             None \<Rightarrow> v = TC_ACT_OK \<and> sk' = sk \<and> metrics s' = bumped [M_TC_MISS_FAR] (metrics s)
           | Some (se, cur, far) \<Rightarrow>
               if far_action far = FAR_DROP
               then v = TC_ACT_SHOT \<and> sk' = sk \<and> metrics s' = bumped [M_TC_FAR_DROP] (metrics s) \<and>
                 urr_counters s' = urr_counters s \<and> perf_events s' = perf_events s
               else if far_action far = FAR_BUFFER
               then v = TC_ACT_SHOT \<and> sk' = sk \<and> metrics s' = bumped [M_TC_FAR_BUFFER] (metrics s) \<and>
                 (\<exists>ts. perf_events s' = perf_events s @
                    [BufferEvent teid (sess_pdr_id se) (slot_far_id cur) (skb_len sk) ts])
               else metrics s' M_TC_MISS_FAR = metrics s M_TC_MISS_FAR)
      | _ \<Rightarrow> v = TC_ACT_OK \<and> sk' = sk \<and> metrics s' = metrics s \<and> urr_counters s' = urr_counters s \<and>
          perf_events s' = perf_events s)"
proof -
  obtain t s1 where e: "tc_entry B H s = (t, s1)" by (rule prod.exhaust)
  have s1: "tables s1 = tables s" "metrics s1 = metrics s" "urr_counters s1 = urr_counters s"
    "perf_events s1 = perf_events s"
    using e by (auto simp: tc_entry_def split: if_splits)
  show ?thesis
  proof (cases "classify (skb_data sk)")
    case (GPdu teid ihl)
    show ?thesis
    proof (cases "tc_lookup (tables s) teid")
      case (Some x)
      obtain se cur far where x: "x = (se, cur, far)" by (rule prod_cases3)
      obtain v sk' s' where "upf_far_forward B H sk (slot_far_id cur) (slot_qer_id cur) (slot_urr_id cur)
          (sess_pdr_id se) (slot_generation cur) (ihl + 16) t s1 = Some ((v, sk'), s')" "tables s' = tables s1"
        "metrics s' M_TC_MISS_FAR = metrics s1 M_TC_MISS_FAR"
        using far_forward_frame [of B H sk "slot_far_id cur" "slot_qer_id cur" "slot_urr_id cur"
            "sess_pdr_id se" "slot_generation cur" "ihl + 16" t s1]
        by (auto simp: forward_metrics_def)
      with GPdu Some x e s1 show ?thesis by (simp add: tc_ingress_classify tc_enforce_eq)
    qed (use GPdu e s1 in \<open>simp add: tc_ingress_classify tc_enforce_eq\<close>)
  qed (use e s1 in \<open>simp_all add: tc_ingress_classify\<close>)
qed

text \<open>
  C13. A forwarded packet: when the decapsulation succeeds and the QER admits the packet, what
  leaves is the Ethernet header followed by the inner packet, exactly without the outer IPv4,
  UDP and GTP-U headers; the verdict is that of the redirect to the FAR's interface; the packet
  is counted once in its URR, with its decapsulated length; the stage counters are QER pass, URR,
  forward and, when the redirect fails, redirect error; and the decision event, in the builds
  that emit it, names the FAR, QER and generation of the one active slot.
\<close>

theorem upf_tc_ingress_forwards:
  assumes "decap_law H" and "classify (skb_data sk) = GPdu teid ihl"
    and "tc_lookup (tables s) teid = Some (se, cur, far)"
    and "far_action far \<noteq> FAR_DROP" and "far_action far \<noteq> FAR_BUFFER"
    and "skb_adjust_room H (- int (ihl + 16)) sk = (ret, sk1)" and "0 \<le> ret"
    and "qer_admit B H (slot_qer_id cur) (skb_len sk1) (snd (tc_entry B H s)) = Some (True, s1)"
    and "urr_room (slot_urr_id cur) s"
  defines "rd \<equiv> redirect H (far_out_ifindex far)"
  shows "\<exists>s' ev. upf_tc_ingress B H sk s = Some ((rd, sk1), s') \<and>
    skb_data sk1 = take 14 (skb_data sk) @ drop (30 + ihl) (skb_data sk) \<and>
    skb_frags sk1 = skb_frags sk \<and>
    metrics s' = bumped (forward_counters (slot_urr_id cur) rd) (metrics s) \<and>
    urr_counters s' = counted_urr (slot_urr_id cur) (skb_len sk1) (urr_counters s) \<and>
    perf_events s' = perf_events s @
      decision_events B (slot_far_id cur) (slot_qer_id cur) (slot_generation cur) (sess_pdr_id se) @ ev \<and>
    (ev = [] \<or> UPF_EMIT_LATENCY_EVENTS B \<and> (\<exists>l. ev = [LatencyEvent l (skb_len sk1)]))"
proof -
  obtain t s0 where e: "tc_entry B H s = (t, s0)" by (rule prod.exhaust)
  have s0: "tables s0 = tables s" "metrics s0 = metrics s" "urr_counters s0 = urr_counters s"
    "perf_events s0 = perf_events s"
    using e by (auto simp: tc_entry_def split: if_splits)
  have far: "far_table (tables s0) (slot_far_id cur) = Some far"
    using assms(3) s0 by (auto simp: tc_lookup_def split: option.splits)
  have len: "14 + (ihl + 16) \<le> length (skb_data sk)"
    using assms(2) by (auto simp: classify_def Let_def split: if_splits)
  have adm: "qer_admit B H (slot_qer_id cur) (skb_len sk1) s0 = Some (True, s1)" using assms(8) e by simp
  obtain s' ev where fwd: "upf_far_forward B H sk (slot_far_id cur) (slot_qer_id cur) (slot_urr_id cur)
      (sess_pdr_id se) (slot_generation cur) (ihl + 16) t s0 = Some ((rd, sk1), s')"
    "metrics s' = bumped (forward_counters (slot_urr_id cur) rd) (metrics s0)"
    "urr_room (slot_urr_id cur) s0 \<longrightarrow>
       urr_counters s' = counted_urr (slot_urr_id cur) (skb_len sk1) (urr_counters s0)"
    "perf_events s' = perf_events s0 @
      decision_events B (slot_far_id cur) (slot_qer_id cur) (slot_generation cur) (sess_pdr_id se) @ ev"
    "ev = [] \<or> UPF_EMIT_LATENCY_EVENTS B \<and> (\<exists>l. ev = [LatencyEvent l (skb_len sk1)])"
    unfolding rd_def by (rule far_forward_admitted [OF assms(6,7) far adm])
  have "upf_tc_ingress B H sk s = Some ((rd, sk1), s')"
    using assms(2-5) e s0 fwd(1) by (simp add: tc_ingress_classify tc_enforce_eq)
  moreover have "skb_data sk1 = take 14 (skb_data sk) @ drop (30 + ihl) (skb_data sk)"
    "skb_frags sk1 = skb_frags sk"
    using assms(1,6,7) len unfolding decap_law_def by (fastforce simp: add.commute add.left_commute)+
  moreover have "urr_room (slot_urr_id cur) s0" using assms(9) s0 by (simp add: urr_room_def)
  ultimately show ?thesis using fwd s0 by auto
qed

lemma demo_entry: "tc_entry demo_build H s = (0, s)"
  by (simp add: tc_entry_def demo_build_def)

lemma demo_admit:
  "\<exists>s1. qer_admit demo_build demo_helpers 1 18 (demo_state a 1000) = Some (True, s1)"
  "\<exists>s1. qer_admit demo_build demo_helpers 1 18 (demo_state a 10) = Some (False, s1)"
  by (simp_all add: qer_admit_def demo_build_def demo_helpers_def demo_state_def
      demo_dp_def demo_qer_def upf_qer_admit_def refill_percpu_def take_tokens_def steady_clock_def)

lemma demo_room: "urr_room 1 (demo_state a n)"
  by (simp add: urr_room_def demo_state_def demo_dp_def MAX_URRS_def)

lemma demo_decapped: "demo_adjust (- int (20 + 16)) demo_skb =
    (0, \<lparr>skb_data = take 14 demo_gpdu @ [0xde, 0xad, 0xbe, 0xef], skb_frags = []\<rparr>)"
  by (simp add: demo_adjust_def demo_skb_def demo_gpdu_def)

theorem upf_tc_ingress_forwards_witness:
  "\<exists>s'. upf_tc_ingress demo_build demo_helpers demo_skb (demo_state FAR_FORWARD 1000) =
       Some ((TC_ACT_REDIRECT, \<lparr>skb_data = take 14 demo_gpdu @ [0xde, 0xad, 0xbe, 0xef], skb_frags = []\<rparr>), s') \<and>
     urr_counters s' 1 = Some \<lparr>bytes_ul = 18, bytes_dl = 0, pkts_ul = 1, pkts_dl = 0\<rparr> \<and>
     perf_events s' = [DecisionEvent 1 1 0 8192]"
proof -
  let ?s = "demo_state FAR_FORWARD 1000"
  let ?sk1 = "\<lparr>skb_data = take 14 demo_gpdu @ [0xde, 0xad, 0xbe, 0xef], skb_frags = []\<rparr>"
  have len: "skb_len ?sk1 = 18" by (simp add: skb_len_def demo_gpdu_def)
  obtain s1 where adm: "qer_admit demo_build demo_helpers (slot_qer_id demo_slot) (skb_len ?sk1)
      (snd (tc_entry demo_build demo_helpers ?s)) = Some (True, s1)"
    unfolding demo_entry len using demo_admit(1) by (auto simp: demo_slot_def)
  show ?thesis
    using upf_tc_ingress_forwards [OF demo_decap_law _ demo_lookup _ _ _ _ adm, of demo_skb 20 0]
      demo_classify demo_decapped len demo_room
    by (auto simp: demo_skb_def demo_slot_def demo_helpers_def TC_ACT_REDIRECT_def demo_build_def
        decision_events_def counted_urr_def count_urr_def demo_state_def demo_dp_def)
qed

text \<open>
  C14. A packet that is not forwarded is not charged. The outer headers are removed before the QER is asked, so what
  is dropped is the buffer after that call: when the decapsulation fails or the QER rejects the packet,
  the verdict is a drop, exactly the counter of the cause is incremented, the URR is unchanged and no
  decision event is emitted.
\<close>

theorem upf_tc_ingress_rejects:
  assumes "classify (skb_data sk) = GPdu teid ihl"
    and "tc_lookup (tables s) teid = Some (se, cur, far)"
    and "far_action far \<noteq> FAR_DROP" and "far_action far \<noteq> FAR_BUFFER"
    and "skb_adjust_room H (- int (ihl + 16)) sk = (ret, sk1)"
    and "ret < 0 \<or> qer_admit B H (slot_qer_id cur) (skb_len sk1) (snd (tc_entry B H s)) = Some (False, s1)"
  shows "\<exists>s'. upf_tc_ingress B H sk s = Some ((TC_ACT_SHOT, sk1), s') \<and>
    metrics s' = bumped [if ret < 0 then M_TC_DECAP_ERR else M_TC_QER_DROP] (metrics s) \<and>
    urr_counters s' = urr_counters s \<and> perf_events s' = perf_events s"
proof -
  obtain t s0 where e: "tc_entry B H s = (t, s0)" by (rule prod.exhaust)
  have s0: "tables s0 = tables s" "metrics s0 = metrics s" "urr_counters s0 = urr_counters s"
    "perf_events s0 = perf_events s"
    using e by (auto simp: tc_entry_def split: if_splits)
  have far: "far_table (tables s0) (slot_far_id cur) = Some far"
    using assms(2) s0 by (auto simp: tc_lookup_def split: option.splits)
  have "ret < 0 \<or> far_table (tables s0) (slot_far_id cur) = None \<or>
      qer_admit B H (slot_qer_id cur) (skb_len sk1) s0 = Some (False, s1)"
    using assms(6) e by auto
  from far_forward_rejected [OF assms(5) this, of "slot_urr_id cur" "sess_pdr_id se" "slot_generation cur" t]
  show ?thesis using assms(1-4) e s0 far by (auto simp: tc_ingress_classify tc_enforce_eq)
qed

theorem upf_tc_ingress_rejects_witness:
  "\<exists>sk1 s'. upf_tc_ingress demo_build demo_helpers demo_skb (demo_state FAR_FORWARD 10) =
       Some ((TC_ACT_SHOT, sk1), s') \<and> urr_counters s' = Map.empty \<and> metrics s' M_TC_QER_DROP = 1"
proof -
  let ?s = "demo_state FAR_FORWARD 10"
  let ?sk1 = "\<lparr>skb_data = take 14 demo_gpdu @ [0xde, 0xad, 0xbe, 0xef], skb_frags = []\<rparr>"
  have len: "skb_len ?sk1 = 18" by (simp add: skb_len_def demo_gpdu_def)
  obtain s1 where adm: "qer_admit demo_build demo_helpers (slot_qer_id demo_slot) (skb_len ?sk1)
      (snd (tc_entry demo_build demo_helpers ?s)) = Some (False, s1)"
    unfolding demo_entry len using demo_admit(2) by (auto simp: demo_slot_def)
  show ?thesis
    using upf_tc_ingress_rejects [OF _ demo_lookup _ _ _ disjI2 [OF adm], of demo_skb 20 0]
      demo_classify demo_decapped
    by (auto simp: demo_skb_def demo_helpers_def demo_state_def demo_dp_def bumped_def)
qed

end
