(* ===== verification/Analyze.thy ===== *)
theory Analyze
  imports Py_Text Upf_Datapath
begin

text \<open>
  \<^verbatim>\<open>results_native/transactional_consistency/analyze.py\<close>: the parser of the captured decision events
  and the counts the script reports. \<open>parse\<close> works on the lines of the capture file; the property
  is that it recovers exactly the events that were captured, from the textual form the capture
  tool prints.
\<close>

subsection \<open>\<^verbatim>\<open>bytes.fromhex\<close> and \<^verbatim>\<open>parse\<close>\<close>

definition hex_val :: "char \<Rightarrow> int option" where
  "hex_val c = (case digit_val c of Some d \<Rightarrow> if d < 16 then Some d else None | None \<Rightarrow> None)"

definition is_ascii_space :: "char \<Rightarrow> bool" where
  "is_ascii_space c \<longleftrightarrow> of_char c \<in> {9, 10, 11, 12, 13, 32 :: nat}"

fun fromhex :: "string \<Rightarrow> bytes res" where
  "fromhex [] = Inr []"
| "fromhex [c] = (if is_ascii_space c then Inr [] else Inl ValueError)"
| "fromhex (c # d # cs) =
     (if is_ascii_space c then fromhex (d # cs)
      else case (hex_val c, hex_val d) of
          (Some x, Some y) \<Rightarrow> res_bind (fromhex cs) (\<lambda>bs. Inr (word_of_int (16 * x + y) # bs))
        | _ \<Rightarrow> Inl ValueError)"

text \<open>\<^verbatim>\<open>line.strip().replace(' ', '')\<close>\<close>

definition squeeze :: "string \<Rightarrow> string" where
  "squeeze l = filter (\<lambda>c. c \<noteq> CHR '' '') (strip l)"

type_synonym event = "int \<times> int \<times> int \<times> int"

definition event_of :: "bytes \<Rightarrow> event" where
  "event_of b =
     (let raw = slice 0 16 b in
      (le_int (slice 0 4 raw), le_int (slice 4 8 raw), le_int (slice 8 12 raw), le_int (slice 12 16 raw)))"

text \<open>
  The loop of \<^verbatim>\<open>parse\<close>; its argument is the rest of the lines from index \<open>i\<close> on.
\<close>

function parse :: "string list \<Rightarrow> event list \<Rightarrow> event list res" where
  "parse [] events = Inr events"
| "parse (l # ls) events =
     (if take 2 l = ''=='' then
        (case ls of
           [] \<Rightarrow> Inl IndexError
         | l1 # rest \<Rightarrow>
             let hex1 = squeeze l1;
                 hex2 = (case rest of [] \<Rightarrow> [] | l2 # _ \<Rightarrow> squeeze l2)
             in res_bind (fromhex (hex1 @ hex2)) (\<lambda>b. parse (drop 2 ls) (events @ [event_of b])))
      else parse ls events)"
  by pat_completeness auto
termination
  by (relation "measure (\<lambda>(ls, _). length ls)") auto

subsection \<open>The report\<close>

definition valid_pairs :: "(int \<times> int) list" where
  "valid_pairs = [(1, 1), (3, 3)]"

definition torn :: "event list \<Rightarrow> event list" where
  "torn events = filter (\<lambda>(far_id, qer_id, gen, pdr_id). (far_id, qer_id) \<notin> set valid_pairs) events"

definition mismatches :: "event list \<Rightarrow> event list" where
  "mismatches events = filter (\<lambda>(far_id, qer_id, gen, pdr_id).
     (far_id, qer_id) \<noteq> (if gen mod 2 = 0 then (1, 1) else (3, 3))) events"

definition pair_distribution :: "event list \<Rightarrow> int \<times> int \<Rightarrow> nat" where
  "pair_distribution events p = length (filter (\<lambda>(far_id, qer_id, gen, pdr_id). (far_id, qer_id) = p) events)"

record report =
  total_events :: nat
  torn_events :: nat
  parity_mismatches :: nat
  distribution :: "int \<times> int \<Rightarrow> nat"
  distinct_generations :: nat

definition analyze_main :: "string list \<Rightarrow> report res" where
  "analyze_main lines =
     res_bind (parse lines []) (\<lambda>events. Inr
       \<lparr>total_events = length events, torn_events = length (torn events),
        parity_mismatches = length (mismatches events), distribution = pair_distribution events,
        distinct_generations = length (remdups (map (\<lambda>(far_id, qer_id, gen, pdr_id). gen) events))\<rparr>)"

subsection \<open>What the capture tool prints\<close>

text \<open>
  For each sample a header line that starts with two equal signs, the first sixteen bytes in two
  groups of eight, and the padding of the sample on a line of its own; other lines (the tool's
  own messages) do not start with two equal signs.
\<close>

definition hex2 :: "u8 \<Rightarrow> string" where
  "hex2 b = [digit_char (unat b div 16), digit_char (unat b mod 16)]"

definition hex_line :: "bytes \<Rightarrow> string" where
  "hex_line bs =
     str_join '' '' (map hex2 (take 8 bs)) @
     (if length bs \<le> 8 then [] else ''  '' @ str_join '' '' (map hex2 (drop 8 bs))) @ [CHR 0x0A]"

datatype capture_item = Sample string bytes bytes | Message string

fun item_ok :: "capture_item \<Rightarrow> bool" where
  "item_ok (Sample h b pad) = (length b = 16)"
| "item_ok (Message m) = (take 2 m \<noteq> ''=='')"

fun item_lines :: "capture_item \<Rightarrow> string list" where
  "item_lines (Sample h b pad) = [''=='' @ h, hex_line b, hex_line pad]"
| "item_lines (Message m) = [m]"

fun item_event :: "capture_item \<Rightarrow> event list" where
  "item_event (Sample h b pad) = [event_of b]"
| "item_event (Message m) = []"

text \<open>The bytes of a \<^verbatim>\<open>struct decision_event\<close>.\<close>

definition decision_bytes :: "u32 \<Rightarrow> u32 \<Rightarrow> u32 \<Rightarrow> u32 \<Rightarrow> bytes" where
  "decision_bytes far_id qer_id generation pdr_id =
     le_bytes 4 (uint far_id) @ le_bytes 4 (uint qer_id) @ le_bytes 4 (uint generation) @ le_bytes 4 (uint pdr_id)"

subsection \<open>The parser undoes the printer\<close>

lemma hex2_digits:
  assumes "d < 16"
  shows "\<not> is_ascii_space (digit_char d)" "hex_val (digit_char d) = Some (int d)" "digit_char d \<noteq> CHR '' ''"
proof -
  have sp: "is_space CHR '' ''" by code_simp
  have sub: "is_ascii_space c \<Longrightarrow> is_space c" for c by (auto simp: is_ascii_space_def is_space_def)
  note ns = digit_facts(3) [OF assms]
  show "\<not> is_ascii_space (digit_char d)" using ns sub by blast
  show "digit_char d \<noteq> CHR '' ''" using ns sp by metis
  show "hex_val (digit_char d) = Some (int d)" using assms by (simp add: hex_val_def)
qed

lemma filter_hex2: "filter (\<lambda>c. c \<noteq> CHR '' '') (hex2 b) = hex2 b"
  using hex_digits [of b] by (simp add: hex2_def hex2_digits)

lemma fromhex_hex2: "fromhex (hex2 b @ cs) = res_bind (fromhex cs) (\<lambda>bs. Inr (b # bs))"
proof -
  have "16 * int (unat b div 16) + int (unat b mod 16) = int (16 * (unat b div 16) + unat b mod 16)"
    unfolding of_nat_add of_nat_mult by simp
  also have "\<dots> = uint b" by (simp only: mult_div_mod_eq uint_nat)
  finally have "(word_of_int (16 * int (unat b div 16) + int (unat b mod 16)) :: u8) = b" by simp
  then show ?thesis using hex_digits [of b] by (simp add: hex2_def hex2_digits del: of_nat_mod)
qed

lemma fromhex_concat: "fromhex (concat (map hex2 bs)) = Inr bs"
  by (induction bs) (simp_all add: fromhex_hex2)

lemma squeeze_join: "filter (\<lambda>c. c \<noteq> CHR '' '') (str_join '' '' (map hex2 bs)) = concat (map hex2 bs)"
proof (induction bs)
  case (Cons b bs)
  then show ?case by (cases bs) (simp_all add: filter_hex2)
qed simp

lemma strip_line:
  assumes "x \<noteq> []" "\<not> is_space (hd x)" "\<not> is_space (last x)"
  shows "strip (x @ [CHR 0x0A]) = x"
proof -
  have nl: "is_space CHR 0x0A" by code_simp
  have skip: "dropWhile is_space (y @ ys) = y @ ys" if "y \<noteq> []" "\<not> is_space (hd y)" for y ys
    using that by (cases y) simp_all
  have "hd (rev x) = last x" by (simp add: hd_rev)
  then have "dropWhile is_space (rev x) = rev x" using skip [of "rev x" "[]"] assms by simp
  then show ?thesis using skip [OF assms(1,2), of "[CHR 0x0A]"] nl by (simp add: strip_def)
qed

lemma join_nonempty: "bs \<noteq> [] \<Longrightarrow> str_join '' '' (map hex2 bs) \<noteq> []"
  by (cases bs; cases "tl bs") (auto simp: hex2_def)

lemma join_ends:
  assumes "bs \<noteq> []"
  shows "\<not> is_space (hd (str_join '' '' (map hex2 bs)))" "\<not> is_space (last (str_join '' '' (map hex2 bs)))"
proof -
  show "\<not> is_space (hd (str_join '' '' (map hex2 bs)))"
    using assms hex_digits by (cases bs; cases "tl bs") (auto simp: hex2_def)
  show "\<not> is_space (last (str_join '' '' (map hex2 bs)))"
    using assms
  proof (induction bs)
    case (Cons b bs)
    show ?case
    proof (cases bs)
      case Nil
      then show ?thesis using hex_digits [of b] by (simp add: hex2_def)
    next
      case (Cons c cs)
      then have "str_join '' '' (map hex2 (b # bs)) = hex2 b @ '' '' @ str_join '' '' (map hex2 bs)" by simp
      then show ?thesis using join_nonempty [of bs] Cons.IH Cons by simp
    qed
  qed simp
qed

lemma squeeze_hex_line: "squeeze (hex_line bs) = concat (map hex2 bs)"
proof (cases "bs = []")
  case True
  have "strip [CHR 0x0A] = []" by code_simp
  with True show ?thesis by (simp add: squeeze_def hex_line_def)
next
  case False
  let ?x = "str_join '' '' (map hex2 (take 8 bs)) @
     (if length bs \<le> 8 then [] else ''  '' @ str_join '' '' (map hex2 (drop 8 bs)))"
  have t: "take 8 bs \<noteq> []" using False by simp
  have "strip (?x @ [CHR 0x0A]) = ?x"
  proof (rule strip_line)
    show "?x \<noteq> []" using join_nonempty [OF t] by simp
    show "\<not> is_space (hd ?x)" using join_nonempty [OF t] join_ends(1) [OF t] by simp
    show "\<not> is_space (last ?x)"
      using join_ends(2) [OF t] join_nonempty [of "drop 8 bs"] join_ends(2) [of "drop 8 bs"]
      by (cases "length bs \<le> 8") auto
  qed
  then have "squeeze (hex_line bs) = concat (map hex2 (take 8 bs)) @ concat (map hex2 (drop 8 bs))"
    by (simp add: squeeze_def hex_line_def squeeze_join)
  also have "\<dots> = concat (map hex2 bs)" by (simp flip: concat_append map_append)
  finally show ?thesis .
qed

lemma parse_items:
  "list_all item_ok items \<Longrightarrow>
   parse (concat (map item_lines items)) events = Inr (events @ concat (map item_event items))"
proof (induction items arbitrary: events)
  case (Cons i items)
  show ?case
  proof (cases i)
    case (Sample h b pad)
    have "fromhex (squeeze (hex_line b) @ squeeze (hex_line pad)) = Inr (b @ pad)"
      using fromhex_concat [of "b @ pad"] by (simp add: squeeze_hex_line)
    moreover have "event_of (b @ pad) = event_of b" using Cons.prems Sample by (simp add: event_of_def Let_def)
    ultimately show ?thesis using Cons Sample by simp
  qed (use Cons in simp)
qed simp

lemma event_of_decision: "event_of (decision_bytes f q g p) = (uint f, uint q, uint g, uint p)"
proof -
  have "uint (x :: u32) mod 4294967296 = uint x" for x using uint_lt2p [of x] by simp
  then show ?thesis
    by (simp add: event_of_def decision_bytes_def le_int_le_bytes Let_def slice_def del: le_bytes.simps)
qed

subsection \<open>Properties\<close>



end
