(* ===== verification/Upf_Pipeline.thy ===== *)
theory Upf_Pipeline
  imports Agent_Theorems Upf_Tc Analyze
begin

text \<open>
  The datapath programs together, and under a control plane that changes the maps between packets:
  \<open>serve\<close> handles a sequence of packets, each in the state of the maps at its time. The lemmas say
  which decision events the packets emit, as the basis of the properties that span the agent, the
  datapath and the analysis.
\<close>

fun serve :: "build \<Rightarrow> helpers \<Rightarrow> (rule_tables \<times> skb) list \<Rightarrow> dp \<Rightarrow> dp option" where
  "serve B H [] s = Some s"
| "serve B H ((T, sk) # rest) s =
     (case upf_tc_ingress B H sk (s\<lparr>tables := T\<rparr>) of None \<Rightarrow> None | Some (_, s') \<Rightarrow> serve B H rest s')"

text \<open>The decision events of one PDR in a sequence of events.\<close>

fun decisions_of :: "u32 \<Rightarrow> perf_event list \<Rightarrow> (u32 \<times> u32 \<times> u32 \<times> u32) list" where
  "decisions_of pdr [] = []"
| "decisions_of pdr (DecisionEvent f q g p # es) =
     (if p = pdr then (f, q, g, p) # decisions_of pdr es else decisions_of pdr es)"
| "decisions_of pdr (_ # es) = decisions_of pdr es"

text \<open>What decided an event: the active slot of its PDR in the tables \<open>T\<close>.\<close>

definition decided_by :: "rule_tables \<Rightarrow> perf_event \<Rightarrow> bool" where
  "decided_by T e \<longleftrightarrow>
     (case e of
        DecisionEvent f q g p \<Rightarrow> \<exists>u prec. packet_decision T p = Some (f, q, u, prec, g)
      | _ \<Rightarrow> True)"

text \<open>The lines of a capture of decision events.\<close>

definition capture_lines :: "string \<Rightarrow> bytes \<Rightarrow> (u32 \<times> u32 \<times> u32 \<times> u32) list \<Rightarrow> string list" where
  "capture_lines h pad ds =
     concat (map item_lines (map (\<lambda>(f, q, g, p). Sample h (decision_bytes f q g p) pad) ds))"

text \<open>Every bundle's active slot names a FAR the array has.\<close>

definition fars_ok :: "rule_tables \<Rightarrow> bool" where
  "fars_ok T \<longleftrightarrow> (\<forall>p b. tc_bundle_map T p = Some b \<longrightarrow> far_table T (slot_far_id (active_slot b)) \<noteq> None)"

lemma decision_events_decided:
  assumes "packet_decision T p = Some (f, q, u, prec, g)"
  shows "list_all (decided_by T) (decision_events B f q g p)"
  using assms by (simp add: decision_events_def decided_by_def)

lemma far_forward_decided:
  assumes "packet_decision T p = Some (f, q, u', prec, g)"
  shows "\<exists>r s' evs. upf_far_forward B H sk f q u p g n t s = Some (r, s') \<and> tables s' = tables s \<and>
    perf_events s' = perf_events s @ evs \<and> list_all (decided_by T) evs"
proof -
  obtain ret sk1 where adj: "skb_adjust_room H (- int n) sk = (ret, sk1)" by (rule prod.exhaust)
  obtain b s1 where adm: "qer_admit B H q (skb_len sk1) s = Some (b, s1)" by (rule qer_admit_frame)
  show ?thesis
  proof (cases "ret < 0 \<or> far_table (tables s) f = None \<or> \<not> b")
    case True
    with adm have "ret < 0 \<or> far_table (tables s) f = None \<or>
        qer_admit B H q (skb_len sk1) s = Some (False, s1)" by auto
    from far_forward_rejected [OF adj this, of u p g t] show ?thesis by auto
  next
    case False
    then obtain far where far: "far_table (tables s) f = Some far" by auto
    from False adm have adm: "qer_admit B H q (skb_len sk1) s = Some (True, s1)" by simp
    obtain s' ev where "upf_far_forward B H sk f q u p g n t s =
        Some ((redirect H (far_out_ifindex far), sk1), s')" "tables s' = tables s"
      "perf_events s' = perf_events s @ decision_events B f q g p @ ev"
      "ev = [] \<or> UPF_EMIT_LATENCY_EVENTS B \<and> (\<exists>l. ev = [LatencyEvent l (skb_len sk1)])"
      by (rule far_forward_admitted [OF adj _ far adm]) (use False in auto)
    moreover from this(4) have "list_all (decided_by T) ev" by (auto simp: decided_by_def)
    ultimately show ?thesis using decision_events_decided [OF assms, of B] by auto
  qed
qed

lemma tc_lookup_decision:
  "tc_lookup T teid = Some (se, cur, far) \<Longrightarrow> packet_decision T (sess_pdr_id se) = Some (decision cur)"
  by (auto simp: tc_lookup_def packet_decision_def split: option.splits)

lemma tc_enforce_decided:
  "\<exists>r s' evs. tc_enforce B H sk t teid ihl s = Some (r, s') \<and> tables s' = tables s \<and>
     perf_events s' = perf_events s @ evs \<and> list_all (decided_by (tables s)) evs"
proof (cases "tc_lookup (tables s) teid")
  case (Some x)
  obtain se cur far where x: "x = (se, cur, far)" by (rule prod_cases3)
  have d: "packet_decision (tables s) (sess_pdr_id se) =
      Some (slot_far_id cur, slot_qer_id cur, slot_urr_id cur, slot_precedence cur, slot_generation cur)"
    using tc_lookup_decision [OF Some [unfolded x]] by (simp add: decision_def)
  show ?thesis
    using Some x far_forward_decided [OF d, of B H sk "slot_urr_id cur" "ihl + 16" t s]
    by (auto simp: tc_enforce_eq decided_by_def)
qed (simp add: tc_enforce_eq)

lemma tc_ingress_decided:
  "\<exists>r s' evs. upf_tc_ingress B H sk s = Some (r, s') \<and> tables s' = tables s \<and>
     perf_events s' = perf_events s @ evs \<and> list_all (decided_by (tables s)) evs"
proof -
  obtain t s1 where e: "tc_entry B H s = (t, s1)" by (rule prod.exhaust)
  have s1: "tables s1 = tables s" "perf_events s1 = perf_events s"
    using e by (auto simp: tc_entry_def split: if_splits)
  show ?thesis
  proof (cases "classify (skb_data sk)")
    case (GPdu teid ihl)
    with e s1 tc_enforce_decided [of B H sk t teid ihl s1] show ?thesis by (simp add: tc_ingress_classify)
  qed (use e s1 in \<open>simp_all add: tc_ingress_classify\<close>)
qed

lemma serve_decided:
  "\<exists>s' evs. serve B H traffic s = Some s' \<and> perf_events s' = perf_events s @ evs \<and>
     list_all (\<lambda>e. \<exists>T \<in> fst ` set traffic. decided_by T e) evs"
proof (induction traffic arbitrary: s)
  case (Cons x traffic)
  obtain T sk where x: "x = (T, sk)" by (rule prod.exhaust)
  obtain r s1 evs where 1: "upf_tc_ingress B H sk (s\<lparr>tables := T\<rparr>) = Some (r, s1)"
    "perf_events s1 = perf_events s @ evs" "list_all (decided_by T) evs"
    using tc_ingress_decided [of B H sk "s\<lparr>tables := T\<rparr>"] by auto
  obtain s' evs' where 2: "serve B H traffic s1 = Some s'" "perf_events s' = perf_events s1 @ evs'"
    "list_all (\<lambda>e. \<exists>T \<in> fst ` set traffic. decided_by T e) evs'"
    using Cons.IH by blast
  have "list_all (\<lambda>e. \<exists>T \<in> fst ` set (x # traffic). decided_by T e) (evs @ evs')"
    using 1(3) 2(3) x by (auto simp: list_all_iff)
  with 1 2 x show ?case by (simp add: list_all_iff)
qed simp

lemma decisions_of_set: "(f, q, g, p) \<in> set (decisions_of pdr es) \<longleftrightarrow> p = pdr \<and> DecisionEvent f q g p \<in> set es"
  by (induction pdr es rule: decisions_of.induct) auto

lemma serve_old_or_new:
  assumes "\<forall>T \<in> fst ` set traffic. packet_decision T p \<in> {Some (decision s0), Some (decision s1)}"
  obtains s' evs where "serve B H traffic s = Some s'" "perf_events s' = perf_events s @ evs"
    "\<forall>(f, q, g, p') \<in> set (decisions_of p evs).
       (f, q, g) = (slot_far_id s0, slot_qer_id s0, slot_generation s0) \<or>
       (f, q, g) = (slot_far_id s1, slot_qer_id s1, slot_generation s1)"
proof -
  obtain s' evs where sv: "serve B H traffic s = Some s'" "perf_events s' = perf_events s @ evs"
    and d: "list_all (\<lambda>e. \<exists>T \<in> fst ` set traffic. decided_by T e) evs"
    using serve_decided by blast
  have "(f, q, g) = (slot_far_id s0, slot_qer_id s0, slot_generation s0) \<or>
      (f, q, g) = (slot_far_id s1, slot_qer_id s1, slot_generation s1)" if "(f, q, g, p') \<in> set (decisions_of p evs)" for f q g p'
  proof -
    have e: "DecisionEvent f q g p \<in> set evs" using that by (auto simp: decisions_of_set)
    obtain T where T: "T \<in> fst ` set traffic" "decided_by T (DecisionEvent f q g p)"
      using d e unfolding list_all_iff by blast
    then show ?thesis using assms by (auto simp: decided_by_def decision_def)
  qed
  then show thesis using that [OF sv] by blast
qed

text \<open>The analysis of a capture of decision events is that of the events themselves.\<close>

abbreviation events_of :: "(u32 \<times> u32 \<times> u32 \<times> u32) list \<Rightarrow> event list" where
  "events_of ds \<equiv> map (\<lambda>(f, q, g, p). (uint f, uint q, uint g, uint p)) ds"

lemma captured_report:
  obtains r where "analyze_main (capture_lines h pad ds) = Inr r" "total_events r = length ds"
    "torn_events r = length (torn (events_of ds))" "parity_mismatches r = length (mismatches (events_of ds))"
proof -
  let ?items = "map (\<lambda>(f, q, g, p). Sample h (decision_bytes f q g p) pad) ds"
  have ok: "list_all item_ok ?items"
    by (auto simp: list_all_iff decision_bytes_def simp del: le_bytes.simps)
  have "concat (map item_event ?items) = events_of ds" by (induction ds) (auto simp: event_of_decision)
  then have "parse (capture_lines h pad ds) [] = Inr (events_of ds)"
    using parse_items [OF ok, of "[]"] by (simp add: capture_lines_def)
  then show thesis using that by (simp add: analyze_main_def)
qed

lemma captured_not_torn:
  assumes "\<forall>(f, q, g, p) \<in> set ds. (uint f, uint q) \<in> set valid_pairs"
  shows "\<exists>r. analyze_main (capture_lines h pad ds) = Inr r \<and> total_events r = length ds \<and> torn_events r = 0"
proof -
  have "torn (events_of ds) = []" using assms by (auto simp: torn_def filter_empty_conv)
  then show ?thesis using captured_report [of h pad ds] by (metis list.size(3))
qed

lemma tc_lookup_found:
  assumes "refs_ok T" "fars_ok T" "teid_session T teid = Some se"
  shows "tc_lookup T teid \<noteq> None"
  using assms by (auto simp: refs_ok_def fars_ok_def tc_lookup_def split: option.splits)

lemma modify_result:
  assumes "bpf_kernel sys pinned view fd_path fd_avail"
    and "world_ok pinned (fd_path \<circ> fst) (fd_avail \<circ> fst) upf_defs w" and "in_u32 p"
    and "tc_bundle_map (tabs (view \<circ> fst) w) (word_of_int p) = Some b"
    and "modify_fits far qer urr prec (active_slot b)"
  shows "fst (modify_tc_bundle (traced sys) p far qer urr prec w) = Inr (uint (slot_generation (active_slot b)) + 1)"
  by (rule bpf_kernel.modify_observed [OF assms]) simp

end
