(* ===== verification/Upf_Egress.thy ===== *)
theory Upf_Egress
  imports Upf_Tc
begin

text \<open>
  \<^verbatim>\<open>bpf/upf_tc_egress.c\<close>: the downlink program, which wraps a packet for a known UE into outer
  IPv4, UDP and GTP-U headers. Stores into the packet are in-place updates; a store outside the
  linear part is stuck. The properties say what leaves the program, that the header checksum
  verifies, and that the uplink program of a peer recovers the original packet.
\<close>

subsection \<open>Stores\<close>

definition put :: "nat \<Rightarrow> bytes \<Rightarrow> bytes \<Rightarrow> bytes" where
  "put off bs pkt = take off pkt @ bs @ drop (off + length bs) pkt"

definition p_store :: "nat \<Rightarrow> bytes \<Rightarrow> skb \<Rightarrow> skb prog" where
  "p_store off bs sk s =
     (if off + length bs \<le> length (skb_data sk) then Some (sk\<lparr>skb_data := put off bs (skb_data sk)\<rparr>, s) else None)"

definition b16 :: "u16 \<Rightarrow> bytes" where "b16 x = le_bytes 2 (uint x)"
definition b32 :: "u32 \<Rightarrow> bytes" where "b32 x = le_bytes 4 (uint x)"

text \<open>\<^verbatim>\<open>ip_checksum20\<close>: ten 16-bit loads in host order, two folds, complement.\<close>

definition ip_checksum20 :: "bytes \<Rightarrow> nat \<Rightarrow> u16" where
  "ip_checksum20 pkt off =
     (let sum = (\<Sum>i \<leftarrow> [0..<10]. ucast (rd16 pkt (off + 2 * i)) :: u32);
          sum = and sum 0xffff + drop_bit 16 sum;
          sum = and sum 0xffff + drop_bit 16 sum
      in ucast (not sum))"

definition p_checksum20 :: "nat \<Rightarrow> skb \<Rightarrow> u16 prog" where
  "p_checksum20 off sk s =
     (if off + 20 \<le> length (skb_data sk) then Some (ip_checksum20 (skb_data sk) off, s) else None)"

definition encap_err :: "skb \<Rightarrow> (int \<times> skb) prog" where
  "encap_err sk = p_bind (bump M_TC_DL_ENCAP_ERR) (\<lambda>_. p_return (TC_ACT_SHOT, sk))"

text \<open>Several stores in a row, each an offset with the bytes stored there.\<close>

fun p_stores :: "(nat \<times> bytes) list \<Rightarrow> skb \<Rightarrow> skb prog" where
  "p_stores [] sk = p_return sk"
| "p_stores ((off, bs) # ws) sk = p_bind (p_store off bs sk) (p_stores ws)"

text \<open>The header construction after the packet has grown.\<close>

definition write_outer :: "skb \<Rightarrow> u32 \<Rightarrow> dl_ue_val \<Rightarrow> (int \<times> skb) prog" where
  "write_outer sk n3_addr_be ue =
     (let total_len = skb_len sk - 14;
          udp_len = total_len - 20;
          gtp_paylen = udp_len - 8 - 8;
          ip = ETH_HLEN; udp = ip + IP_HLEN; gtp = udp + UDP_HLEN
      in
      p_bind (p_stores
        [(ip, [0x45]), (ip + 1, [0]), (ip + 2, b16 (bpf_htons (ucast total_len))), (ip + 4, b16 0),
         (ip + 6, b16 0), (ip + 8, [64]), (ip + 9, [IPPROTO_UDP]), (ip + 10, b16 0),
         (ip + 12, b32 n3_addr_be), (ip + 16, b32 (ue_gnb_ipv4_be ue))] sk) (\<lambda>sk.
      p_bind (p_checksum20 ip sk) (\<lambda>check.
      p_bind (p_store (ip + 10) (b16 check) sk) (\<lambda>sk.
      p_bind (p_stores
        [(udp, b16 (bpf_htons GTPU_PORT)), (udp + 2, b16 (bpf_htons GTPU_PORT)),
         (udp + 4, b16 (bpf_htons (ucast udp_len))), (udp + 6, b16 0),
         (gtp, [0x30]), (gtp + 1, [0xff]), (gtp + 2, b16 (bpf_htons (ucast gtp_paylen))),
         (gtp + 4, b32 (ue_teid_be ue))] sk) (\<lambda>sk.
      p_return (TC_ACT_OK, sk))))))"

text \<open>\<^verbatim>\<open>protocol == UDP\<close> and the destination port is GTP-U: already encapsulated.\<close>

definition already_gtpu :: "bytes \<Rightarrow> bool prog" where
  "already_gtpu pkt =
     p_bind (p_load8 pkt (ETH_HLEN + 9)) (\<lambda>protocol.
     if protocol \<noteq> IPPROTO_UDP then p_return False else
     p_bind (p_load8 pkt ETH_HLEN) (\<lambda>vihl.
     let udp = ETH_HLEN + ihl_bytes vihl in
     if udp + UDP_HLEN \<le> length pkt
     then p_bind (p_load16 pkt (udp + 2)) (\<lambda>dest. p_return (dest = bpf_htons GTPU_PORT))
     else p_return False))"

definition upf_tc_egress :: "helpers \<Rightarrow> skb \<Rightarrow> (int \<times> skb) prog" where
  "upf_tc_egress H sk =
     (let pkt = skb_data sk in
      if ETH_HLEN > length pkt then p_return (TC_ACT_OK, sk) else
      p_bind (p_load16 pkt 12) (\<lambda>h_proto.
      if h_proto \<noteq> bpf_htons ETH_P_IP then p_return (TC_ACT_OK, sk) else
      if ETH_HLEN + IP_HLEN > length pkt then p_return (TC_ACT_OK, sk) else
      p_bind (already_gtpu pkt) (\<lambda>gtpu.
      if gtpu then p_return (TC_ACT_OK, sk) else
      p_bind (p_load32 pkt (ETH_HLEN + 16)) (\<lambda>dst_ip.
      p_bind (p_get (\<lambda>s. dl_ue_map (tables s) dst_ip)) (\<lambda>ue.
      case ue of
        None \<Rightarrow> p_bind (bump M_TC_DL_MISS) (\<lambda>_. p_return (TC_ACT_OK, sk))
      | Some ue \<Rightarrow>
          p_bind (bump M_TC_DL_HIT) (\<lambda>_.
          p_bind (p_get (\<lambda>s. upf_config_map (tables s) 0)) (\<lambda>cfg.
          let n3_addr_be = (case cfg of Some c \<Rightarrow> cfg_n3_addr_be c | None \<Rightarrow> 0);
              add_len = IP_HLEN + UDP_HLEN + 8
          in
          case skb_adjust_room H (int add_len) sk of
            (ret, sk1) \<Rightarrow>
              if ret < 0 then encap_err sk1
              else if ETH_HLEN > length (skb_data sk1) then encap_err sk1
              else if ETH_HLEN + IP_HLEN > length (skb_data sk1) then encap_err sk1
              else if ETH_HLEN + IP_HLEN + UDP_HLEN > length (skb_data sk1) then encap_err sk1
              else if ETH_HLEN + IP_HLEN + UDP_HLEN + 8 > length (skb_data sk1) then encap_err sk1
              else write_outer sk1 n3_addr_be ue)))))))"

subsection \<open>The abstract result\<close>

text \<open>The outer headers as one list of bytes, for a frame of \<open>len\<close> bytes after growing.\<close>

definition outer_ip :: "u32 \<Rightarrow> u32 \<Rightarrow> u32 \<Rightarrow> u16 \<Rightarrow> bytes" where
  "outer_ip len src dst check =
     [0x45, 0] @ b16 (bpf_htons (ucast (len - 14))) @ b16 0 @ b16 0 @ [64, IPPROTO_UDP] @ b16 check @
     b32 src @ b32 dst"

definition outer_udp_gtp :: "u32 \<Rightarrow> u32 \<Rightarrow> bytes" where
  "outer_udp_gtp len teid_be =
     b16 (bpf_htons GTPU_PORT) @ b16 (bpf_htons GTPU_PORT) @ b16 (bpf_htons (ucast (len - 14 - 20))) @ b16 0 @
     [0x30, 0xff] @ b16 (bpf_htons (ucast (len - 14 - 20 - 8 - 8))) @ b32 teid_be"

definition outer_header :: "u32 \<Rightarrow> u32 \<Rightarrow> dl_ue_val \<Rightarrow> bytes" where
  "outer_header len n3 ue =
     outer_ip len n3 (ue_gnb_ipv4_be ue)
       (ip_checksum20 (outer_ip len n3 (ue_gnb_ipv4_be ue) 0) 0) @
     outer_udp_gtp len (ue_teid_be ue)"

text \<open>
  What is relied on of \<^verbatim>\<open>bpf_skb_adjust_room\<close> with a positive difference: on success the room
  appears after the Ethernet header, in the linear part, with unspecified contents.
\<close>

definition encap_law :: "helpers \<Rightarrow> bool" where
  "encap_law H \<longleftrightarrow>
     (\<forall>n sk ret sk'. skb_adjust_room H (int n) sk = (ret, sk') \<and> 0 \<le> ret \<and> 14 \<le> length (skb_data sk) \<longrightarrow>
        (\<exists>room. length room = n \<and> skb_data sk' = take 14 (skb_data sk) @ room @ drop 14 (skb_data sk)) \<and>
        skb_frags sk' = skb_frags sk)"

text \<open>Fields stored one after the other replace a piece of their total length.\<close>

fun adjacent :: "nat \<Rightarrow> bytes list \<Rightarrow> (nat \<times> bytes) list" where
  "adjacent off [] = []"
| "adjacent off (b # bs) = (off, b) # adjacent (off + length b) bs"

text \<open>The downlink key of a frame that is to be encapsulated: plain IPv4, not already GTP-U.\<close>

definition egress_key :: "bytes \<Rightarrow> u32 option" where
  "egress_key pkt =
     (let udp = 14 + ihl_bytes (rd8 pkt 14) in
      if length pkt < 14 \<or> rd16 pkt 12 \<noteq> bpf_htons ETH_P_IP \<or> length pkt < 34 then None
      else if rd8 pkt 23 = IPPROTO_UDP \<and> udp + 8 \<le> length pkt \<and> rd16 pkt (udp + 2) = bpf_htons GTPU_PORT
      then None else Some (rd32 pkt 30))"

definition n3_addr :: "rule_tables \<Rightarrow> u32" where
  "n3_addr T = (case upf_config_map T 0 of Some c \<Rightarrow> cfg_n3_addr_be c | None \<Rightarrow> 0)"

text \<open>The one's-complement fold on natural numbers.\<close>

definition fold16 :: "nat \<Rightarrow> nat" where
  "fold16 x = x mod 65536 + x div 65536"

definition words_sum :: "bytes \<Rightarrow> nat \<Rightarrow> nat" where
  "words_sum pkt off = (\<Sum>i \<leftarrow> [0..<10]. unat (rd16 pkt (off + 2 * i)))"

text \<open>A downlink packet for the UE 10.0.0.7 (key 0x0700000A in memory order) and its state.\<close>

definition demo_dl :: bytes where
  "demo_dl = [2, 0, 0, 0, 0, 1, 2, 0, 0, 0, 0, 2, 0x08, 0x00] @
     [0x45, 0, 0, 21, 0, 0, 0, 0, 64, 1, 0, 0, 8, 8, 8, 8, 10, 0, 0, 7] @ [0x5a]"

definition demo_ue :: dl_ue_val where
  "demo_ue = \<lparr>ue_teid_be = bpf_htonl 4096, ue_gnb_ipv4_be = 0x0100000A, ue_qfi = 1, ue_pad = 0\<rparr>"

definition demo_dl_state :: dp where
  "demo_dl_state = (demo_dp (demo_qer 0 0))\<lparr>tables := (tables (demo_dp (demo_qer 0 0)))
     \<lparr>dl_ue_map := [0x0700000A \<mapsto> demo_ue]\<rparr>\<rparr>"

lemma length_b [simp]: "length (b16 x) = 2" "length (b32 y) = 4"
  by (simp_all add: b16_def b32_def)

lemma length_put [simp]: "off + length bs \<le> length pkt \<Longrightarrow> length (put off bs pkt) = length pkt"
  by (simp add: put_def)

lemma p_bind_store [simp]:
  "off + length bs \<le> length (skb_data sk) \<Longrightarrow>
     p_bind (p_store off bs sk) f s = f (sk\<lparr>skb_data := put off bs (skb_data sk)\<rparr>) s"
  "off + 20 \<le> length (skb_data sk) \<Longrightarrow>
     p_bind (p_checksum20 off sk) g s = g (ip_checksum20 (skb_data sk) off) s"
  by (simp_all add: p_bind_def p_store_def p_checksum20_def)

lemma put_piece: "length x = length bs \<Longrightarrow> put (length y) bs (y @ x @ z) = y @ bs @ z"
  by (simp add: put_def)

lemma p_stores_adjacent:
  assumes "skb_data sk = y @ x @ z" "length x = length (concat bss)"
  shows "p_stores (adjacent (length y) bss) sk s = Some (sk\<lparr>skb_data := y @ concat bss @ z\<rparr>, s)"
  using assms
proof (induction bss arbitrary: y x sk)
  case Nil
  then show ?case by simp
next
  case (Cons b bss)
  obtain x1 x2 where x: "x = x1 @ x2" "length x1 = length b" "length x2 = length (concat bss)"
    using Cons.prems(2) by (metis append_eq_conv_conj append_take_drop_id concat.simps(2) length_append
        length_drop length_take min.absorb2 le_add1 add_diff_cancel_left')
  let ?sk = "sk\<lparr>skb_data := put (length y) b (skb_data sk)\<rparr>"
  have "skb_data ?sk = (y @ b) @ x2 @ z" using Cons.prems(1) x by (simp add: put_piece)
  then have "p_stores (adjacent (length (y @ b)) bss) ?sk s =
      Some (?sk\<lparr>skb_data := (y @ b) @ concat bss @ z\<rparr>, s)"
    using Cons.IH x(3) by blast
  then show ?case using Cons.prems by simp
qed

lemma checksum_walk:
  "length y = off \<Longrightarrow> ip_checksum20 (y @ z) off = ip_checksum20 z 0"
  "20 \<le> length h \<Longrightarrow> ip_checksum20 (h @ z) 0 = ip_checksum20 h 0"
proof -
  show "ip_checksum20 (y @ z) off = ip_checksum20 z 0" if "length y = off"
    using that by (simp add: ip_checksum20_def rd16_def upt_rec)
  show "ip_checksum20 (h @ z) 0 = ip_checksum20 h 0" if "20 \<le> length h"
    using that by (simp add: ip_checksum20_def layout_simps upt_rec)
qed

lemma length_outer [simp]:
  "length (outer_ip len src dst check) = 20" "length (outer_udp_gtp len teid) = 16"
  "length (outer_header len src ue) = 36"
  by (simp_all add: outer_ip_def outer_udp_gtp_def outer_header_def)

lemma write_outer_result:
  assumes data: "skb_data sk = eth @ room @ rest" and eth: "length eth = 14" and room: "length room = 36"
  shows "write_outer sk n3 ue s =
    Some ((TC_ACT_OK, sk\<lparr>skb_data := eth @ outer_header (skb_len sk) n3 ue @ rest\<rparr>), s)"
proof -
  let ?ip = "\<lambda>c. outer_ip (skb_len sk) n3 (ue_gnb_ipv4_be ue) c"
  let ?c = "ip_checksum20 (?ip 0) 0"
  let ?ipf = "[[0x45], [0], b16 (bpf_htons (ucast (skb_len sk - 14))), b16 0, b16 0, [64], [IPPROTO_UDP],
    b16 0, b32 n3, b32 (ue_gnb_ipv4_be ue)]"
  let ?udpf = "[b16 (bpf_htons GTPU_PORT), b16 (bpf_htons GTPU_PORT),
    b16 (bpf_htons (ucast (skb_len sk - 14 - 20))), b16 0, [0x30], [0xff],
    b16 (bpf_htons (ucast (skb_len sk - 14 - 20 - 8 - 8))), b32 (ue_teid_be ue)]"
  let ?r = "drop 20 room"
  let ?sk1 = "sk\<lparr>skb_data := eth @ ?ip 0 @ ?r @ rest\<rparr>"
  let ?sk2 = "sk\<lparr>skb_data := eth @ ?ip ?c @ ?r @ rest\<rparr>"
  have data': "skb_data sk = eth @ take 20 room @ ?r @ rest" using data
    by (metis append_assoc append_take_drop_id)
  have s1: "p_stores (adjacent 14 ?ipf) sk s = Some (?sk1, s)"
    using p_stores_adjacent [OF data', of ?ipf s] eth room by (simp add: outer_ip_def)
  have ck: "ip_checksum20 (skb_data ?sk1) 14 = ?c"
    using checksum_walk(1) [OF eth] checksum_walk(2) [of "?ip 0"] by simp
  have s2: "p_store 24 (b16 ?c) ?sk1 s = Some (?sk2, s)"
    using eth put_piece [of "b16 0" "b16 ?c" "eth @ take 10 (?ip 0)" "drop 12 (?ip 0) @ ?r @ rest"]
    by (simp add: p_store_def outer_ip_def)
  have s3: "p_stores (adjacent 34 ?udpf) ?sk2 s =
      Some (sk\<lparr>skb_data := eth @ ?ip ?c @ outer_udp_gtp (skb_len sk) (ue_teid_be ue) @ rest\<rparr>, s)"
    using p_stores_adjacent [of ?sk2 "eth @ ?ip ?c" ?r rest ?udpf s] eth room
    by (simp add: outer_udp_gtp_def)
  show ?thesis
    using s1 s2 s3 ck eth
    by (simp add: write_outer_def Let_def p_bind_def p_checksum20_def outer_header_def)
qed

text \<open>The already-encapsulated check is memory-safe whatever the header length field says.\<close>

lemma already_gtpu_eq:
  assumes "34 \<le> length pkt"
  shows "already_gtpu pkt s =
    Some (rd8 pkt 23 = IPPROTO_UDP \<and> 14 + ihl_bytes (rd8 pkt 14) + 8 \<le> length pkt \<and>
      rd16 pkt (14 + ihl_bytes (rd8 pkt 14) + 2) = bpf_htons GTPU_PORT, s)"
  using assms by (simp add: already_gtpu_def Let_def)

lemma egress_no_key: "egress_key (skb_data sk) = None \<Longrightarrow> upf_tc_egress H sk s = Some ((TC_ACT_OK, sk), s)"
  by (auto simp: egress_key_def upf_tc_egress_def Let_def p_bind_def [of "already_gtpu _"] already_gtpu_eq
      not_less split: if_splits)

lemma egress_key_run:
  assumes "egress_key (skb_data sk) = Some dst"
  shows "14 \<le> length (skb_data sk)"
    and "upf_tc_egress H sk s =
      (case dl_ue_map (tables s) dst of
         None \<Rightarrow> Some ((TC_ACT_OK, sk), bump_all [M_TC_DL_MISS] s)
       | Some ue \<Rightarrow>
           (case skb_adjust_room H 36 sk of
              (ret, sk1) \<Rightarrow>
                if ret < 0 \<or> length (skb_data sk1) < 50
                then Some ((TC_ACT_SHOT, sk1), bump_all [M_TC_DL_HIT, M_TC_DL_ENCAP_ERR] s)
                else write_outer sk1 (n3_addr (tables s)) ue (bump_all [M_TC_DL_HIT] s)))"
proof -
  from assms have len: "34 \<le> length (skb_data sk)" and ip: "rd16 (skb_data sk) 12 = bpf_htons ETH_P_IP"
    and dst: "dst = rd32 (skb_data sk) 30" and no: "\<not> (rd8 (skb_data sk) 23 = IPPROTO_UDP \<and>
      14 + ihl_bytes (rd8 (skb_data sk) 14) + 8 \<le> length (skb_data sk) \<and>
      rd16 (skb_data sk) (14 + ihl_bytes (rd8 (skb_data sk) 14) + 2) = bpf_htons GTPU_PORT)"
    by (auto simp: egress_key_def Let_def split: if_splits)
  then show "14 \<le> length (skb_data sk)" by simp
  have "already_gtpu (skb_data sk) s = Some (False, s)"
    unfolding already_gtpu_eq [OF len] by (simp only: no)
  then have skip: "p_bind (already_gtpu (skb_data sk)) f s = f False s" for f :: "bool \<Rightarrow> (int \<times> skb) prog"
    by (simp add: p_bind_def)
  show "upf_tc_egress H sk s =
      (case dl_ue_map (tables s) dst of
         None \<Rightarrow> Some ((TC_ACT_OK, sk), bump_all [M_TC_DL_MISS] s)
       | Some ue \<Rightarrow>
           (case skb_adjust_room H 36 sk of
              (ret, sk1) \<Rightarrow>
                if ret < 0 \<or> length (skb_data sk1) < 50
                then Some ((TC_ACT_SHOT, sk1), bump_all [M_TC_DL_HIT, M_TC_DL_ENCAP_ERR] s)
                else write_outer sk1 (n3_addr (tables s)) ue (bump_all [M_TC_DL_HIT] s)))"
    using len ip dst
    by (auto simp: upf_tc_egress_def Let_def skip encap_err_def n3_addr_def bump_all_Cons
        split: option.splits prod.splits)
qed

subsection \<open>The checksum\<close>

lemma fold16_word: "unat (and x 0xffff + drop_bit 16 x :: u32) = fold16 (unat x)"
proof -
  have "and x 0xffff = take_bit 16 x" by (simp add: take_bit_eq_mask mask_eq_exp_minus_1)
  then have "unat (and x 0xffff) = unat x mod 65536"
    by (simp only:) (simp add: unsigned_take_bit_eq flip: take_bit_eq_mod [of 16, simplified])
  moreover have "unat (drop_bit 16 x) = unat x div 65536"
    by (simp add: drop_bit_eq_div unat_div)
  moreover have "unat x < 65536 * 65536" using unsigned_less [of x, where ?'a = nat] by simp
  then have "unat x div 65536 < 65536" by (simp add: less_mult_imp_div_less)
  moreover have "unat x mod 65536 < 65536" by simp
  ultimately show ?thesis unfolding fold16_def by (simp add: unat_word_ariths)
qed

lemma fold16_facts:
  assumes "x < 1048576"
  shows "fold16 (fold16 x) \<le> 65535" "\<exists>k. x = fold16 x + 65535 * k" "fold16 x = 0 \<longleftrightarrow> x = 0"
proof -
  have q: "x div 65536 < 16" using assms by (simp add: less_mult_imp_div_less)
  have r: "x mod 65536 < 65536" by simp
  show "fold16 (fold16 x) \<le> 65535"
  proof (cases "fold16 x < 65536")
    case True
    then show ?thesis by (simp add: fold16_def [of "fold16 x"])
  next
    case False
    moreover have f: "fold16 x < 65536 + 16" using q r by (simp add: fold16_def)
    ultimately have "fold16 x div 65536 = 1" "fold16 x mod 65536 = fold16 x - 65536"
      by (simp_all add: div_nat_eqI mod_if)
    then show ?thesis using f by (simp add: fold16_def [of "fold16 x"])
  qed
  have "x = fold16 x + 65535 * (x div 65536)" unfolding fold16_def
    using div_mult_mod_eq [of x 65536] by simp
  then show "\<exists>k. x = fold16 x + 65535 * k" ..
  show "fold16 x = 0 \<longleftrightarrow> x = 0" unfolding fold16_def by auto
qed

lemma unat_rd16: "unat (rd16 pkt off) \<le> 65535"
  using unsigned_less [of "rd16 pkt off", where ?'a = nat] by simp

lemma words_sum_bound: "words_sum pkt off \<le> 655350"
  using unat_rd16 [of pkt off] unat_rd16 [of pkt "off + 2"] unat_rd16 [of pkt "off + 4"]
    unat_rd16 [of pkt "off + 6"] unat_rd16 [of pkt "off + 8"] unat_rd16 [of pkt "off + 10"]
    unat_rd16 [of pkt "off + 12"] unat_rd16 [of pkt "off + 14"] unat_rd16 [of pkt "off + 16"]
    unat_rd16 [of pkt "off + 18"]
  by (simp add: words_sum_def upt_rec)

lemma unat_sum_ucast:
  "(\<Sum>x \<leftarrow> xs. unat (x :: u16)) < 4294967296 \<Longrightarrow> unat (\<Sum>x \<leftarrow> xs. ucast x :: u32) = (\<Sum>x \<leftarrow> xs. unat x)"
proof (induction xs)
  case (Cons x xs)
  have "unat (ucast x :: u32) = unat x"
    using unsigned_less [of x, where ?'a = nat] by (simp add: unsigned_ucast_eq take_bit_nat_eq_self_iff)
  with Cons show ?case by (simp add: unat_word_ariths)
qed simp

lemma unat_ucast_not:
  fixes z :: u32
  assumes "unat z \<le> 65535"
  shows "unat (ucast (not z) :: u16) = 65535 - unat z"
proof -
  have "ucast (not z) = (not (ucast z) :: u16)" by (rule bit_word_eqI) (simp add: bit_simps)
  moreover have "unat (not y) = 65535 - unat y" for y :: u16
  proof -
    have "not y = - 1 - y" by (simp add: not_eq_complement)
    moreover have "unat (- 1 - y) = unat (- 1 :: u16) - unat y" by (rule unat_sub) simp
    moreover have "unat (- 1 :: u16) = 65535"
      by (simp add: unsigned_minus_1_eq_mask mask_eq_exp_minus_1)
    ultimately show ?thesis by simp
  qed
  moreover have "unat (ucast z :: u16) = unat z"
    using assms by (simp add: unsigned_ucast_eq take_bit_nat_eq_self_iff)
  ultimately show ?thesis by simp
qed

lemma ip_checksum20_nat:
  "unat (ip_checksum20 pkt off) = 65535 - fold16 (fold16 (words_sum pkt off))"
proof -
  let ?sum = "(\<Sum>i \<leftarrow> [0..<10]. ucast (rd16 pkt (off + 2 * i)) :: u32)"
  have sum: "unat ?sum = words_sum pkt off"
    using unat_sum_ucast [of "map (\<lambda>i. rd16 pkt (off + 2 * i)) [0..<10]"] words_sum_bound [of pkt off]
    by (simp add: words_sum_def comp_def)
  have "fold16 (fold16 (words_sum pkt off)) \<le> 65535"
    using fold16_facts(1) [of "words_sum pkt off"] words_sum_bound [of pkt off] by simp
  then show ?thesis
    unfolding ip_checksum20_def Let_def by (subst unat_ucast_not) (simp_all add: fold16_word sum)
qed

lemma words_sum_split:
  assumes "length a = 10" "length z = 8"
  shows "words_sum (a @ b16 c @ z) 0 = words_sum (a @ b16 0 @ z) 0 + unat c"
proof -
  have "rd16 (b16 c) 0 = c" for c by (simp add: b16_def layout_simps del: le_bytes.simps)
  then show ?thesis using assms by (simp add: words_sum_def upt_rec layout_simps)
qed

lemma words_sum_outer:
  "words_sum (outer_ip len src dst c) 0 = words_sum (outer_ip len src dst 0) 0 + unat c"
  "0 < words_sum (outer_ip len src dst 0) 0"
proof -
  let ?a = "[0x45, 0] @ b16 (bpf_htons (ucast (len - 14))) @ b16 0 @ b16 0 @ [64, IPPROTO_UDP]"
  have "outer_ip len src dst c = ?a @ b16 c @ b32 src @ b32 dst" for c by (simp add: outer_ip_def)
  then show "words_sum (outer_ip len src dst c) 0 = words_sum (outer_ip len src dst 0) 0 + unat c"
    by (simp only:) (rule words_sum_split, simp_all)
  have "rd16 (outer_ip len src dst 0) 0 = 0x45" by (simp add: outer_ip_def rd16_def slice_def)
  then show "0 < words_sum (outer_ip len src dst 0) 0" by (simp add: words_sum_def upt_rec)
qed

text \<open>With the checksum in place the ten words add up to a positive multiple of 65535.\<close>

lemma words_sum_checked:
  "\<exists>m. words_sum (outer_ip len src dst (ip_checksum20 (outer_ip len src dst 0) 0)) 0 = 65535 * Suc m"
proof -
  let ?h = "outer_ip len src dst"
  define S where "S = words_sum (?h 0) 0"
  have S: "S < 1048576" using words_sum_bound [of "?h 0" 0] by (simp add: S_def)
  have small: "fold16 S < 1048576" using S less_mult_imp_div_less [of S 16 65536] by (simp add: fold16_def)
  obtain j k where "S = fold16 S + 65535 * j" "fold16 S = fold16 (fold16 S) + 65535 * k"
    using fold16_facts(2) [OF S] fold16_facts(2) [OF small] by auto
  moreover have "fold16 (fold16 S) \<le> 65535" using fold16_facts(1) [OF S] .
  ultimately have "S + (65535 - fold16 (fold16 S)) = 65535 * Suc (j + k)" by simp
  moreover have "words_sum (?h (ip_checksum20 (?h 0) 0)) 0 = S + (65535 - fold16 (fold16 S))"
    by (simp add: words_sum_outer(1) [of _ _ _ "ip_checksum20 (?h 0) 0"] ip_checksum20_nat S_def)
  ultimately show ?thesis by metis
qed

text \<open>
  The rule by which a receiver accepts an IPv4 header (RFC 791, RFC 1071): the one's-complement sum of its
  16-bit words, taken in network order, is all ones.
\<close>

definition net_words :: "bytes \<Rightarrow> nat list" where
  "net_words h = map (\<lambda>i. 256 * unat (h ! (2 * i)) + unat (h ! (2 * i + 1))) [0..<length h div 2]"

definition oc_add :: "nat \<Rightarrow> nat \<Rightarrow> nat" where
  "oc_add a b = (if a + b < 65536 then a + b else a + b - 65535)"

definition header_accepted :: "bytes \<Rightarrow> bool" where
  "header_accepted h \<longleftrightarrow> length h = 20 \<and> foldl oc_add 0 (net_words h) = 65535"

lemma oc_fold:
  assumes "\<forall>w \<in> set ws. w \<le> 65535" "a \<le> 65535"
  shows "\<exists>k. foldl oc_add a ws + 65535 * k = a + sum_list ws \<and> foldl oc_add a ws \<le> 65535 \<and>
    (foldl oc_add a ws = 0 \<longrightarrow> a + sum_list ws = 0)"
  using assms
proof (induction ws arbitrary: a)
  case Nil
  then show ?case by (intro exI [of _ 0]) simp
next
  case (Cons w ws)
  have w: "w \<le> 65535" "oc_add a w \<le> 65535" using Cons.prems by (auto simp: oc_add_def)
  obtain k where k: "foldl oc_add (oc_add a w) ws + 65535 * k = oc_add a w + sum_list ws"
    "foldl oc_add (oc_add a w) ws \<le> 65535" "foldl oc_add (oc_add a w) ws = 0 \<longrightarrow> oc_add a w + sum_list ws = 0"
    using Cons.IH [of "oc_add a w"] Cons.prems w by auto
  show ?case
  proof (cases "a + w < 65536")
    case True
    then have "oc_add a w = a + w" by (simp add: oc_add_def)
    with k show ?thesis by (intro exI [of _ k]) simp
  next
    case False
    then have "oc_add a w + 65535 = a + w" "oc_add a w \<noteq> 0" by (auto simp: oc_add_def)
    with k show ?thesis by (intro exI [of _ "Suc k"]) auto
  qed
qed

lemma rd16_swap:
  assumes "off + 2 \<le> length h"
  shows "256 * unat (rd16 h off) = (256 * unat (h ! off) + unat (h ! (off + 1))) + 65535 * unat (h ! (off + 1))"
proof -
  have "slice off (off + 2) h = [h ! off, h ! (off + 1)]"
    using assms by (simp add: slice_def take_Suc_conv_app_nth numeral_2_eq_2 flip: Cons_nth_drop_Suc)
  then have "uint (rd16 h off) = (uint (h ! off) + 256 * uint (h ! (off + 1))) mod 65536"
    by (simp only: rd16_def uint_word_of_int) simp
  moreover have "uint (h ! off) < 256" "uint (h ! (off + 1)) < 256"
    using uint_lt2p [of "h ! off"] uint_lt2p [of "h ! (off + 1)"] by simp_all
  moreover have "0 \<le> uint (h ! off)" "0 \<le> uint (h ! (off + 1))" by simp_all
  ultimately have "uint (rd16 h off) = uint (h ! off) + 256 * uint (h ! (off + 1))" by (simp only: mod_pos_pos_trivial)
  then have "int (unat (rd16 h off)) = int (unat (h ! off) + 256 * unat (h ! (off + 1)))" by simp
  then have "unat (rd16 h off) = unat (h ! off) + 256 * unat (h ! (off + 1))" by (simp only: of_nat_eq_iff)
  then show ?thesis by simp
qed

lemma header_accepted_sum:
  assumes "length h = 20" "words_sum h 0 = 65535 * Suc m"
  shows "header_accepted h"
proof -
  let ?ws = "net_words h" and ?hi = "\<Sum>i \<leftarrow> [0..<10]. unat (h ! (2 * i + 1))"
  have ws: "?ws = map (\<lambda>i. 256 * unat (h ! (2 * i)) + unat (h ! (2 * i + 1))) [0..<10]"
    using assms(1) by (simp add: net_words_def)
  have "256 * words_sum h 0 = (\<Sum>i \<leftarrow> [0..<10]. 256 * unat (rd16 h (2 * i)))"
    by (simp add: words_sum_def sum_list_const_mult)
  also have "\<dots> = (\<Sum>i \<leftarrow> [0..<10]. (256 * unat (h ! (2 * i)) + unat (h ! (2 * i + 1))) + 65535 * unat (h ! (2 * i + 1)))"
    by (rule arg_cong [of _ _ sum_list], rule map_cong [OF refl], rule rd16_swap) (use assms(1) in auto)
  also have "\<dots> = sum_list ?ws + 65535 * ?hi" unfolding ws by (simp add: sum_list_addf sum_list_const_mult)
  finally have sum: "256 * words_sum h 0 = sum_list ?ws + 65535 * ?hi" .
  have "256 * unat (a :: u8) + unat (b :: u8) \<le> 65535" for a b
    using unsigned_less [of a, where ?'a = nat] unsigned_less [of b, where ?'a = nat] by simp
  then have small: "\<forall>w \<in> set ?ws. w \<le> 65535" by (auto simp: net_words_def)
  obtain k where k: "foldl oc_add 0 ?ws + 65535 * k = sum_list ?ws" "foldl oc_add 0 ?ws \<le> 65535"
    "foldl oc_add 0 ?ws = 0 \<longrightarrow> sum_list ?ws = 0"
    using oc_fold [OF small, of 0] by auto
  have "sum_list ?ws \<noteq> 0"
  proof
    assume "sum_list ?ws = 0"
    then have zero: "unat (h ! (2 * i)) = 0 \<and> unat (h ! (2 * i + 1)) = 0" if "i < 10" for i
      using that unfolding ws by (auto simp: sum_list_eq_0_iff)
    have "unat (rd16 h (2 * i)) = 0" if "i < 10" for i
      using rd16_swap [of "2 * i" h] zero [OF that] assms(1) that by simp
    then have "words_sum h 0 = 0" unfolding words_sum_def by (auto simp: sum_list_eq_0_iff)
    with assms(2) show False by simp
  qed
  with k(3) have pos: "foldl oc_add 0 ?ws \<noteq> 0" by blast
  have "int (foldl oc_add 0 ?ws) = 65535 * (256 * int (Suc m) - int ?hi - int k)"
  proof -
    have "int (256 * (65535 * Suc m)) = int (foldl oc_add 0 ?ws + 65535 * k + 65535 * ?hi)"
      using sum k(1) assms(2) by simp
    then show ?thesis by (simp only: of_nat_add of_nat_mult of_nat_numeral) (simp add: algebra_simps)
  qed
  moreover define z where "z = 256 * int (Suc m) - int ?hi - int k"
  ultimately have z: "int (foldl oc_add 0 ?ws) = 65535 * z" by simp
  with pos k(2) have "0 < z" "z \<le> 1" by simp_all
  then have "z = 1" by simp
  with z show ?thesis using assms(1) by (simp add: header_accepted_def)
qed

lemma outer_header_accepted: "header_accepted (take 20 (outer_header len n3 ue))"
  using words_sum_checked [of len n3 "ue_gnb_ipv4_be ue"] by (auto simp: outer_header_def intro: header_accepted_sum)

subsection \<open>Reading the outer headers back\<close>

lemma le_int_b [simp]: "le_int (b16 x) = uint x" "le_int (b32 y) = uint y"
  using uint_lt2p [of x] uint_lt2p [of y] by (simp_all add: b16_def b32_def le_int_le_bytes del: le_bytes.simps)

lemma rd_outer:
  fixes n3 len :: u32 and ue :: dl_ue_val and rest :: bytes
  assumes "length eth = 14"
  defines "f \<equiv> eth @ outer_header len n3 ue @ rest"
  shows "rd16 f 12 = rd16 eth 12" "rd8 f 14 = 0x45" "rd8 f 23 = IPPROTO_UDP"
    "rd16 f 36 = bpf_htons GTPU_PORT" "rd8 f 43 = 0xff" "rd32 f 46 = ue_teid_be ue"
    "rd16 f 16 = bpf_htons (ucast (len - 14))" "rd16 f 38 = bpf_htons (ucast (len - 34))"
    "rd16 f 44 = bpf_htons (ucast (len - 50))" "rd32 f 26 = n3" "rd32 f 30 = ue_gnb_ipv4_be ue"
  using assms(1)
  by (simp_all add: f_def outer_header_def outer_ip_def outer_udp_gtp_def rd8_def rd16_def rd32_def
      slice_def)

lemma classify_outer:
  assumes "length eth = 14" "rd16 eth 12 = bpf_htons ETH_P_IP"
  shows "classify (eth @ outer_header len n3 ue @ rest) = GPdu (bpf_ntohl (ue_teid_be ue)) 20"
proof -
  have "ihl_bytes 0x45 = 20" by (simp add: ihl_bytes_def)
  then show ?thesis
    using assms rd_outer [OF assms(1), of len n3 ue rest] by (simp add: classify_def Let_def GTPU_GPDU_def)
qed

lemma egress_encapsulates:
  assumes law: "encap_law H" and key: "egress_key (skb_data sk) = Some dst"
    and ue: "dl_ue_map (tables s) dst = Some ue" and adj: "skb_adjust_room H 36 sk = (ret, sk1)" "0 \<le> ret"
  shows "upf_tc_egress H sk s = Some ((TC_ACT_OK, sk1\<lparr>skb_data := take 14 (skb_data sk) @
      outer_header (skb_len sk + 36) (n3_addr (tables s)) ue @ drop 14 (skb_data sk)\<rparr>), bump_all [M_TC_DL_HIT] s)"
proof -
  have len: "14 \<le> length (skb_data sk)" by (rule egress_key_run(1) [OF key])
  obtain room where room: "length room = 36"
    "skb_data sk1 = take 14 (skb_data sk) @ room @ drop 14 (skb_data sk)" "skb_frags sk1 = skb_frags sk"
    using law adj len unfolding encap_law_def by (metis of_nat_numeral)
  have "skb_len sk1 = skb_len sk + 36" using room len by (simp add: skb_len_def)
  moreover have "\<not> length (skb_data sk1) < 50" using room len by simp
  ultimately show ?thesis
    using egress_key_run(2) [OF key, of H s] ue adj len write_outer_result [OF room(2) _ room(1)]
    by simp
qed

lemma egress_key_proto:
  assumes "egress_key pkt = Some dst"
  shows "rd16 (take 14 pkt) 12 = bpf_htons ETH_P_IP"
proof -
  have "14 \<le> length pkt" and "rd16 pkt 12 = bpf_htons ETH_P_IP"
    using assms by (auto simp: egress_key_def Let_def split: if_splits)
  then show ?thesis using rd_in(2) [of 12 "take 14 pkt" "drop 14 pkt"] by simp
qed

lemma decap_lawD:
  "decap_law H \<Longrightarrow> skb_adjust_room H (- int n) sk = (ret, sk') \<Longrightarrow> 0 \<le> ret \<Longrightarrow> 14 + n \<le> length (skb_data sk) \<Longrightarrow>
     skb_data sk' = take 14 (skb_data sk) @ drop (14 + n) (skb_data sk)"
  unfolding decap_law_def by blast

lemma demo_encap_law: "encap_law demo_helpers"
  by (auto simp: encap_law_def demo_helpers_def demo_adjust_def intro!: exI [of _ "replicate _ 0"])

lemma demo_dl_key: "egress_key demo_dl = Some 0x0700000A"
  by code_simp

subsection \<open>Properties\<close>

text \<open>
  C17. Every outcome of the downlink program, which is memory-safe on every frame and never
  changes the rule maps: frames that are not IPv4, too short or already GTP-U pass untouched; an
  unknown destination passes untouched and is counted as a miss; when the kernel cannot make
  room the packet is dropped and counted; otherwise the frame leaves with exactly the outer
  header between its Ethernet header and its original packet.
\<close>

theorem upf_tc_egress_outcomes:
  assumes "encap_law H"
  shows "\<exists>v sk' s'. upf_tc_egress H sk s = Some ((v, sk'), s') \<and>
    (case egress_key (skb_data sk) of
       None \<Rightarrow> v = TC_ACT_OK \<and> sk' = sk \<and> s' = s
     | Some dst \<Rightarrow>
         (case dl_ue_map (tables s) dst of
            None \<Rightarrow> v = TC_ACT_OK \<and> sk' = sk \<and> s' = bump_all [M_TC_DL_MISS] s
          | Some ue \<Rightarrow>
              if fst (skb_adjust_room H 36 sk) < 0
              then v = TC_ACT_SHOT \<and> s' = bump_all [M_TC_DL_HIT, M_TC_DL_ENCAP_ERR] s
              else v = TC_ACT_OK \<and> s' = bump_all [M_TC_DL_HIT] s \<and>
                skb_data sk' = take 14 (skb_data sk) @
                  outer_header (skb_len sk + 36) (n3_addr (tables s)) ue @ drop 14 (skb_data sk)))"
proof (cases "egress_key (skb_data sk)")
  case None
  then show ?thesis using egress_no_key by simp
next
  case (Some dst)
  note key = this
  obtain ret sk1 where adj: "skb_adjust_room H 36 sk = (ret, sk1)" by (rule prod.exhaust)
  show ?thesis
  proof (cases "dl_ue_map (tables s) dst")
    case None
    with key egress_key_run(2) [OF key] show ?thesis by simp
  next
    case ue: (Some ue)
    show ?thesis
    proof (cases "ret < 0")
      case True
      with key ue adj egress_key_run(2) [OF key] show ?thesis by simp
    next
      case False
      with key ue adj egress_encapsulates [OF assms key ue adj] show ?thesis by simp
    qed
  qed
qed

theorem upf_tc_egress_outcomes_witness:
  "\<exists>v sk' s'. upf_tc_egress demo_helpers \<lparr>skb_data = demo_dl, skb_frags = []\<rparr> demo_dl_state = Some ((v, sk'), s') \<and>
     v = TC_ACT_OK \<and> skb_data sk' = take 14 demo_dl @ outer_header 71 0 demo_ue @ drop 14 demo_dl"
proof -
  let ?sk = "\<lparr>skb_data = demo_dl, skb_frags = []\<rparr>"
  have "skb_len ?sk + 36 = 71" by (simp add: skb_len_def demo_dl_def)
  moreover have "dl_ue_map (tables demo_dl_state) 0x0700000A = Some demo_ue"
    "n3_addr (tables demo_dl_state) = 0"
    by (simp_all add: demo_dl_state_def n3_addr_def demo_dp_def)
  ultimately show ?thesis
    using upf_tc_egress_outcomes [OF demo_encap_law, of ?sk demo_dl_state] demo_dl_key
    by (auto simp: demo_helpers_def demo_adjust_def)
qed

text \<open>
  C18. The outer header that leaves the program is valid: a receiver accepts
  the IPv4 header (the one's-complement sum of its ten 16-bit words in network order is all ones), the IPv4, UDP and GTP-U length fields are, in
  network order, the lengths of what they cover (modulo 2^16), the source is the configured N3
  address and the destination the gNB of the UE.
\<close>

theorem egress_header_valid:
  assumes "encap_law H" and "egress_key (skb_data sk) = Some dst"
    and "dl_ue_map (tables s) dst = Some ue" and "0 \<le> fst (skb_adjust_room H 36 sk)"
  defines "len \<equiv> skb_len sk + 36"
  shows "\<exists>sk' s'. upf_tc_egress H sk s = Some ((TC_ACT_OK, sk'), s') \<and>
    header_accepted (slice 14 34 (skb_data sk')) \<and>
    bpf_htons (rd16 (skb_data sk') 16) = ucast (len - 14) \<and>
    bpf_htons (rd16 (skb_data sk') 38) = ucast (len - 34) \<and>
    bpf_htons (rd16 (skb_data sk') 44) = ucast (len - 50) \<and>
    rd32 (skb_data sk') 26 = n3_addr (tables s) \<and> rd32 (skb_data sk') 30 = ue_gnb_ipv4_be ue"
proof -
  obtain ret sk1 where adj: "skb_adjust_room H 36 sk = (ret, sk1)" by (rule prod.exhaust)
  let ?eth = "take 14 (skb_data sk)" and ?rest = "drop 14 (skb_data sk)" and ?n3 = "n3_addr (tables s)"
  have eth: "length ?eth = 14" using egress_key_run(1) [OF assms(2)] by simp
  have run: "upf_tc_egress H sk s =
      Some ((TC_ACT_OK, sk1\<lparr>skb_data := ?eth @ outer_header len ?n3 ue @ ?rest\<rparr>), bump_all [M_TC_DL_HIT] s)"
    using egress_encapsulates [OF assms(1-3) adj] adj assms(4) by (simp add: len_def)
  have "header_accepted (slice 14 34 (?eth @ outer_header len ?n3 ue @ ?rest))"
    using outer_header_accepted [of len ?n3 ue] eth by (simp add: slice_def)
  with run show ?thesis by (simp add: rd_outer [OF eth])
qed

theorem egress_header_valid_witness:
  "\<exists>sk' s'. upf_tc_egress demo_helpers \<lparr>skb_data = demo_dl, skb_frags = []\<rparr> demo_dl_state =
       Some ((TC_ACT_OK, sk'), s') \<and> header_accepted (slice 14 34 (skb_data sk'))"
proof -
  let ?sk = "\<lparr>skb_data = demo_dl, skb_frags = []\<rparr>"
  have ue: "dl_ue_map (tables demo_dl_state) 0x0700000A = Some demo_ue"
    by (simp add: demo_dl_state_def)
  have key: "egress_key (skb_data ?sk) = Some 0x0700000A" by (simp add: demo_dl_key)
  have adj: "0 \<le> fst (skb_adjust_room demo_helpers 36 ?sk)" by (simp add: demo_helpers_def demo_adjust_def)
  show ?thesis using egress_header_valid [OF demo_encap_law key ue adj] by blast
qed

text \<open>
  C16. Round trip between the downlink and the uplink program. A packet encapsulated by \<^verbatim>\<open>upf_tc_egress\<close> is a
  G-PDU with the TEID of the UE. Passing \<^verbatim>\<open>upf_tc_egress\<close> again, in any state, it is neither changed nor
  counted: there is no double encapsulation. And a peer whose rules forward this TEID, when its kernel shrinks the
  packet and its QER admits it, sends out of the FAR's interface what \<^verbatim>\<open>upf_tc_ingress\<close> makes of it, which is the original frame.
\<close>

theorem egress_ingress_round_trip:
  assumes "encap_law H" and "decap_law H" and "egress_key (skb_data sk) = Some dst"
    and "dl_ue_map (tables s) dst = Some ue" and "0 \<le> fst (skb_adjust_room H 36 sk)"
  shows "\<exists>sk' s'. upf_tc_egress H sk s = Some ((TC_ACT_OK, sk'), s') \<and>
    classify (skb_data sk') = GPdu (bpf_ntohl (ue_teid_be ue)) 20 \<and>
    (\<forall>p. upf_tc_egress H sk' p = Some ((TC_ACT_OK, sk'), p)) \<and>
    (\<forall>B p se cur far sk2 p1.
       tc_lookup (tables p) (bpf_ntohl (ue_teid_be ue)) = Some (se, cur, far) \<and>
       far_action far \<noteq> FAR_DROP \<and> far_action far \<noteq> FAR_BUFFER \<and>
       skb_adjust_room H (- int (20 + 16)) sk' = (0, sk2) \<and>
       qer_admit B H (slot_qer_id cur) (skb_len sk2) (snd (tc_entry B H p)) = Some (True, p1) \<longrightarrow>
       (\<exists>p'. upf_tc_ingress B H sk' p = Some ((redirect H (far_out_ifindex far), sk2), p') \<and>
          skb_data sk2 = skb_data sk))"
proof -
  obtain ret sk1 where adj: "skb_adjust_room H 36 sk = (ret, sk1)" by (rule prod.exhaust)
  let ?eth = "take 14 (skb_data sk)" and ?rest = "drop 14 (skb_data sk)"
  let ?data = "?eth @ outer_header (skb_len sk + 36) (n3_addr (tables s)) ue @ ?rest"
  let ?sk' = "sk1\<lparr>skb_data := ?data\<rparr>"
  have len: "14 \<le> length (skb_data sk)" by (rule egress_key_run(1) [OF assms(3)])
  then have eth: "length ?eth = 14" by simp
  have ip: "rd16 ?eth 12 = bpf_htons ETH_P_IP" by (rule egress_key_proto [OF assms(3)])
  have run: "upf_tc_egress H sk s = Some ((TC_ACT_OK, ?sk'), bump_all [M_TC_DL_HIT] s)"
    using egress_encapsulates [OF assms(1,3,4) adj] adj assms(5) by simp
  have cls: "classify (skb_data ?sk') = GPdu (bpf_ntohl (ue_teid_be ue)) 20"
    using classify_outer [OF eth ip] by simp
  have "egress_key (skb_data ?sk') = None"
    using rd_outer [OF eth, of "skb_len sk + 36" "n3_addr (tables s)" ue ?rest] eth ip
    by (simp add: egress_key_def ihl_bytes_def Let_def)
  then have once: "\<forall>p. upf_tc_egress H ?sk' p = Some ((TC_ACT_OK, ?sk'), p)" by (simp only: egress_no_key simp_thms)
  have undo: "skb_data sk2 = skb_data sk" if "skb_adjust_room H (- int (20 + 16)) ?sk' = (0, sk2)" for sk2
  proof -
    have "skb_data sk2 = take 14 ?data @ drop (14 + (20 + 16)) ?data"
      using decap_lawD [OF assms(2) that] eth by simp
    then show ?thesis using len by simp
  qed
  show ?thesis
  proof (rule exI [of _ ?sk'], rule exI, intro conjI allI impI; (elim conjE)?)
    fix B p se cur far sk2 p1
    assume p: "tc_lookup (tables p) (bpf_ntohl (ue_teid_be ue)) = Some (se, cur, far)"
      "far_action far \<noteq> FAR_DROP" "far_action far \<noteq> FAR_BUFFER" "skb_adjust_room H (- int (20 + 16)) ?sk' = (0, sk2)"
      "qer_admit B H (slot_qer_id cur) (skb_len sk2) (snd (tc_entry B H p)) = Some (True, p1)"
    obtain p' where "upf_tc_ingress B H ?sk' p = Some ((redirect H (far_out_ifindex far), sk2), p')"
      by (rule ingress_forward_run [OF cls p(1-4) order_refl p(5)])
    with undo [OF p(4)]
    show "\<exists>p'. upf_tc_ingress B H ?sk' p = Some ((redirect H (far_out_ifindex far), sk2), p') \<and> skb_data sk2 = skb_data sk"
      by blast
  qed (use run cls once in blast)+
qed

text \<open>A peer that forwards TEID 4096 and polices nothing.\<close>

definition demo_peer :: dp where
  "demo_peer = (demo_state FAR_FORWARD 0)\<lparr>tables := (tables (demo_state FAR_FORWARD 0))\<lparr>qer_table := Map.empty\<rparr>\<rparr>"

lemma demo_peer_facts:
  "tc_lookup (tables demo_peer) 4096 = tc_lookup (tables (demo_state FAR_FORWARD 0)) 4096"
  "qer_admit demo_build demo_helpers k n demo_peer = Some (True, demo_peer)"
  by (simp_all add: demo_peer_def tc_lookup_def qer_admit_def demo_build_def upf_qer_admit_def
      split: option.split)

theorem egress_ingress_round_trip_witness:
  "\<exists>sk' s' sk2 p'. upf_tc_egress demo_helpers \<lparr>skb_data = demo_dl, skb_frags = []\<rparr> demo_dl_state =
       Some ((TC_ACT_OK, sk'), s') \<and>
     upf_tc_egress demo_helpers sk' demo_dl_state = Some ((TC_ACT_OK, sk'), demo_dl_state) \<and>
     upf_tc_ingress demo_build demo_helpers sk' demo_peer = Some ((7, sk2), p') \<and> skb_data sk2 = demo_dl"
proof -
  let ?sk = "\<lparr>skb_data = demo_dl, skb_frags = []\<rparr>"
  have ue: "dl_ue_map (tables demo_dl_state) 0x0700000A = Some demo_ue"
    by (simp add: demo_dl_state_def)
  have key: "egress_key (skb_data ?sk) = Some 0x0700000A" by (simp add: demo_dl_key)
  have adj: "0 \<le> fst (skb_adjust_room demo_helpers 36 ?sk)" by (simp add: demo_helpers_def demo_adjust_def)
  have teid: "bpf_ntohl (ue_teid_be demo_ue) = 4096" by (simp add: demo_ue_def bpf_ntohl_def)
  note trip = egress_ingress_round_trip [OF demo_encap_law demo_decap_law key ue adj, unfolded teid]
  show ?thesis
    using trip
  proof (elim exE conjE, goal_cases)
    case (1 sk' s')
    obtain sk2 where sk2: "skb_adjust_room demo_helpers (- int (20 + 16)) sk' = (0, sk2)"
      by (simp add: demo_helpers_def demo_adjust_def)
    have adm: "qer_admit demo_build demo_helpers (slot_qer_id demo_slot) (skb_len sk2)
        (snd (tc_entry demo_build demo_helpers demo_peer)) = Some (True, demo_peer)"
      by (simp add: demo_entry demo_peer_facts)
    from 1(4) [THEN spec [of _ demo_build], THEN spec [of _ demo_peer]] demo_lookup [of FAR_FORWARD 0] sk2 adm
    show ?case using 1(1,3) by (fastforce simp: demo_helpers_def demo_peer_facts(1))
  qed
qed

end
