(* ===== verification/Upf_System.thy ===== *)
theory Upf_System
  imports Agent_Server Upf_Pipeline Upf_Egress
begin

text \<open>
  The running system as a state machine: the agent process handles requests while frames pass the
  datapath. A state is the agent's world on the recording kernel, the state of the datapath, and the packets that
  XDP has passed and TC has not yet taken, in any order. A step is one request, one frame at the XDP hook, one
  pending packet at the TC hook, or one downlink packet. Each program runs on the current contents of the maps or on any
  contents that have been there since the start, so the two hooks may see different rules, and a program may run
  between any two system calls of a request. The lookups of one run of a program are made in one contents of the maps.
\<close>

subsection \<open>The agent on the recording kernel\<close>

definition traced_clock :: "('k \<Rightarrow> int \<times> 'k) \<Rightarrow> 'k \<times> 'k list \<Rightarrow> int \<times> ('k \<times> 'k list)" where
  "traced_clock clock kt = (case clock (fst kt) of (t, k') \<Rightarrow> (t, (k', snd kt)))"

definition traced_env :: "('k, 'f :: linorder) http_env \<Rightarrow> ('k \<times> 'k list, 'f) http_env" where
  "traced_env E = \<lparr>env_sys = traced (env_sys E), env_dump = env_dump E \<circ> fst,
     env_clock = traced_clock (env_clock E), env_unquote = env_unquote E, env_us = env_us E, env_ms = env_ms E,
     env_round3 = env_round3 E, env_i95 = env_i95 E, env_i99 = env_i99 E, env_dumps = env_dumps E\<rparr>"

subsection \<open>The invariant of the rule maps\<close>

text \<open>
  The agent numbers PDRs by TEID: 0x2000 + i for 0x1000 + i at startup and 0x20000 + i for
  0x10000 + i in a measurement. With references and FARs in place, the tables are \<open>linked\<close>.
\<close>

definition own_pdr :: "int \<Rightarrow> int" where
  "own_pdr t = (if t < 0x10000 then t + 0x1000 else t + 0x10000)"

definition linked :: "rule_tables \<Rightarrow> bool" where
  "linked T \<longleftrightarrow> refs_ok T \<and> fars_ok T \<and>
     (\<forall>x s. teid_session T x = Some s \<longrightarrow> uint (sess_pdr_id s) = own_pdr (uint x))"

abbreviation linked1 :: "rule_tables \<Rightarrow> bool" where
  "linked1 T \<equiv> linked T \<and> far_table T 1 \<noteq> None"

lemma linked_pdr: "linked T \<Longrightarrow> linked (T\<lparr>pdr_table := (pdr_table T)(p \<mapsto> v)\<rparr>)"
  by (auto simp: linked_def refs_ok_def fars_ok_def)

lemma linked_bundle:
  "linked T \<Longrightarrow> far_table T (slot_far_id (active_slot b)) \<noteq> None \<Longrightarrow>
    linked (T\<lparr>tc_bundle_map := (tc_bundle_map T)(p \<mapsto> b)\<rparr>)"
  by (auto simp: linked_def refs_ok_def fars_ok_def)

lemma linked_far: "linked T \<Longrightarrow> linked (T\<lparr>far_table := (far_table T)(f \<mapsto> v)\<rparr>)"
  by (auto simp: linked_def refs_ok_def fars_ok_def)

lemma linked_qer: "linked T \<Longrightarrow> linked (T\<lparr>qer_table := q\<rparr>)"
  by (auto simp: linked_def refs_ok_def fars_ok_def)

lemma linked_session:
  assumes "linked T" "pdr_table T (sess_pdr_id se) \<noteq> None" "tc_bundle_map T (sess_pdr_id se) \<noteq> None"
    and "uint (sess_pdr_id se) = own_pdr (uint t)" "ts t = Some se"
    and "\<forall>x. x \<noteq> t \<longrightarrow> ts x = teid_session T x \<or> ts x = None"
  shows "linked (T\<lparr>teid_session := ts\<rparr>)"
proof -
  have "ts x = Some s \<Longrightarrow> (x = t \<and> s = se) \<or> teid_session T x = Some s" for x s
    using assms(5,6) by (cases "x = t") auto
  with assms(1-4) show ?thesis by (fastforce simp: linked_def refs_ok_def fars_ok_def)
qed

lemma linked_remove:
  "linked T \<Longrightarrow> linked (T\<lparr>teid_session := (teid_session T)(t := None)\<rparr>)"
  "linked T \<Longrightarrow> \<forall>x s. teid_session T x = Some s \<longrightarrow> sess_pdr_id s \<noteq> p \<Longrightarrow>
     linked (T\<lparr>pdr_table := (pdr_table T)(p := None)\<rparr>)"
  "linked T \<Longrightarrow> \<forall>x s. teid_session T x = Some s \<longrightarrow> sess_pdr_id s \<noteq> p \<Longrightarrow>
     linked (T\<lparr>tc_bundle_map := (tc_bundle_map T)(p := None)\<rparr>)"
  by (auto simp: linked_def refs_ok_def fars_ok_def split: if_splits)

text \<open>A TEID is determined by its PDR.\<close>

lemma own_pdr_inj: "own_pdr s = own_pdr t \<Longrightarrow> 0 \<le> s \<Longrightarrow> 0 \<le> t \<Longrightarrow> s = t"
  by (auto simp: own_pdr_def split: if_splits)

lemma uint_inj_own:
  assumes "uint (sess :: u32) = own_pdr (uint (x :: u32))" "sess = word_of_int (own_pdr t)" "in_u32 t" "in_u32 (own_pdr t)"
  shows "x = word_of_int t"
proof -
  have "uint sess = own_pdr t" unfolding assms(2) using assms(4) by (rule uint_word_of_int_u32)
  then have "own_pdr (uint x) = own_pdr t" unfolding assms(1) .
  then have "uint x = t" by (rule own_pdr_inj) (use assms(3) in \<open>simp_all add: in_u32_def\<close>)
  from this [symmetric] show ?thesis by simp
qed

context bpf_kernel
begin

text \<open>The tables stay linked in every state observable during each operation of the agent.\<close>

lemma install_default_linked:
  assumes "p = own_pdr t"
  shows "py_hoare (seen linked linked1) (install_default (traced sys) t p)
    (\<lambda>_. seen linked linked1) (seen linked linked1)"
  unfolding install_default_def
proof (rule install_session_keeps, goal_cases)
  case (4 T ts)
  have "uint (sess_pdr_id (mk_session p 1 1)) = own_pdr (uint (word_of_int t :: u32))"
    using 4(2,3) assms by (simp add: mk_session_def uint_word_of_int_u32)
  with 4 show ?case
    by (intro conjI linked_session [of T "mk_session p 1 1" "word_of_int t"]) (simp_all add: mk_session_def)
qed (auto simp: linked_pdr intro!: linked_bundle simp: mk_bundle_def mk_slot_def active_slot_def)

lemma remove_linked:
  assumes "p = own_pdr t"
  shows "py_hoare (seen linked linked1) (remove_session (traced sys) t p)
    (\<lambda>_. seen linked linked1) (seen linked linked1)"
proof (rule remove_session_keeps, goal_cases)
  case (2 T x s)
  then have "uint (sess_pdr_id s) = own_pdr (uint x)" unfolding linked_def by blast
  then show ?case by (rule uint_inj_own) (use 2 assms in simp_all)
qed (auto intro: linked_remove)

lemma bootstrap_linked:
  assumes "n \<le> 0xF000"
  shows "py_hoare (seen linked linked) (bootstrap_initial (traced sys) n out)
    (\<lambda>_. seen linked linked1) (seen linked linked)"
proof -
  have far: "py_hoare (seen linked linked) (install_far (traced sys) 1 (uint FAR_FORWARD) out 0 0)
      (\<lambda>_. seen linked linked1) (seen linked linked)"
    unfolding install_far_def
  proof (intro hoare_lift_bind)
    fix k v assume kv: "enc_u32 1 = Inr k" "enc_far (uint FAR_FORWARD) out 0 0 = Inr v"
    have k: "k = key32 1" using kv(1) by (simp add: enc_u32_eq)
    show "py_hoare (seen linked linked) (map_update (traced sys) ''far_table'' k v)
        (\<lambda>_. seen linked linked1) (seen linked linked)"
      unfolding k by (rule hoare_commit [OF commits_update_far]) (use ld_enc_far [OF kv(2)] linked_far in auto)
  qed auto
  have qer: "py_hoare (seen linked linked1) (install_qer (traced sys) 1 0 0 0)
      (\<lambda>_. seen linked linked1) (seen linked linked)"
    unfolding install_qer_def
  proof (intro hoare_lift_bind)
    fix k v assume kv: "enc_u32 1 = Inr k" "enc_qer 0 0 0 = Inr v"
    have k: "k = key32 1" using kv(1) by (simp add: enc_u32_eq)
    show "py_hoare (seen linked linked1) (map_update (traced sys) ''qer_table'' k v)
        (\<lambda>_. seen linked linked1) (seen linked linked)"
      unfolding k by (rule hoare_commit [OF commits_update_qer]) (use ld_enc_qer [OF kv(2)] linked_qer in auto)
  qed (auto elim: seen_weaken)
  have body: "py_hoare (seen linked linked1) (install_default (traced sys) (0x1000 + i) (0x2000 + i))
      (\<lambda>_. seen linked linked1) (seen linked linked)" if "i \<in> set (py_range n)" for i
    by (rule hoare_weaken [OF install_default_linked])
      (use that assms in \<open>auto simp: own_pdr_def py_range_def elim: seen_weaken\<close>)
  show ?thesis unfolding bootstrap_initial_def
    by (intro hoare_bind [OF far] hoare_bind [OF qer] hoare_for body)
qed

lemma monotonic_linked:
  assumes "clock_neutral view fd_path fd_avail clock"
  shows "py_hoare (seen I P) (monotonic_ns (traced_clock clock)) (\<lambda>_. seen I P) E"
proof (rule py_hoareI)
  fix w t w' assume st: "seen I P w" "monotonic_ns (traced_clock clock) w = (Inr t, w')"
  obtain k' where c: "clock (fst (kern w)) = (t, k')" "w' = w\<lparr>kern := (k', snd (kern w))\<rparr>"
    using st(2) by (auto simp: monotonic_ns_def traced_clock_def split: prod.splits)
  have k': "view k' = view (fst (kern w))" "fd_path k' = fd_path (fst (kern w))"
    "fd_avail k' = fd_avail (fst (kern w))"
    using assms c(1) unfolding clock_neutral_def by (metis snd_conv)+
  have "tr_ok w'" unfolding c(2)
    by (rule bpf_kernel.world_ok_same_fds [OF traced_kernel]) (use st(1) k' in \<open>simp_all add: seen_ok_def\<close>)
  moreover have "observed view w' = observed view w" "tr_tabs w' = tr_tabs w"
    using c(2) k'(1) by (simp_all add: observed_def tabs_def tables_of_def rules_def pin_path_def)
  ultimately show "seen I P w'" using st(1) by (simp add: seen_ok_def)
qed (simp add: monotonic_ns_def split: prod.splits)

lemma measure_installs_linked:
  assumes clock: "clock_neutral view fd_path fd_avail clock" and "\<forall>i \<in> set is. 0 \<le> i"
  shows "py_hoare (seen linked linked1) (measure_installs (traced sys) (traced_clock clock) us 0x10000 0x20000 is ss)
    (\<lambda>_. seen linked linked1) (seen linked linked1)"
  using assms(2)
proof (induction "is" arbitrary: ss)
  case Nil
  show ?case by (simp add: hoare_return)
next
  case (Cons i "is")
  then have p: "0x20000 + i = own_pdr (0x10000 + i)" by (simp add: own_pdr_def)
  show ?case unfolding measure_installs.simps
    by (intro hoare_bind [OF monotonic_linked [OF clock]] hoare_bind [OF install_default_linked [OF p]] Cons.IH)
      (use Cons.prems in simp)
qed

lemma measure_linked:
  assumes clock: "clock_neutral view fd_path fd_avail clock"
  shows "py_hoare (seen linked linked1) (measure_rule_update (traced sys) (traced_clock clock) us ms n)
    (\<lambda>_. seen linked linked1) (seen linked linked1)"
proof -
  have range: "\<forall>i \<in> set (py_range n). 0 \<le> i" by (simp add: py_range_def)
  have body: "py_hoare (seen linked linked1) (remove_session (traced sys) (0x10000 + i) (0x20000 + i))
      (\<lambda>_. seen linked linked1) (seen linked linked1)" if "i \<in> set (py_range n)" for i
    by (rule remove_linked) (use that range in \<open>auto simp: own_pdr_def\<close>)
  show ?thesis unfolding measure_rule_update_def Let_def
    by (intro hoare_bind [OF monotonic_linked [OF clock]] hoare_bind [OF measure_installs_linked [OF clock range]]
        hoare_bind [OF hoare_for] body hoare_return)
qed

lemma do_GET_linked:
  assumes "env_sys E = sys" and clock: "clock_neutral view fd_path fd_avail (env_clock E)"
  shows "py_hoare (seen linked linked1) (do_GET (traced_env E) path)
    (\<lambda>_. seen linked linked1) (seen linked linked1)"
proof (cases "take 11 path = ''/ruleupdate''")
  case True
  then have "path \<noteq> ''/metrics''" by auto
  with True have run: "do_GET (traced_env E) path =
      py_bind (py_lift (requested_rules (env_unquote E) path)) (\<lambda>n.
      py_bind (measure_rule_update (traced sys) (traced_clock (env_clock E)) (env_us E) (env_ms E) n) (\<lambda>(ms, per_us).
      py_bind (py_lift (rule_stats (env_i95 E) (env_i99 E) n (env_round3 E ms) per_us)) (\<lambda>body.
      py_return (send_response 200 (env_dumps E body) ''application/json''))))"
    by (simp add: do_GET_def traced_env_def assms(1))
  show ?thesis unfolding run
    by (intro hoare_lift_bind hoare_bind [OF measure_linked [OF clock]])
      (auto intro!: hoare_lift_bind hoare_return)
next
  case False
  have "snd (do_GET (traced_env E) path w) = w" for w
    using False by (auto simp: do_GET_def py_bind_def py_lift_def py_return_def split: sum.splits)
  then show ?thesis by (intro py_hoareI) (metis snd_conv)+
qed

end

subsection \<open>The uplink pipeline\<close>

text \<open>
  The packets that the TC stage has decided by a rule, and the hits of XDP without a trace in the TC stage: neither a
  decision nor a miss.
\<close>

definition tc_outcomes :: "dp \<Rightarrow> u64" where
  "tc_outcomes s = metrics s M_TC_FAR_DROP + metrics s M_TC_FAR_BUFFER + metrics s M_TC_DECAP_ERR +
     metrics s M_TC_QER_DROP + metrics s M_TC_FAR_FORWARD"

definition undecided :: "dp \<Rightarrow> u64" where
  "undecided s = metrics s M_HIT - tc_outcomes s - metrics s M_TC_MISS_FAR"

definition is_gpdu :: "skb \<Rightarrow> bool" where
  "is_gpdu sk = (case classify (skb_data sk) of GPdu _ _ \<Rightarrow> True | _ \<Rightarrow> False)"

text \<open>Packets on the way from XDP to TC, each with the tables in which XDP has looked it up.\<close>

type_synonym backlog = "(rule_tables \<times> skb) list"

definition in_flight :: "backlog \<Rightarrow> nat" where
  "in_flight q = length (filter (is_gpdu \<circ> snd) q)"

lemma in_flight_simps [simp]:
  "in_flight [] = 0" "in_flight ((T, sk) # q) = in_flight q + (if is_gpdu sk then 1 else 0)"
  "in_flight (q @ q') = in_flight q + in_flight q'"
  by (simp_all add: in_flight_def)

text \<open>What holds of a packet that XDP has passed in tables \<open>T0\<close>: a G-PDU had its session there.\<close>

definition xdp_admitted :: "rule_tables \<times> skb \<Rightarrow> bool" where
  "xdp_admitted = (\<lambda>(T0, sk). \<forall>teid ihl. classify (skb_data sk) = GPdu teid ihl \<longrightarrow> teid_session T0 teid \<noteq> None)"

lemma undecided_tables [simp]: "undecided (s\<lparr>tables := T\<rparr>) = undecided s"
  by (simp add: undecided_def tc_outcomes_def)

lemma xdp_books:
  assumes "upf_xdp_uplink (skb_data sk) s = Some (v, s')"
  shows "undecided s' = undecided s + (if v = XDP_PASS \<and> is_gpdu sk then 1 else 0)"
    and "v = XDP_PASS \<Longrightarrow> xdp_admitted (tables s, sk)"
  using assms by (auto simp: xdp_refines_spec undecided_def tc_outcomes_def bumped_def is_gpdu_def xdp_admitted_def
      split: frame_class.splits option.splits if_splits prod.splits)

text \<open>Forwarding counts exactly one outcome.\<close>

lemma far_forward_outcome:
  obtains r s' ms where "upf_far_forward B H sk f q u p g n t s = Some (r, s')" "metrics s' = bumped ms (metrics s)"
    "ms \<in> {[M_TC_DECAP_ERR], [M_TC_QER_DROP]} \<union> range (forward_counters u)"
proof -
  obtain ret sk1 where adj: "skb_adjust_room H (- int n) sk = (ret, sk1)" by (rule prod.exhaust)
  obtain b s1 where adm: "qer_admit B H q (skb_len sk1) s = Some (b, s1)" by (rule qer_admit_frame)
  show thesis
  proof (cases "ret < 0 \<or> far_table (tables s) f = None \<or> \<not> b")
    case True
    with adm have "ret < 0 \<or> far_table (tables s) f = None \<or>
        qer_admit B H q (skb_len sk1) s = Some (False, s1)" by auto
    from far_forward_rejected [OF adj this, of u p g t] that show thesis by (auto split: if_splits)
  next
    case False
    then obtain far where far: "far_table (tables s) f = Some far" by auto
    from False adm have adm: "qer_admit B H q (skb_len sk1) s = Some (True, s1)" by simp
    obtain s' where "upf_far_forward B H sk f q u p g n t s =
        Some ((redirect H (far_out_ifindex far), sk1), s')"
      "metrics s' = bumped (forward_counters u (redirect H (far_out_ifindex far))) (metrics s)"
      by (rule far_forward_admitted [OF adj _ far adm]) (use False in auto)
    with that show thesis by blast
  qed
qed

lemma enforce_outcome:
  assumes "tc_lookup (tables s) teid = Some x"
  obtains r s' where "tc_enforce B H sk t teid ihl s = Some (r, s')" "tc_outcomes s' = tc_outcomes s + 1"
    "metrics s' M_HIT = metrics s M_HIT" "metrics s' M_TC_MISS_FAR = metrics s M_TC_MISS_FAR"
proof -
  obtain se cur far where x: "x = (se, cur, far)" by (rule prod_cases3)
  obtain r1 s1 ms where fwd: "upf_far_forward B H sk (slot_far_id cur) (slot_qer_id cur) (slot_urr_id cur)
      (sess_pdr_id se) (slot_generation cur) (ihl + 16) t s = Some (r1, s1)" "metrics s1 = bumped ms (metrics s)"
    "ms \<in> {[M_TC_DECAP_ERR], [M_TC_QER_DROP]} \<union> range (forward_counters (slot_urr_id cur))"
    by (rule far_forward_outcome)
  have "tc_outcomes s1 = tc_outcomes s + 1" "metrics s1 M_HIT = metrics s M_HIT"
    "metrics s1 M_TC_MISS_FAR = metrics s M_TC_MISS_FAR"
    using fwd(2,3) by (auto simp: tc_outcomes_def bumped_def forward_counters_def)
  then show thesis
    using that assms x fwd(1)
    by (cases "far_action far = FAR_DROP"; cases "far_action far = FAR_BUFFER")
      (auto simp: tc_enforce_eq tc_outcomes_def bumped_def)
qed

text \<open>
  A G-PDU whose TEID resolves counts one outcome; one that does not counts one miss and goes up the stack as it is;
  any other packet goes up the stack uncounted.
\<close>

lemma ingress_books:
  obtains r sk' s' where "upf_tc_ingress B H sk s = Some ((r, sk'), s')"
    "case classify (skb_data sk) of
       GPdu teid ihl \<Rightarrow>
         (if tc_lookup (tables s) teid = None
          then r = TC_ACT_OK \<and> sk' = sk \<and> metrics s' = bumped [M_TC_MISS_FAR] (metrics s)
          else tc_outcomes s' = tc_outcomes s + 1 \<and> metrics s' M_HIT = metrics s M_HIT \<and>
            metrics s' M_TC_MISS_FAR = metrics s M_TC_MISS_FAR)
     | _ \<Rightarrow> r = TC_ACT_OK \<and> sk' = sk \<and> metrics s' = metrics s"
proof -
  obtain t s1 where e: "tc_entry B H s = (t, s1)" by (rule prod.exhaust)
  have s1: "tables s1 = tables s" "metrics s1 = metrics s" "tc_outcomes s1 = tc_outcomes s"
    using e by (auto simp: tc_entry_def tc_outcomes_def split: if_splits)
  show thesis
  proof (cases "\<exists>teid ihl x. classify (skb_data sk) = GPdu teid ihl \<and> tc_lookup (tables s1) teid = Some x")
    case True
    then obtain teid ihl x where g: "classify (skb_data sk) = GPdu teid ihl" "tc_lookup (tables s1) teid = Some x" by blast
    obtain r s' where "tc_enforce B H sk t teid ihl s1 = Some (r, s')" "tc_outcomes s' = tc_outcomes s1 + 1"
      "metrics s' M_HIT = metrics s1 M_HIT" "metrics s' M_TC_MISS_FAR = metrics s1 M_TC_MISS_FAR"
      by (rule enforce_outcome [OF g(2)])
    with g e s1 show thesis by (cases r) (auto intro!: that simp: tc_ingress_classify)
  next
    case False
    then have "tc_lookup (tables s) teid = None" if "classify (skb_data sk) = GPdu teid ihl" for teid ihl
      using that s1(1) by (cases "tc_lookup (tables s) teid") auto
    with e s1 show thesis
      by (cases "classify (skb_data sk)") (auto intro!: that simp: tc_ingress_classify tc_enforce_eq)
  qed
qed

lemma pending_outcome:
  assumes "linked T" "xdp_admitted (T0, sk)"
  shows "\<exists>r sk' s'. upf_tc_ingress B H sk (s\<lparr>tables := T\<rparr>) = Some ((r, sk'), s') \<and>
     (case classify (skb_data sk) of
        GPdu teid ihl \<Rightarrow> teid_session T0 teid \<noteq> None \<and>
          (if teid_session T teid = None
           then r = TC_ACT_OK \<and> sk' = sk \<and> metrics s' = bumped [M_TC_MISS_FAR] (metrics s)
           else tc_outcomes s' = tc_outcomes s + 1 \<and> metrics s' M_TC_MISS_FAR = metrics s M_TC_MISS_FAR)
      | _ \<Rightarrow> r = TC_ACT_OK \<and> sk' = sk \<and> metrics s' = metrics s)"
proof -
  have "tc_lookup T teid = None \<longleftrightarrow> teid_session T teid = None" for teid
  proof (cases "teid_session T teid")
    case (Some se)
    with tc_lookup_found [OF _ _ Some] assms(1) show ?thesis by (simp add: linked_def)
  qed (simp add: tc_lookup_def)
  moreover have "tc_outcomes (s\<lparr>tables := T\<rparr>) = tc_outcomes s" by (simp add: tc_outcomes_def)
  ultimately show ?thesis
    by (rule_tac ingress_books [of B H sk "s\<lparr>tables := T\<rparr>"])
      (use assms(2) in \<open>auto simp: xdp_admitted_def split: frame_class.splits if_splits\<close>)
qed

lemma ingress_undecided:
  assumes "upf_tc_ingress B H sk s = Some (r, s')"
  shows "undecided s = undecided s' + (if is_gpdu sk then 1 else 0)"
  by (rule ingress_books [of B H sk s])
    (use assms in \<open>auto simp: undecided_def is_gpdu_def tc_outcomes_def bumped_def algebra_simps
      split: frame_class.splits if_splits\<close>)

lemma p_stores_state: "p_stores ws sk s = Some (sk', s') \<Longrightarrow> s' = s"
  by (induction ws sk arbitrary: s rule: p_stores.induct)
    (auto simp: p_bind_def p_store_def split: if_splits option.splits)

lemma write_outer_state: "write_outer sk n3 ue s = Some (r, s') \<Longrightarrow> s' = s"
  by (auto simp: write_outer_def Let_def p_bind_def p_checksum20_def p_store_def simp del: p_stores.simps
      dest!: p_stores_state split: option.splits if_splits)

lemma egress_books:
  assumes "upf_tc_egress H sk s = Some (r, s')"
  shows "undecided s' = undecided s"
proof (cases "egress_key (skb_data sk)")
  case None
  with assms egress_no_key show ?thesis by auto
next
  case (Some dst)
  with assms egress_key_run(2) [OF Some] show ?thesis
    by (auto simp: undecided_def tc_outcomes_def bumped_def
        dest!: write_outer_state split: option.splits prod.splits if_splits)
qed

subsection \<open>The state machine\<close>

definition visible :: "('k \<Rightarrow> store) \<Rightarrow> ('k \<times> 'k list) world \<Rightarrow> rule_tables set" where
  "visible view w = insert (tabs (view \<circ> fst) w) (tables_of ` set (observed view w))"

type_synonym 'k system = "('k \<times> 'k list) world \<times> dp \<times> backlog"

inductive upf_step :: "('k, 'f :: linorder) http_env \<Rightarrow> ('k \<Rightarrow> store) \<Rightarrow> build \<Rightarrow> helpers \<Rightarrow>
    'k system \<Rightarrow> 'k system \<Rightarrow> bool"
  for E view B H where
  request: "upf_step E view B H (w, s, q) (w', s, q)" if "do_GET (traced_env E) path w = (r, w')"
| xdp: "upf_step E view B H (w, s, q) (w, s', if v = XDP_PASS then q @ [(T, sk)] else q)"
    if "T \<in> visible view w" "upf_xdp_uplink (skb_data sk) (s\<lparr>tables := T\<rparr>) = Some (v, s')"
| tc: "upf_step E view B H (w, s, q1 @ (T0, sk) # q2) (w, s', q1 @ q2)"
    if "T \<in> visible view w" "upf_tc_ingress B H sk (s\<lparr>tables := T\<rparr>) = Some (r, s')"
| downlink: "upf_step E view B H (w, s, q) (w, s', q)"
    if "T \<in> visible view w" "upf_tc_egress H sk (s\<lparr>tables := T\<rparr>) = Some (r, s')"

inductive_cases upf_stepE [consumes 1, case_names request xdp tc downlink]: "upf_step E view B H (w, s, q) (w', s', q')"

text \<open>
  Reachable states: the tables stay linked, what is on its way to TC was admitted by XDP, and the hits without
  a trace in the TC stage are those on the way.
\<close>

lemma upf_steps_invariant:
  assumes K: "bpf_kernel (env_sys E) pinned view fd_path fd_avail"
    and clock: "clock_neutral view fd_path fd_avail (env_clock E)"
    and start: "seen_ok pinned view fd_path fd_avail linked (\<lambda>T. linked T \<and> far_table T 1 \<noteq> None) w1"
    and run: "(upf_step E view B H)\<^sup>*\<^sup>* (w1, s1, []) (w, s, q)"
  shows "seen_ok pinned view fd_path fd_avail linked (\<lambda>T. linked T \<and> far_table T 1 \<noteq> None) w \<and>
    (\<forall>x \<in> set q. xdp_admitted x) \<and> undecided s = undecided s1 + of_nat (in_flight q)"
  using run
proof (induction "(w, s, q)" arbitrary: w s q rule: rtranclp_induct)
  case base
  show ?case using start by simp
next
  case (step c w' s' q')
  obtain w s q where c: "c = (w, s, q)" by (rule prod_cases3)
  note IH = step(3) [OF c]
  from step(2) have "upf_step E view B H (w, s, q) (w', s', q')" unfolding c .
  then show ?case
  proof (cases rule: upf_stepE)
    case (request path r)
    have "seen_ok pinned view fd_path fd_avail linked (\<lambda>T. linked T \<and> far_table T 1 \<noteq> None)
        (snd (do_GET (traced_env E) path w))"
      by (rule py_hoare_state [OF bpf_kernel.do_GET_linked [OF K refl clock]]) (use IH in simp)
    with request IH show ?thesis by simp
  next
    case (xdp v T sk)
    with IH xdp_books [OF xdp(4)] show ?thesis by auto
  next
    case (tc T sk r q1 T0 q2)
    with IH ingress_undecided [OF tc(3)] show ?thesis by (cases "is_gpdu sk") (auto simp flip: add.assoc)
  next
    case (downlink T sk r)
    with IH egress_books [OF downlink(4)] show ?thesis by simp
  qed
qed

end
