(* ===== verification/Agent_Downlink.thy ===== *)
theory Agent_Downlink
  imports Agent_Batch Upf_Egress
begin

text \<open>
  The downlink operations of \<^verbatim>\<open>loader/agent.py\<close>, \<^verbatim>\<open>install_dl_ue\<close> and \<^verbatim>\<open>install_upf_config\<close>, and their
  composition with the egress program: what the agent was asked to install is what the packets
  carry. \<^verbatim>\<open>socket.inet_aton\<close> is the parameter \<open>inet_aton\<close>; relied on is that a result has four
  bytes, which are the address in network order.
\<close>

definition aton_law :: "(string \<Rightarrow> bytes res) \<Rightarrow> bool" where
  "aton_law inet_aton \<longleftrightarrow> (\<forall>a bs. inet_aton a = Inr bs \<longrightarrow> length bs = 4)"

definition mk_dl_ue :: "int \<Rightarrow> bytes \<Rightarrow> int \<Rightarrow> dl_ue_val" where
  "mk_dl_ue teid gnb qfi = \<lparr>ue_teid_be = bpf_htonl (word_of_int teid), ue_gnb_ipv4_be = rd32 gnb 0,
     ue_qfi = word_of_int qfi, ue_pad = 0\<rparr>"

definition demo_aton :: "string \<Rightarrow> bytes res" where
  "demo_aton a =
     (if a = ''10.0.0.7'' then Inr [10, 0, 0, 7] else if a = ''192.168.1.1'' then Inr [192, 168, 1, 1]
      else Inl (OSError 0))"

lemma key32_bytes: "length key = 4 \<Longrightarrow> key32 (rd32 key 0) = key"
  by (simp add: key32_rd32)

lemma ld_dl_ue_bytes:
  assumes "in_u32 teid" "length gnb = 4" "0 \<le> qfi" "qfi < 2 ^ 16"
  shows "ld_dl_ue (rev (le_bytes 4 teid) @ gnb @ le_bytes 2 qfi @ le_bytes 2 0) = mk_dl_ue teid gnb qfi"
proof -
  have "rd32 (rev (le_bytes 4 teid)) 0 = bpf_htonl (word_of_int teid)"
    using rd32_rev [of "le_bytes 4 teid"] by (simp add: layout_simps del: le_bytes.simps)
  then show ?thesis
    using assms(2) by (simp add: ld_dl_ue_def mk_dl_ue_def layout_simps del: le_bytes.simps)
qed

context bpf_kernel
begin

lemma room_dl_ue: "agent_ok w \<Longrightarrow>
    has_room (the (upf_defs ''dl_ue_map'')) (rules view w ''dl_ue_map'') (key32 k) \<longleftrightarrow>
    hash_room 65536 (dl_ue_map (tabs view w)) k"
  using has_room_hash [of w "''dl_ue_map''"]
  by (simp add: hash_room_def tabs_def tables_of_def dom_def)

lemma update_dl_ue:
  assumes ok: "agent_ok w" and len: "length v = 12"
  obtains w' where "map_update sys ''dl_ue_map'' (key32 k) v w =
      ((if hash_room 65536 (dl_ue_map (tabs view w)) k then Inr () else Inl (OSError E2BIG)), w')"
    "agent_ok w'"
    "tabs view w' = (if hash_room 65536 (dl_ue_map (tabs view w)) k
       then (tabs view w)\<lparr>dl_ue_map := (dl_ue_map (tabs view w))(k \<mapsto> ld_dl_ue v)\<rparr> else tabs view w)"
  using room_dl_ue [OF ok, of k] len
  by (rule_tac key = "key32 k" and val = v in pmc_update_spec [OF ok upf_defs_simps(6)])
    (auto simp: map_update_def tabs_def tables_of_upd dest!: stored_eq split: if_splits)

lemma update_config:
  assumes ok: "agent_ok w" and len: "length v = 4"
  obtains w' where "map_update sys ''upf_config_map'' (key32 0) v w = (Inr (), w')" "agent_ok w'"
    "tabs view w' = (tabs view w)\<lparr>upf_config_map := (upf_config_map (tabs view w))(0 \<mapsto> ld_config v)\<rparr>"
proof (rule pmc_update_spec [OF ok upf_defs_simps(7), of "key32 0" v])
  have room: "has_room \<lparr>map_type = ArrayMap, key_size = 4, value_size = 4, max_entries = 1\<rparr>
      (rules view w ''upf_config_map'') (key32 0)"
    by (simp add: has_room_def array_room)
  fix w' assume "pmc_update sys ''upf_config_map'' (key32 0) v BPF_ANY w =
      (if has_room \<lparr>map_type = ArrayMap, key_size = 4, value_size = 4, max_entries = 1\<rparr>
         (rules view w ''upf_config_map'') (key32 0) then Inr () else Inl (OSError E2BIG), w')"
    "if has_room \<lparr>map_type = ArrayMap, key_size = 4, value_size = 4, max_entries = 1\<rparr>
        (rules view w ''upf_config_map'') (key32 0)
      then stored \<lparr>map_type = ArrayMap, key_size = 4, value_size = 4, max_entries = 1\<rparr> ''upf_config_map'' (key32 0) v
        (rules view w) (rules view w')
      else rules view w' = rules view w" "agent_ok w'"
  with room show thesis
    by (intro that [of w']) (auto simp: map_update_def tabs_def tables_of_upd dest!: stored_eq)
qed (use len in simp_all)

lemma install_dl_ue_spec:
  assumes ok: "agent_ok w" and law: "aton_law inet_aton"
    and ue: "inet_aton ue = Inr key" and gnb: "inet_aton gnb = Inr g"
    and rng: "in_u32 teid" "0 \<le> qfi" "qfi < 2 ^ 16"
  obtains w' where "install_dl_ue sys inet_aton ue teid gnb qfi w =
      (if hash_room 65536 (dl_ue_map (tabs view w)) (rd32 key 0) then Inr () else Inl (OSError E2BIG), w')"
    "agent_ok w'"
    "tabs view w' = (if hash_room 65536 (dl_ue_map (tabs view w)) (rd32 key 0)
       then (tabs view w)\<lparr>dl_ue_map := (dl_ue_map (tabs view w))(rd32 key 0 \<mapsto> mk_dl_ue teid g qfi)\<rparr>
       else tabs view w)"
proof -
  have len: "length key = 4" "length g = 4" using law ue gnb by (auto simp: aton_law_def)
  let ?v = "rev (le_bytes 4 teid) @ g @ le_bytes 2 qfi @ le_bytes 2 0"
  have v: "length ?v = 12" using len by simp
  have p: "struct_pack Big [FmtI] [teid] = Inr (rev (le_bytes 4 teid))"
    "struct_pack Little [FmtH, FmtH] [qfi, 0] = Inr (le_bytes 2 qfi @ le_bytes 2 0)"
    using rng by (simp_all add: fmt_ok_def in_u32_def int_bytes_def del: le_bytes.simps)
  show thesis
  proof (rule update_dl_ue [OF ok v, of "rd32 key 0"])
    fix w' assume u: "map_update sys ''dl_ue_map'' (key32 (rd32 key 0)) ?v w =
        (if hash_room 65536 (dl_ue_map (tabs view w)) (rd32 key 0) then Inr () else Inl (OSError E2BIG), w')"
      and ok': "agent_ok w'"
      and t: "tabs view w' = (if hash_room 65536 (dl_ue_map (tabs view w)) (rd32 key 0)
        then (tabs view w)\<lparr>dl_ue_map := (dl_ue_map (tabs view w))(rd32 key 0 \<mapsto> ld_dl_ue ?v)\<rparr> else tabs view w)"
    have "install_dl_ue sys inet_aton ue teid gnb qfi w = map_update sys ''dl_ue_map'' (key32 (rd32 key 0)) ?v w"
      using ue gnb p len
      by (simp add: install_dl_ue_def ip_to_be32_bytes_def py_bind_def py_lift_def key32_bytes
          del: le_bytes.simps struct_pack.simps)
    then show thesis
      using that [OF _ ok'] u t ld_dl_ue_bytes [OF rng(1) len(2) rng(2,3)] by simp
  qed
qed

lemma install_upf_config_spec:
  assumes ok: "agent_ok w" and law: "aton_law inet_aton" and n3: "inet_aton n3 = Inr a"
  obtains w' where "install_upf_config sys inet_aton n3 w = (Inr (), w')" "agent_ok w'"
    "tabs view w' = (tabs view w)\<lparr>upf_config_map := (upf_config_map (tabs view w))(0 \<mapsto> \<lparr>cfg_n3_addr_be = rd32 a 0\<rparr>)\<rparr>"
proof -
  have len: "length a = 4" using law n3 by (auto simp: aton_law_def)
  have k: "enc_u32 0 = Inr (key32 0)" by (simp add: enc_u32_eq in_u32_def)
  show thesis
    by (rule update_config [OF ok len], rule that)
      (use n3 k in \<open>simp_all add: install_upf_config_def ip_to_be32_bytes_def py_bind_def py_lift_def ld_config_def\<close>)
qed

end

lemma htonl_ntohl [simp]: "bpf_ntohl (bpf_htonl x) = x"
  by (simp add: bpf_ntohl_def)

lemma start_dl_ue: "dl_ue_map (tabs upf_view start_world) = Map.empty"
  by (simp add: tabs_def tables_of_def start_rules rk_lookup_def rk_entries_def)

lemma demo_aton_facts:
  "aton_law demo_aton" "demo_aton ''10.0.0.7'' = Inr [10, 0, 0, 7]"
  "demo_aton ''192.168.1.1'' = Inr [192, 168, 1, 1]" "rd32 [10, 0, 0, 7] 0 = 0x0700000A"
  "hash_room 65536 (dl_ue_map (tabs upf_view start_world)) 0x0700000A"
proof -
  show "rd32 [10, 0, 0, 7] 0 = 0x0700000A" by code_simp
qed (simp_all add: aton_law_def demo_aton_def hash_room_def start_dl_ue)

subsection \<open>Properties\<close>

text \<open>
  C27. Every outcome of \<^verbatim>\<open>install_dl_ue\<close> for arguments in range: with room in the downlink map it adds
  exactly the entry for the UE address, whose TEID reads back, in network order, as the given one;
  with a full map it raises \<^verbatim>\<open>OSError(E2BIG)\<close> and changes nothing. A TEID outside 32 bits or a QFI
  outside 16 bits raises \<^verbatim>\<open>struct.error\<close>, an invalid address the error of \<^verbatim>\<open>inet_aton\<close>, before any
  map is written.
\<close>

theorem install_dl_ue_outcomes:
  assumes "bpf_kernel sys pinned view fd_path fd_avail" and "world_ok pinned fd_path fd_avail upf_defs w"
    and "aton_law inet_aton"
  shows "case (inet_aton ue, inet_aton gnb) of
      (Inr key, Inr g) \<Rightarrow>
        if in_u32 teid \<and> 0 \<le> qfi \<and> qfi < 2 ^ 16 then
          (\<exists>w'. world_ok pinned fd_path fd_avail upf_defs w' \<and>
            (if hash_room 65536 (dl_ue_map (tabs view w)) (rd32 key 0)
             then install_dl_ue sys inet_aton ue teid gnb qfi w = (Inr (), w') \<and>
               tabs view w' = (tabs view w)\<lparr>dl_ue_map := (dl_ue_map (tabs view w))(rd32 key 0 \<mapsto> mk_dl_ue teid g qfi)\<rparr> \<and>
               uint (bpf_ntohl (ue_teid_be (mk_dl_ue teid g qfi))) = teid
             else install_dl_ue sys inet_aton ue teid gnb qfi w = (Inl (OSError E2BIG), w') \<and>
               tabs view w' = tabs view w))
        else install_dl_ue sys inet_aton ue teid gnb qfi w = (Inl StructError, w)
    | (Inl e, _) \<Rightarrow> install_dl_ue sys inet_aton ue teid gnb qfi w = (Inl e, w)
    | (Inr _, Inl e) \<Rightarrow> install_dl_ue sys inet_aton ue teid gnb qfi w =
        (Inl (if in_u32 teid then e else StructError), w)"
proof (cases "inet_aton ue")
  case (Inl e)
  then show ?thesis by (simp add: install_dl_ue_def ip_to_be32_bytes_def py_bind_def py_lift_def)
next
  case key: (Inr key)
  have big: "struct_pack Big [FmtI] [teid] = (if in_u32 teid then Inr (rev (le_bytes 4 teid)) else Inl StructError)"
    by (simp add: fmt_ok_def in_u32_def int_bytes_def del: le_bytes.simps)
  show ?thesis
  proof (cases "inet_aton gnb")
    case (Inl e)
    with key big show ?thesis
      by (simp add: install_dl_ue_def ip_to_be32_bytes_def py_bind_def py_lift_def del: struct_pack.simps)
  next
    case g: (Inr g)
    show ?thesis
    proof (cases "in_u32 teid \<and> 0 \<le> qfi \<and> qfi < 2 ^ 16")
      case True
      then have rng: "in_u32 teid" "0 \<le> qfi" "qfi < 2 ^ 16" by simp_all
      have "uint (bpf_ntohl (ue_teid_be (mk_dl_ue teid g qfi))) = teid"
        using rng(1) by (simp add: mk_dl_ue_def uint_word_of_int_u32)
      moreover obtain w' where "install_dl_ue sys inet_aton ue teid gnb qfi w =
          (if hash_room 65536 (dl_ue_map (tabs view w)) (rd32 key 0) then Inr () else Inl (OSError E2BIG), w')"
        "world_ok pinned fd_path fd_avail upf_defs w'"
        "tabs view w' = (if hash_room 65536 (dl_ue_map (tabs view w)) (rd32 key 0)
           then (tabs view w)\<lparr>dl_ue_map := (dl_ue_map (tabs view w))(rd32 key 0 \<mapsto> mk_dl_ue teid g qfi)\<rparr>
           else tabs view w)"
        by (rule bpf_kernel.install_dl_ue_spec [OF assms key g rng])
      ultimately show ?thesis
        using key g True by (cases "hash_room 65536 (dl_ue_map (tabs view w)) (rd32 key 0)") auto
    next
      case False
      have "struct_pack Little [FmtH, FmtH] [qfi, 0] = Inl StructError" if "in_u32 teid"
        using False that by (auto simp: fmt_ok_def)
      with key g big False show ?thesis
        by (auto simp: install_dl_ue_def ip_to_be32_bytes_def py_bind_def py_lift_def simp del: struct_pack.simps)
    qed
  qed
qed

theorem install_dl_ue_outcomes_witness:
  "\<exists>w'. install_dl_ue upf_sys demo_aton ''10.0.0.7'' 4096 ''192.168.1.1'' 1 start_world = (Inr (), w') \<and>
     dl_ue_map (tabs upf_view w') 0x0700000A = Some (mk_dl_ue 4096 [192, 168, 1, 1] 1)"
    using install_dl_ue_outcomes [OF rk.bpf_kernel_axioms start_world_ok demo_aton_facts(1),
        where ue = "''10.0.0.7''" and gnb = "''192.168.1.1''" and teid = 4096 and qfi = 1] demo_aton_facts(2-5)
    by (auto simp: in_u32_def)

text \<open>
  C7. From the agent to the wire: after \<^verbatim>\<open>install_dl_ue\<close> and \<^verbatim>\<open>install_upf_config\<close> succeed, every datapath
  state that reads these maps encapsulates a packet for the UE address into a G-PDU whose TEID is
  the integer the agent was given, from the configured N3 address to the gNB address.
\<close>

theorem downlink_configured:
  assumes "bpf_kernel sys pinned view fd_path fd_avail" and "world_ok pinned fd_path fd_avail upf_defs w"
    and "aton_law inet_aton" and "inet_aton ue = Inr key" and "inet_aton gnb = Inr g" and "inet_aton n3 = Inr a"
    and "in_u32 teid" and "0 \<le> qfi" and "qfi < 2 ^ 16"
    and "hash_room 65536 (dl_ue_map (tabs view w)) (rd32 key 0)"
    and "encap_law H" and "egress_key (skb_data sk) = Some (rd32 key 0)" and "0 \<le> fst (skb_adjust_room H 36 sk)"
  shows "\<exists>w1 w2. install_dl_ue sys inet_aton ue teid gnb qfi w = (Inr (), w1) \<and>
    install_upf_config sys inet_aton n3 w1 = (Inr (), w2) \<and>
    (\<forall>s. tables s = tabs view w2 \<longrightarrow>
      (\<exists>sk' s'. upf_tc_egress H sk s = Some ((TC_ACT_OK, sk'), s') \<and>
        classify (skb_data sk') = GPdu (word_of_int teid) 20 \<and>
        rd32 (skb_data sk') 26 = rd32 a 0 \<and> rd32 (skb_data sk') 30 = rd32 g 0))"
proof -
  obtain w1 where 1: "install_dl_ue sys inet_aton ue teid gnb qfi w = (Inr (), w1)"
    "world_ok pinned fd_path fd_avail upf_defs w1"
    "tabs view w1 = (tabs view w)\<lparr>dl_ue_map := (dl_ue_map (tabs view w))(rd32 key 0 \<mapsto> mk_dl_ue teid g qfi)\<rparr>"
    by (rule bpf_kernel.install_dl_ue_spec [OF assms(1-5,7-9)]) (use assms(10) in simp)
  obtain w2 where 2: "install_upf_config sys inet_aton n3 w1 = (Inr (), w2)"
    "tabs view w2 = (tabs view w1)\<lparr>upf_config_map := (upf_config_map (tabs view w1))(0 \<mapsto> \<lparr>cfg_n3_addr_be = rd32 a 0\<rparr>)\<rparr>"
    by (rule bpf_kernel.install_upf_config_spec [OF assms(1) 1(2) assms(3,6)])
  have "\<exists>sk' s'. upf_tc_egress H sk s = Some ((TC_ACT_OK, sk'), s') \<and>
      classify (skb_data sk') = GPdu (word_of_int teid) 20 \<and>
      rd32 (skb_data sk') 26 = rd32 a 0 \<and> rd32 (skb_data sk') 30 = rd32 g 0" if t: "tables s = tabs view w2" for s
  proof -
    have ue: "dl_ue_map (tables s) (rd32 key 0) = Some (mk_dl_ue teid g qfi)" and n3: "n3_addr (tables s) = rd32 a 0"
      using t 1(3) 2(2) by (simp_all add: n3_addr_def)
    obtain ret sk1 where adj: "skb_adjust_room H 36 sk = (ret, sk1)" by (rule prod.exhaust)
    have eth: "length (take 14 (skb_data sk)) = 14" using egress_key_run(1) [OF assms(12)] by simp
    have ip: "rd16 (take 14 (skb_data sk)) 12 = bpf_htons ETH_P_IP"
      by (rule egress_key_proto [OF assms(12)])
    show ?thesis
      using egress_encapsulates [OF assms(11,12) ue adj] adj assms(13) n3 classify_outer [OF eth ip] rd_outer [OF eth]
      by (simp add: mk_dl_ue_def)
  qed
  with 1(1) 2(1) show ?thesis by blast
qed

theorem downlink_configured_witness:
  "\<exists>w1 w2. install_dl_ue upf_sys demo_aton ''10.0.0.7'' 4096 ''192.168.1.1'' 1 start_world = (Inr (), w1) \<and>
    install_upf_config upf_sys demo_aton ''192.168.1.1'' w1 = (Inr (), w2) \<and>
    (\<exists>sk' s'. upf_tc_egress demo_helpers \<lparr>skb_data = demo_dl, skb_frags = []\<rparr>
        (demo_dl_state\<lparr>tables := tabs upf_view w2\<rparr>) = Some ((TC_ACT_OK, sk'), s') \<and>
      classify (skb_data sk') = GPdu 4096 20)"
proof -
  let ?sk = "\<lparr>skb_data = demo_dl, skb_frags = []\<rparr>"
  have key: "egress_key (skb_data ?sk) = Some (rd32 [10, 0, 0, 7] 0)" by (simp add: demo_dl_key demo_aton_facts)
  have adj: "0 \<le> fst (skb_adjust_room demo_helpers 36 ?sk)" by (simp add: demo_helpers_def demo_adjust_def)
  have rng: "in_u32 4096" "0 \<le> (1 :: int)" "(1 :: int) < 2 ^ 16"
    "hash_room 65536 (dl_ue_map (tabs upf_view start_world)) (rd32 [10, 0, 0, 7] 0)"
    using demo_aton_facts(5) by (simp_all add: in_u32_def demo_aton_facts(4))
  obtain w1 w2 where r: "install_dl_ue upf_sys demo_aton ''10.0.0.7'' 4096 ''192.168.1.1'' 1 start_world = (Inr (), w1)"
    "install_upf_config upf_sys demo_aton ''192.168.1.1'' w1 = (Inr (), w2)"
    "\<forall>s. tables s = tabs upf_view w2 \<longrightarrow> (\<exists>sk' s'. upf_tc_egress demo_helpers ?sk s = Some ((TC_ACT_OK, sk'), s') \<and>
        classify (skb_data sk') = GPdu (word_of_int 4096) 20)"
    using downlink_configured [OF rk.bpf_kernel_axioms start_world_ok demo_aton_facts(1-3) demo_aton_facts(3) rng
        demo_encap_law key adj] by blast
  have "tables (demo_dl_state\<lparr>tables := tabs upf_view w2\<rparr>) = tabs upf_view w2" by simp
  with r(3) have "\<exists>sk' s'. upf_tc_egress demo_helpers ?sk (demo_dl_state\<lparr>tables := tabs upf_view w2\<rparr>) =
      Some ((TC_ACT_OK, sk'), s') \<and> classify (skb_data sk') = GPdu (word_of_int 4096) 20" by blast
  with r(1,2) show ?thesis by simp
qed

end
