(* ===== verification/Agent_Urr.thy ===== *)
theory Agent_Urr
  imports Agent Agent_Metrics Upf_Datapath
begin

text \<open>
  Usage reports: \<^verbatim>\<open>read_urr\<close> of \<^verbatim>\<open>loader/agent.py\<close> on the dump of the per-CPU map \<^verbatim>\<open>urr_counters\<close> that the
  TC program writes; and \<^verbatim>\<open>map_dump\<close>, which has bpftool print it. The subprocess, the path of bpftool and
  \<^verbatim>\<open>json.loads\<close> are parameters.
\<close>

text \<open>The bytes of a \<^verbatim>\<open>struct urr_val\<close>, and the dump of the map with one value per CPU.\<close>

definition urr_bytes :: "urr_val \<Rightarrow> bytes" where
  "urr_bytes v = le_bytes 8 (uint (bytes_ul v)) @ le_bytes 8 (uint (bytes_dl v)) @
     le_bytes 8 (uint (pkts_ul v)) @ le_bytes 8 (uint (pkts_dl v))"

definition urr_dump :: "(u32 \<times> urr_val list) list \<Rightarrow> json" where
  "urr_dump m = percpu_dump (map (\<lambda>(k, vs). (le_bytes 4 (uint k), map urr_bytes vs)) m)"

lemma unpack_urr:
  "struct_unpack Little [FmtQ, FmtQ, FmtQ, FmtQ] (urr_bytes v) =
     Inr [uint (bytes_ul v), uint (bytes_dl v), uint (pkts_ul v), uint (pkts_dl v)]"
proof -
  have "fmt_ok FmtQ (uint (x :: u64))" for x using uint_lt2p [of x] by (simp add: fmt_ok_def)
  then have "struct_pack Little [FmtQ, FmtQ, FmtQ, FmtQ]
      [uint (bytes_ul v), uint (bytes_dl v), uint (pkts_ul v), uint (pkts_dl v)] = Inr (urr_bytes v)"
    by (simp add: urr_bytes_def int_bytes_def del: le_bytes.simps)
  then show ?thesis by (rule struct_unpack_pack)
qed

lemma sum_urr_percpu:
  "sum_urr (map (\<lambda>(cpu, v). JObj [(''cpu'', JInt (int cpu)), (''value'', hex_json v)])
     (enumerate n (map urr_bytes vs))) (b, p) =
   Inr (b + (\<Sum>v \<leftarrow> vs. uint (bytes_ul v)), p + (\<Sum>v \<leftarrow> vs. uint (pkts_ul v)))"
  by (induction vs arbitrary: n b p) (simp_all add: unpack_urr del: le_bytes.simps)

lemma find_urr_dump:
  "find_urr urr_id (map (\<lambda>(k, vs). percpu_entry k vs) (map (\<lambda>(k :: u32, vs). (le_bytes 4 (uint k), map urr_bytes vs)) m)) =
    Inr (if 0 \<le> urr_id \<and> urr_id < 2 ^ 32 then map_option
      (\<lambda>vs. (\<Sum>v \<leftarrow> vs. uint (bytes_ul v), \<Sum>v \<leftarrow> vs. uint (pkts_ul v))) (map_of m (word_of_int urr_id)) else None)"
proof (induction m)
  case (Cons x m)
  obtain k vs where x: "x = (k, vs)" by (rule prod.exhaust)
  have "uint k < 2 ^ 32" using uint_lt2p [of k] by simp
  moreover have "uint k = urr_id \<longleftrightarrow> 0 \<le> urr_id \<and> urr_id < 2 ^ 32 \<and> k = word_of_int urr_id"
    using uint_lt2p [of k] by (auto simp: uint_word_of_int)
  ultimately show ?case
    using Cons x by (auto simp: unpack_u32 sum_urr_percpu simp del: le_bytes.simps)
qed simp

subsection \<open>The usage report\<close>

text \<open>
  Usage reports: on the dump of the URR map, \<^verbatim>\<open>read_urr\<close> raises nothing and returns the uplink
  bytes and packets of the requested URR summed over all CPUs, as unbounded integers, and
  \<^verbatim>\<open>None\<close> exactly when the map has no such entry; an identifier outside 32 bits has none.
\<close>

lemma read_urr_sums:
  "read_urr (urr_dump m) urr_id =
    Inr (if 0 \<le> urr_id \<and> urr_id < 2 ^ 32 then map_option
      (\<lambda>vs. (\<Sum>v \<leftarrow> vs. uint (bytes_ul v), \<Sum>v \<leftarrow> vs. uint (pkts_ul v))) (map_of m (word_of_int urr_id)) else None)"
  unfolding read_urr_def urr_dump_def percpu_dump_def json_iter.simps res_bind_simps by (rule find_urr_dump)

subsection \<open>\<^verbatim>\<open>map_dump\<close>\<close>

record process =
  returncode :: int
  stdout :: string

definition agent_run :: "(string list \<Rightarrow> process res) \<Rightarrow> string list \<Rightarrow> bool \<Rightarrow> process res" where
  "agent_run subprocess_run cmd check =
     res_bind (subprocess_run cmd) (\<lambda>p.
     if check \<and> returncode p \<noteq> 0 then Inl (CalledProcessError (returncode p)) else Inr p)"

definition map_dump :: "(string list \<Rightarrow> process res) \<Rightarrow> (string \<Rightarrow> json res) \<Rightarrow> string \<Rightarrow> string \<Rightarrow> json res" where
  "map_dump subprocess_run loads BPFTOOL name =
     (let cmd = [''sudo'', BPFTOOL, ''-j'', ''map'', ''dump'', ''pinned'', PIN_BASE @ ''/'' @ name] in
      res_bind (agent_run subprocess_run cmd True) (\<lambda>p. loads (stdout p)))"

text \<open>
  A usage report asks bpftool once, for the pinned map: when it succeeds and prints the map, the report is the sum
  over the CPUs or \<^verbatim>\<open>None\<close>; when it fails, the return code is raised and nothing is parsed.
\<close>

lemma urr_report:
  assumes "subprocess_run [''sudo'', BPFTOOL, ''-j'', ''map'', ''dump'', ''pinned'', ''/sys/fs/bpf/upf/urr_counters''] =
      Inr \<lparr>returncode = c, stdout = out\<rparr>"
    and "c = 0 \<Longrightarrow> loads out = Inr (urr_dump m)"
  shows "res_bind (map_dump subprocess_run loads BPFTOOL ''urr_counters'') (\<lambda>raw. read_urr raw urr_id) =
    (if c \<noteq> 0 then Inl (CalledProcessError c)
     else Inr (if 0 \<le> urr_id \<and> urr_id < 2 ^ 32 then map_option
       (\<lambda>vs. (\<Sum>v \<leftarrow> vs. uint (bytes_ul v), \<Sum>v \<leftarrow> vs. uint (pkts_ul v))) (map_of m (word_of_int urr_id)) else None))"
  using assms by (simp add: map_dump_def agent_run_def PIN_BASE_def read_urr_sums)

end
