(* ===== verification/Gtp5g_Genl.thy ===== *)
theory Gtp5g_Genl
  imports Netlink
begin

text \<open>
  The generic-netlink client \<^verbatim>\<open>results_native/gtp5g_baseline/gtp5g_genl.py\<close>: the socket class with its
  sequence number and resolved family, the request/response exchange, the family lookup with its
  attribute loop, and the two rule commands. The kernel (the controller and the gtp5g module) is
  the parameter of the netlink socket. The properties: what the commands put on the wire, what the
  family lookup returns, and which acknowledgement a command reads.
\<close>

subsection \<open>Constants\<close>

definition GENL_ID_CTRL :: int where "GENL_ID_CTRL = 0x10"
definition CTRL_CMD_GETFAMILY :: int where "CTRL_CMD_GETFAMILY = 3"
definition CTRL_ATTR_FAMILY_ID :: int where "CTRL_ATTR_FAMILY_ID = 1"
definition CTRL_ATTR_FAMILY_NAME :: int where "CTRL_ATTR_FAMILY_NAME = 2"
definition NLM_F_REQUEST :: int where "NLM_F_REQUEST = 0x1"
definition NLM_F_ACK :: int where "NLM_F_ACK = 0x4"
definition NLMSG_ERROR :: int where "NLMSG_ERROR = 2"
definition GTP5G_CMD_ADD_PDR :: int where "GTP5G_CMD_ADD_PDR = 1"
definition GTP5G_CMD_ADD_FAR :: int where "GTP5G_CMD_ADD_FAR = 2"
definition GTP5G_LINK :: int where "GTP5G_LINK = 1"
definition GTP5G_PDR_ID :: int where "GTP5G_PDR_ID = 3"
definition GTP5G_PDR_PRECEDENCE :: int where "GTP5G_PDR_PRECEDENCE = 4"
definition GTP5G_PDR_PDI :: int where "GTP5G_PDR_PDI = 5"
definition GTP5G_OUTER_HEADER_REMOVAL :: int where "GTP5G_OUTER_HEADER_REMOVAL = 6"
definition GTP5G_PDR_FAR_ID :: int where "GTP5G_PDR_FAR_ID = 7"
definition GTP5G_PDI_UE_ADDR_IPV4 :: int where "GTP5G_PDI_UE_ADDR_IPV4 = 1"
definition GTP5G_PDI_F_TEID :: int where "GTP5G_PDI_F_TEID = 2"
definition GTP5G_PDI_SRC_INTF :: int where "GTP5G_PDI_SRC_INTF = 4"
definition GTP5G_F_TEID_I_TEID :: int where "GTP5G_F_TEID_I_TEID = 1"
definition GTP5G_F_TEID_GTPU_ADDR_IPV4 :: int where "GTP5G_F_TEID_GTPU_ADDR_IPV4 = 2"
definition GTP5G_FAR_ID :: int where "GTP5G_FAR_ID = 3"
definition GTP5G_FAR_APPLY_ACTION :: int where "GTP5G_FAR_APPLY_ACTION = 4"
definition GTP5G_FAR_FORWARDING_PARAMETER :: int where "GTP5G_FAR_FORWARDING_PARAMETER = 5"
definition GTP5G_FORWARDING_PARAMETER_OUTER_HEADER_CREATION :: int where
  "GTP5G_FORWARDING_PARAMETER_OUTER_HEADER_CREATION = 1"
definition GTP5G_OUTER_HEADER_CREATION_DESCRIPTION :: int where
  "GTP5G_OUTER_HEADER_CREATION_DESCRIPTION = 1"
definition GTP5G_OUTER_HEADER_CREATION_O_TEID :: int where
  "GTP5G_OUTER_HEADER_CREATION_O_TEID = 2"
definition GTP5G_OUTER_HEADER_CREATION_PEER_ADDR_IPV4 :: int where
  "GTP5G_OUTER_HEADER_CREATION_PEER_ADDR_IPV4 = 3"
definition GTP5G_OUTER_HEADER_CREATION_PORT :: int where
  "GTP5G_OUTER_HEADER_CREATION_PORT = 4"
definition FAR_ACTION_DROP :: int where "FAR_ACTION_DROP = 0x01"
definition FAR_ACTION_FORW :: int where "FAR_ACTION_FORW = 0x02"
definition GTP5G_OUTER_HEADER_CREATION_GTPU_UDP_IPV4 :: int where
  "GTP5G_OUTER_HEADER_CREATION_GTPU_UDP_IPV4 = 0x0100"

lemmas genl_consts =
  GENL_ID_CTRL_def CTRL_CMD_GETFAMILY_def CTRL_ATTR_FAMILY_ID_def CTRL_ATTR_FAMILY_NAME_def
  NLM_F_REQUEST_def NLM_F_ACK_def NLMSG_ERROR_def GTP5G_CMD_ADD_PDR_def GTP5G_CMD_ADD_FAR_def
  GTP5G_LINK_def GTP5G_PDR_ID_def GTP5G_PDR_PRECEDENCE_def GTP5G_PDR_PDI_def
  GTP5G_OUTER_HEADER_REMOVAL_def GTP5G_PDR_FAR_ID_def GTP5G_PDI_UE_ADDR_IPV4_def GTP5G_PDI_F_TEID_def
  GTP5G_PDI_SRC_INTF_def GTP5G_F_TEID_I_TEID_def GTP5G_F_TEID_GTPU_ADDR_IPV4_def GTP5G_FAR_ID_def
  GTP5G_FAR_APPLY_ACTION_def GTP5G_FAR_FORWARDING_PARAMETER_def
  GTP5G_FORWARDING_PARAMETER_OUTER_HEADER_CREATION_def GTP5G_OUTER_HEADER_CREATION_DESCRIPTION_def
  GTP5G_OUTER_HEADER_CREATION_O_TEID_def GTP5G_OUTER_HEADER_CREATION_PEER_ADDR_IPV4_def
  GTP5G_OUTER_HEADER_CREATION_PORT_def FAR_ACTION_DROP_def FAR_ACTION_FORW_def
  GTP5G_OUTER_HEADER_CREATION_GTPU_UDP_IPV4_def

subsection \<open>\<^verbatim>\<open>class GenlSocket\<close>\<close>

text \<open>The object's attributes on top of its netlink socket \<^verbatim>\<open>self.nl\<close>.\<close>

record 'k genl_socket = "'k nl_sock" +
  gs_seq :: int
  family_id :: "int option"

definition genl_init :: "'k \<Rightarrow> 'k genl_socket" where
  "genl_init k = \<lparr>rxq = [], peer = k, gs_seq = 0, family_id = None\<rparr>"

text \<open>
  \<^verbatim>\<open>os.strerror\<close> takes a C int, so that the message of the
  exception cannot be built for the one error number whose negation is none.
\<close>

definition errno_exception :: "int \<Rightarrow> py_error" where
  "errno_exception errno_val = (if - errno_val < 2 ^ 31 then OSError (- errno_val) else OverflowError)"

definition send_recv :: "'k nl_kernel \<Rightarrow> int option \<Rightarrow> int \<Rightarrow> bytes \<Rightarrow> ('k genl_socket, int \<times> bytes) io" where
  "send_recv nk msg_type flags payload gs0 =
     (let gs = gs0\<lparr>gs_seq := gs_seq gs0 + 1\<rparr>;
          seq = gs_seq gs;
          total_len = 16 + int (length payload)
      in
      io_bind (io_lift (case msg_type of None \<Rightarrow> Inl StructError
          | Some t \<Rightarrow> struct_pack Little [FmtI, FmtH, FmtH, FmtI, FmtI] [total_len, t, flags, seq, 0])) (\<lambda>hdr.
      io_bind (nl_send nk (hdr @ payload)) (\<lambda>_.
      io_bind (nl_recv 65536) (\<lambda>resp.
      io_bind (io_lift (struct_unpack_from Little [FmtI, FmtH, FmtH, FmtI, FmtI] resp 0)) (\<lambda>r.
      io_return (r ! 1, resp))))) gs)"

definition r_len_from :: "bytes \<Rightarrow> int res" where
  "r_len_from resp = res_bind (struct_unpack_from Little [FmtI] resp 0) (\<lambda>r. Inr (r ! 0))"

text \<open>
  The attribute loop of \<^verbatim>\<open>resolve_family\<close>; its state is the attribute \<^verbatim>\<open>self.family_id\<close>, which keeps
  what was assigned before an exception.
\<close>

function family_scan :: "bytes \<Rightarrow> nat \<Rightarrow> nat \<Rightarrow> int option \<Rightarrow> unit res \<times> int option" where
  "family_scan resp stop off fam =
     (if off < stop then
        (case struct_unpack_from Little [FmtH, FmtH] resp off of
           Inl e \<Rightarrow> (Inl e, fam)
         | Inr h \<Rightarrow>
             let a_len = h ! 0; a_type = h ! 1 in
             if a_len < 4 then (Inr (), fam)
             else
               let pad = (4 - (a_len mod 4)) mod 4; noff = off + nat (a_len + pad) in
               if a_type = CTRL_ATTR_FAMILY_ID then
                 (case struct_unpack_from Little [FmtH] resp (off + 4) of
                    Inl e \<Rightarrow> (Inl e, fam)
                  | Inr v \<Rightarrow> family_scan resp stop noff (Some (v ! 0)))
               else family_scan resp stop noff fam)
      else (Inr (), fam))"
  by pat_completeness auto
termination
proof (relation "measure (\<lambda>(resp, stop, off, fam). stop - off)", goal_cases)
  case (2 resp stop off fam h a_len a_type pad noff v)
  have "0 \<le> pad" by (simp add: 2)
  then have "off < noff" using 2 by linarith
  with 2(1) show ?case by simp
next
  case (3 resp stop off fam h a_len a_type pad noff)
  have "0 \<le> pad" by (simp add: 3)
  then have "off < noff" using 3 by linarith
  with 3(1) show ?case by simp
qed simp

declare family_scan.simps [simp del]

definition not_found :: "string \<Rightarrow> string" where
  "not_found name = ''family '' @ [CHR 0x27] @ name @ [CHR 0x27] @ '' not found (is gtp5g.ko loaded?)''"

definition resolve_family :: "'k nl_kernel \<Rightarrow> string \<Rightarrow> ('k genl_socket, int) io" where
  "resolve_family nk name =
     io_bind (io_lift (struct_pack Little [FmtB, FmtB, FmtH] [CTRL_CMD_GETFAMILY, 1, 0])) (\<lambda>genlhdr.
     io_bind (io_lift (cat genlhdr (nla CTRL_ATTR_FAMILY_NAME (encode name @ [0])))) (\<lambda>payload.
     io_bind (send_recv nk (Some GENL_ID_CTRL) (or NLM_F_REQUEST NLM_F_ACK) payload) (\<lambda>(r_type, resp).
     if r_type = NLMSG_ERROR then
       io_bind (io_lift (struct_unpack_from Little [Fmt_i] resp 16)) (\<lambda>v. io_raise (errno_exception (v ! 0)))
     else
     io_bind (io_lift (r_len_from resp)) (\<lambda>stop.
     io_bind (\<lambda>gs. case family_scan resp (nat stop) 20 (family_id gs) of
         (r, fam) \<Rightarrow> Some (r, gs\<lparr>family_id := fam\<rparr>)) (\<lambda>_ gs.
     case family_id gs of
       None \<Rightarrow> io_raise (RuntimeError (not_found name)) gs
     | Some fam_id \<Rightarrow> io_return fam_id gs)))))"

definition cmd :: "'k nl_kernel \<Rightarrow> int \<Rightarrow> bytes \<Rightarrow> bool \<Rightarrow> ('k genl_socket, bytes) io" where
  "cmd nk command payload ack =
     io_bind (io_lift (struct_pack Little [FmtB, FmtB, FmtH] [command, 1, 0])) (\<lambda>genlhdr gs.
     let flags = or NLM_F_REQUEST (if ack then NLM_F_ACK else 0) in
     io_bind (send_recv nk (family_id gs) flags (genlhdr @ payload)) (\<lambda>(r_type, resp).
     if r_type = NLMSG_ERROR then
       io_bind (io_lift (struct_unpack_from Little [Fmt_i] resp 16)) (\<lambda>v.
       if v ! 0 \<noteq> 0 then io_raise (errno_exception (v ! 0)) else io_return resp)
     else io_return resp) gs)"

subsection \<open>\<^verbatim>\<open>add_far\<close> and \<^verbatim>\<open>add_pdr\<close>\<close>

text \<open>The attribute string each command builds; \<^verbatim>\<open>None\<close> arguments leave their attribute out.\<close>

definition far_attrs :: "int \<Rightarrow> int \<Rightarrow> int \<Rightarrow> int option \<Rightarrow> int option \<Rightarrow> int \<Rightarrow> bytes res" where
  "far_attrs ifindex far_id action o_teid peer_ipv4 port =
     res_bind (nla_u32 GTP5G_LINK ifindex) (\<lambda>attrs.
     res_bind (cat attrs (nla_u32 GTP5G_FAR_ID far_id)) (\<lambda>attrs.
     res_bind (cat attrs (nla_u16 GTP5G_FAR_APPLY_ACTION action)) (\<lambda>attrs.
     case (o_teid, peer_ipv4) of
       (Some o_teid, Some peer_ipv4) \<Rightarrow>
         if action = FAR_ACTION_FORW then
           res_bind (nla_u16 GTP5G_OUTER_HEADER_CREATION_DESCRIPTION GTP5G_OUTER_HEADER_CREATION_GTPU_UDP_IPV4) (\<lambda>ohc.
           res_bind (cat ohc (nla_u32 GTP5G_OUTER_HEADER_CREATION_O_TEID o_teid)) (\<lambda>ohc.
           res_bind (cat ohc (nla_be32 GTP5G_OUTER_HEADER_CREATION_PEER_ADDR_IPV4 peer_ipv4)) (\<lambda>ohc.
           res_bind (cat ohc (nla_u16 GTP5G_OUTER_HEADER_CREATION_PORT port)) (\<lambda>ohc.
           res_bind (nla_nested GTP5G_FORWARDING_PARAMETER_OUTER_HEADER_CREATION [ohc]) (\<lambda>fwd_param.
           cat attrs (nla_nested GTP5G_FAR_FORWARDING_PARAMETER [fwd_param]))))))
         else Inr attrs
     | _ \<Rightarrow> Inr attrs)))"

definition add_far :: "'k nl_kernel \<Rightarrow> int \<Rightarrow> int \<Rightarrow> int \<Rightarrow> int option \<Rightarrow> int option \<Rightarrow> int \<Rightarrow> ('k genl_socket, unit) io" where
  "add_far nk ifindex far_id action o_teid peer_ipv4 port =
     io_bind (io_lift (far_attrs ifindex far_id action o_teid peer_ipv4 port)) (\<lambda>attrs.
     io_bind (cmd nk GTP5G_CMD_ADD_FAR attrs True) (\<lambda>_. io_return ()))"

text \<open>\<^verbatim>\<open>if x is not None: a += f(x)\<close>\<close>

definition cat_opt :: "bytes \<Rightarrow> ('a \<Rightarrow> bytes res) \<Rightarrow> 'a option \<Rightarrow> bytes res" where
  "cat_opt a f x = (case x of None \<Rightarrow> Inr a | Some v \<Rightarrow> cat a (f v))"

definition pdr_pdi :: "int option \<Rightarrow> int option \<Rightarrow> int option \<Rightarrow> int option \<Rightarrow> bytes res" where
  "pdr_pdi ue_addr_ipv4 i_teid gtpu_addr_ipv4 src_intf =
     res_bind (cat_opt [] (nla_be32 GTP5G_PDI_UE_ADDR_IPV4) ue_addr_ipv4) (\<lambda>pdi.
     res_bind
       (if i_teid \<noteq> None \<or> gtpu_addr_ipv4 \<noteq> None then
          res_bind (cat_opt [] (nla_u32 GTP5G_F_TEID_I_TEID) i_teid) (\<lambda>f_teid.
          res_bind (cat_opt f_teid (nla_be32 GTP5G_F_TEID_GTPU_ADDR_IPV4) gtpu_addr_ipv4) (\<lambda>f_teid.
          cat pdi (nla_nested GTP5G_PDI_F_TEID [f_teid])))
        else Inr pdi) (\<lambda>pdi.
     cat_opt pdi (nla_u8 GTP5G_PDI_SRC_INTF) src_intf))"

definition pdr_attrs :: "int \<Rightarrow> int \<Rightarrow> int \<Rightarrow> int \<Rightarrow> int option \<Rightarrow> int option \<Rightarrow> int option \<Rightarrow> int option \<Rightarrow>
    int option \<Rightarrow> bytes res" where
  "pdr_attrs ifindex pdr_id precedence far_id ue_addr_ipv4 i_teid gtpu_addr_ipv4 src_intf outer_header_removal =
     res_bind (nla_u32 GTP5G_LINK ifindex) (\<lambda>attrs.
     res_bind (cat attrs (nla_u16 GTP5G_PDR_ID pdr_id)) (\<lambda>attrs.
     res_bind (cat attrs (nla_u32 GTP5G_PDR_PRECEDENCE precedence)) (\<lambda>attrs.
     res_bind (cat_opt attrs (nla_u8 GTP5G_OUTER_HEADER_REMOVAL) outer_header_removal) (\<lambda>attrs.
     res_bind (pdr_pdi ue_addr_ipv4 i_teid gtpu_addr_ipv4 src_intf) (\<lambda>pdi.
     res_bind (if pdi \<noteq> [] then cat attrs (nla_nested GTP5G_PDR_PDI [pdi]) else Inr attrs) (\<lambda>attrs.
     cat attrs (nla_u32 GTP5G_PDR_FAR_ID far_id)))))))"

definition add_pdr :: "'k nl_kernel \<Rightarrow> int \<Rightarrow> int \<Rightarrow> int \<Rightarrow> int \<Rightarrow> int option \<Rightarrow> int option \<Rightarrow> int option \<Rightarrow>
    int option \<Rightarrow> int option \<Rightarrow> ('k genl_socket, unit) io" where
  "add_pdr nk ifindex pdr_id precedence far_id ue_addr_ipv4 i_teid gtpu_addr_ipv4 src_intf outer_header_removal =
     io_bind (io_lift (pdr_attrs ifindex pdr_id precedence far_id ue_addr_ipv4 i_teid gtpu_addr_ipv4 src_intf
       outer_header_removal)) (\<lambda>attrs.
     io_bind (cmd nk GTP5G_CMD_ADD_PDR attrs True) (\<lambda>_. io_return ()))"

text \<open>
  The script: \<^verbatim>\<open>ifindex\<close> is what \<^verbatim>\<open>socket.if_nametoindex\<close> gave; the result is the state of the socket
  before \<^verbatim>\<open>close()\<close>. The peer address of \<^verbatim>\<open>far_forw\<close> is 10.0.0.2.
\<close>

definition genl_main :: "'k nl_kernel \<Rightarrow> int \<Rightarrow> string \<Rightarrow> ('k genl_socket, unit) io" where
  "genl_main nk ifindex step =
     io_bind (resolve_family nk ''gtp5g'') (\<lambda>_.
     if step = ''far_drop'' then add_far nk ifindex 1 FAR_ACTION_DROP None None 2152
     else if step = ''far_forw'' then
       add_far nk ifindex 2 FAR_ACTION_FORW (Some 0x1000) (Some (bytes_int Big [10, 0, 0, 2])) 2152
     else if step = ''pdr'' then add_pdr nk ifindex 1 100 1 None None None None (Some 0)
     else io_return ())"

subsection \<open>What the messages mean\<close>

text \<open>
  A generic-netlink message with its two headers; the decoders read a rule back from the attribute
  string by attribute number, as the tables at the head of the script define them.
\<close>

definition genl_msg :: "int \<Rightarrow> int \<Rightarrow> int \<Rightarrow> int \<Rightarrow> bytes \<Rightarrow> bytes" where
  "genl_msg t flags seq command attrs =
     le_bytes 4 (20 + int (length attrs)) @ le_bytes 2 t @ le_bytes 2 flags @ le_bytes 4 seq @ le_bytes 4 0 @
     [word_of_int command, 1, 0, 0] @ attrs"

definition read_le :: "(int \<times> bytes) list \<Rightarrow> int \<Rightarrow> int option" where
  "read_le as t = map_option le_int (map_of as t)"

definition read_be :: "(int \<times> bytes) list \<Rightarrow> int \<Rightarrow> int option" where
  "read_be as t = map_option (bytes_int Big) (map_of as t)"

definition nested :: "(int \<times> bytes) list \<Rightarrow> int \<Rightarrow> (int \<times> bytes) list" where
  "nested as t = (case Option.bind (map_of as t) parse_attrs of Some bs \<Rightarrow> bs | None \<Rightarrow> [])"

record far_rule =
  fr_link :: "int option"
  fr_id :: "int option"
  fr_action :: "int option"
  fr_description :: "int option"
  fr_o_teid :: "int option"
  fr_peer :: "int option"
  fr_port :: "int option"

definition decode_far :: "bytes \<Rightarrow> far_rule option" where
  "decode_far bs = map_option (\<lambda>as.
     let ohc = nested (nested as 5) 1 in
     \<lparr>fr_link = read_le as 1, fr_id = read_le as 3, fr_action = read_le as 4,
      fr_description = read_le ohc 1, fr_o_teid = read_le ohc 2, fr_peer = read_be ohc 3,
      fr_port = read_le ohc 4\<rparr>) (parse_attrs bs)"

record pdr_rule =
  pr_link :: "int option"
  pr_id :: "int option"
  pr_precedence :: "int option"
  pr_removal :: "int option"
  pr_far :: "int option"
  pr_ue_addr :: "int option"
  pr_teid :: "int option"
  pr_gtpu_addr :: "int option"
  pr_src_intf :: "int option"

definition decode_pdr :: "bytes \<Rightarrow> pdr_rule option" where
  "decode_pdr bs = map_option (\<lambda>as.
     let pdi = nested as 5; f_teid = nested pdi 2 in
     \<lparr>pr_link = read_le as 1, pr_id = read_le as 3, pr_precedence = read_le as 4,
      pr_removal = read_le as 6, pr_far = read_le as 7, pr_ue_addr = read_be pdi 1,
      pr_teid = read_le f_teid 1, pr_gtpu_addr = read_be f_teid 2, pr_src_intf = read_le pdi 4\<rparr>)
     (parse_attrs bs)"

definition fits :: "nat \<Rightarrow> int \<Rightarrow> bool" where
  "fits n v \<longleftrightarrow> 0 \<le> v \<and> v < 256 ^ n"

definition tunnel :: "int \<Rightarrow> int option \<Rightarrow> int option \<Rightarrow> (int \<times> int) option" where
  "tunnel action o_teid peer_ipv4 =
     (case (o_teid, peer_ipv4) of (Some t, Some p) \<Rightarrow> if action = FAR_ACTION_FORW then Some (t, p) else None
      | _ \<Rightarrow> None)"

definition far_fits :: "int \<Rightarrow> int \<Rightarrow> int \<Rightarrow> int option \<Rightarrow> int option \<Rightarrow> int \<Rightarrow> bool" where
  "far_fits ifindex far_id action o_teid peer_ipv4 port \<longleftrightarrow>
     fits 4 ifindex \<and> fits 4 far_id \<and> fits 2 action \<and>
     (case tunnel action o_teid peer_ipv4 of None \<Rightarrow> True | Some (t, p) \<Rightarrow> fits 4 t \<and> fits 4 p \<and> fits 2 port)"

definition pdr_fits :: "int \<Rightarrow> int \<Rightarrow> int \<Rightarrow> int \<Rightarrow> int option \<Rightarrow> int option \<Rightarrow> int option \<Rightarrow> int option \<Rightarrow>
    int option \<Rightarrow> bool" where
  "pdr_fits ifindex pdr_id precedence far_id ue_addr i_teid gtpu_addr src_intf removal \<longleftrightarrow>
     fits 4 ifindex \<and> fits 2 pdr_id \<and> fits 4 precedence \<and> fits 4 far_id \<and> pred_option (fits 4) ue_addr \<and>
     pred_option (fits 4) i_teid \<and> pred_option (fits 4) gtpu_addr \<and> pred_option (fits 1) src_intf \<and>
     pred_option (fits 1) removal"

text \<open>One exchange: send, take the first datagram of the queue, and report what it says.\<close>

definition verdict_of :: "bytes \<Rightarrow> bytes res" where
  "verdict_of resp =
     (if length resp < 16 then Inl StructError
      else if struct_fields Little [FmtI, FmtH, FmtH, FmtI, FmtI] resp ! 1 = 2 then
        if length resp < 20 then Inl StructError
        else let e = struct_fields Little [Fmt_i] (drop 16 resp) ! 0 in
          if e \<noteq> 0 then Inl (errno_exception e) else Inr resp
      else Inr resp)"

definition exchange :: "'k nl_kernel \<Rightarrow> bytes \<Rightarrow> ('k genl_socket, bytes) io" where
  "exchange nk M = io_bind (nl_send nk M) (\<lambda>_. io_bind (nl_recv 65536) (\<lambda>resp. io_lift (verdict_of resp)))"

text \<open>The reply of the controller: 20 bytes of headers, then attributes.\<close>

definition family_reply :: "(int \<times> bytes) list \<Rightarrow> bytes \<Rightarrow> bool" where
  "family_reply as d \<longleftrightarrow>
     20 \<le> length d \<and> length d \<le> 65536 \<and> drop 20 d = concat (map attr_bytes as) \<and> list_all attr_ok as \<and>
     list_all (\<lambda>(t, p). t = 1 \<longrightarrow> 2 \<le> length p) as \<and>
     struct_fields Little [FmtI, FmtH, FmtH, FmtI, FmtI] d ! 0 = int (length d) \<and>
     struct_fields Little [FmtI, FmtH, FmtH, FmtI, FmtI] d ! 1 \<noteq> 2"

text \<open>
  A reply that goes wrong after some attributes: the rest is too short for an attribute header, or its length
  field is less than that header.
\<close>

definition broken_reply :: "(int \<times> bytes) list \<Rightarrow> bytes \<Rightarrow> bytes \<Rightarrow> bool" where
  "broken_reply as junk d \<longleftrightarrow>
     20 \<le> length d \<and> length d \<le> 65536 \<and> drop 20 d = concat (map attr_bytes as) @ junk \<and> list_all attr_ok as \<and>
     list_all (\<lambda>(t, p). t = 1 \<longrightarrow> 2 \<le> length p) as \<and>
     struct_fields Little [FmtI, FmtH, FmtH, FmtI, FmtI] d ! 0 = int (length d) \<and>
     struct_fields Little [FmtI, FmtH, FmtH, FmtI, FmtI] d ! 1 \<noteq> 2 \<and>
     junk \<noteq> [] \<and> (length junk < 4 \<or> le_int (take 2 junk) < 4)"

definition last_family :: "(int \<times> bytes) list \<Rightarrow> int option \<Rightarrow> int option" where
  "last_family as fam = fold (\<lambda>(t, p) fam. if t = 1 then Some (le_int (take 2 p)) else fam) as fam"

definition getfamily_msg :: "int \<Rightarrow> string \<Rightarrow> bytes" where
  "getfamily_msg seq name = genl_msg 16 5 seq 3 (attr_bytes (2, encode name @ [0]))"

text \<open>What \<^verbatim>\<open>resolve_family\<close> does with the datagram it received.\<close>

definition resolve_rest :: "string \<Rightarrow> int \<times> bytes \<Rightarrow> ('k genl_socket, int) io" where
  "resolve_rest name = (\<lambda>(r_type, resp).
     if r_type = NLMSG_ERROR then
       io_bind (io_lift (struct_unpack_from Little [Fmt_i] resp 16)) (\<lambda>v. io_raise (errno_exception (v ! 0)))
     else
     io_bind (io_lift (r_len_from resp)) (\<lambda>stop.
     io_bind (\<lambda>gs. case family_scan resp (nat stop) 20 (family_id gs) of
         (r, fam) \<Rightarrow> Some (r, gs\<lparr>family_id := fam\<rparr>)) (\<lambda>_ gs.
     case family_id gs of
       None \<Rightarrow> io_raise (RuntimeError (not_found name)) gs
     | Some fam_id \<Rightarrow> io_return fam_id gs)))"

text \<open>The rule a FAR command stands for, with or without a tunnel.\<close>

definition far_rule_of :: "int \<Rightarrow> int \<Rightarrow> int \<Rightarrow> (int \<times> int) option \<Rightarrow> int \<Rightarrow> far_rule" where
  "far_rule_of ifindex far_id action tun port =
     (case tun of
        None \<Rightarrow> \<lparr>fr_link = Some ifindex, fr_id = Some far_id, fr_action = Some action, fr_description = None,
          fr_o_teid = None, fr_peer = None, fr_port = None\<rparr>
      | Some (t, p) \<Rightarrow> \<lparr>fr_link = Some ifindex, fr_id = Some far_id, fr_action = Some action,
          fr_description = Some 0x100, fr_o_teid = Some t, fr_peer = Some p, fr_port = Some port\<rparr>)"

text \<open>
  An instance of the kernel: the controller answers the family request with the reply and its
  acknowledgement, and the module rejects every command with EINVAL.
\<close>

definition demo_ack :: "int \<Rightarrow> bytes" where
  "demo_ack e = le_bytes 4 36 @ le_bytes 2 2 @ le_bytes 2 0 @ le_bytes 4 1 @ le_bytes 4 0 @ le_bytes 4 e @ replicate 16 0"

definition demo_attrs :: "(int \<times> bytes) list" where
  "demo_attrs = [(2, encode ''gtp5g'' @ [0]), (1, le_bytes 2 27)]"

definition demo_reply :: bytes where
  "demo_reply = le_bytes 4 40 @ le_bytes 2 16 @ le_bytes 2 0 @ le_bytes 4 1 @ le_bytes 4 0 @ [1, 2, 0, 0] @
     concat (map attr_bytes demo_attrs)"

definition demo_nl :: "unit nl_kernel" where
  "demo_nl M k = (if le_int (slice 4 6 M) = 16 then Inr [demo_reply, demo_ack 0] else Inr [demo_ack (- 22)], k)"

definition demo_nl_reject :: "unit nl_kernel" where
  "demo_nl_reject M k = (Inr [demo_ack (- 22)], k)"

definition demo_gs :: "bytes list \<Rightarrow> unit genl_socket" where
  "demo_gs q = \<lparr>rxq = q, peer = (), gs_seq = 1, family_id = Some 27\<rparr>"

text \<open>The attribute lists of the two commands.\<close>

definition ohc_list :: "int \<Rightarrow> int \<Rightarrow> int \<Rightarrow> (int \<times> bytes) list" where
  "ohc_list t p port = [(1, le_bytes 2 0x100), (2, le_bytes 4 t), (3, rev (le_bytes 4 p)), (4, le_bytes 2 port)]"

definition far_list :: "int \<Rightarrow> int \<Rightarrow> int \<Rightarrow> (int \<times> int) option \<Rightarrow> int \<Rightarrow> (int \<times> bytes) list" where
  "far_list ifindex far_id action tun port =
     [(1, le_bytes 4 ifindex), (3, le_bytes 4 far_id), (4, le_bytes 2 action)] @
     (case tun of None \<Rightarrow> [] | Some (t, p) \<Rightarrow>
        [(5, concat (map attr_bytes [(1, concat (map attr_bytes (ohc_list t p port)))]))])"

definition opt_attr :: "int \<Rightarrow> (int \<Rightarrow> bytes) \<Rightarrow> int option \<Rightarrow> (int \<times> bytes) list" where
  "opt_attr t f x = (case x of None \<Rightarrow> [] | Some v \<Rightarrow> [(t, f v)])"

definition teid_list :: "int option \<Rightarrow> int option \<Rightarrow> (int \<times> bytes) list" where
  "teid_list i_teid gtpu_addr = opt_attr 1 (le_bytes 4) i_teid @ opt_attr 2 (\<lambda>v. rev (le_bytes 4 v)) gtpu_addr"

definition nest_attr :: "int \<Rightarrow> (int \<times> bytes) list \<Rightarrow> (int \<times> bytes) list" where
  "nest_attr t as = (if as = [] then [] else [(t, concat (map attr_bytes as))])"

definition pdi_list :: "int option \<Rightarrow> int option \<Rightarrow> int option \<Rightarrow> int option \<Rightarrow> (int \<times> bytes) list" where
  "pdi_list ue_addr i_teid gtpu_addr src_intf =
     opt_attr 1 (\<lambda>v. rev (le_bytes 4 v)) ue_addr @ nest_attr 2 (teid_list i_teid gtpu_addr) @
     opt_attr 4 (le_bytes 1) src_intf"

definition pdr_list :: "int \<Rightarrow> int \<Rightarrow> int \<Rightarrow> int \<Rightarrow> (int \<times> bytes) list \<Rightarrow> int option \<Rightarrow> (int \<times> bytes) list" where
  "pdr_list ifindex pdr_id precedence far_id pdi removal =
     [(1, le_bytes 4 ifindex), (3, le_bytes 2 pdr_id), (4, le_bytes 4 precedence)] @
     opt_attr 6 (le_bytes 1) removal @ nest_attr 5 pdi @ [(7, le_bytes 4 far_id)]"

subsection \<open>Commands on the wire\<close>

lemma fits_fmt [simp]:
  "fmt_ok FmtB v = fits 1 v" "fmt_ok FmtH v = fits 2 v" "fmt_ok FmtI v = fits 4 v"
  by (simp_all add: fmt_ok_def fits_def)

lemma nla_ints:
  assumes "0 \<le> t" "t < 65536"
  shows "nla_u8 t v = (if fits 1 v then Inr (attr_bytes (t, le_bytes 1 v)) else Inl StructError)"
    "nla_u16 t v = (if fits 2 v then Inr (attr_bytes (t, le_bytes 2 v)) else Inl StructError)"
    "nla_u32 t v = (if fits 4 v then Inr (attr_bytes (t, le_bytes 4 v)) else Inl StructError)"
    "nla_be32 t v = (if fits 4 v then Inr (attr_bytes (t, rev (le_bytes 4 v))) else Inl StructError)"
  using assms
  by (simp_all add: nla_u8_def nla_u16_def nla_u32_def nla_be32_def nla_eq attr_ok_def int_bytes_def
      del: le_bytes.simps)

lemma le_int_fits: "fits n v \<Longrightarrow> le_int (le_bytes n v) = v"
  by (simp add: fits_def le_int_le_bytes)

lemma cat_simps [simp]: "cat a (Inr b) = Inr (a @ b)" "cat a (Inl e) = Inl e"
  by (simp_all add: cat_def)

lemma cat_opt_simps [simp]: "cat_opt a f None = Inr a" "cat_opt a f (Some v) = cat a (f v)"
  by (simp_all add: cat_opt_def)

lemma nested_attrs:
  "list_all attr_ok bs \<Longrightarrow> map_of as t = Some (concat (map attr_bytes bs)) \<Longrightarrow> nested as t = bs"
  by (simp add: nested_def parse_attrs_concat)

lemma attr_ok_small: "0 \<le> t \<Longrightarrow> t < 65536 \<Longrightarrow> length p < 1000 \<Longrightarrow> attr_ok (t, p)"
  by (simp add: attr_ok_def)

lemma length_attr: "length (attr_bytes (t, p)) = align4 (length p) + 4"
  by (simp add: length_attr_bytes)

lemma attr_bytes_nonempty [simp]: "attr_bytes a \<noteq> []"
  by (cases "attr_bytes a") (use length_attr_bytes [of a] in simp_all)

lemma align4_num [simp]: "align4 (Suc 0) = 4" "align4 2 = 4" "align4 4 = 4" "align4 8 = 8" "align4 12 = 12" "align4 16 = 16"
  "align4 20 = 20" "align4 24 = 24" "align4 28 = 28" "align4 32 = 32" "align4 36 = 36"
  by (simp_all add: align4_def)

lemma far_list_ok: "list_all attr_ok (far_list ifindex far_id action tun port)"
  "list_all attr_ok [(1, concat (map attr_bytes (ohc_list t p port)))]" "list_all attr_ok (ohc_list t p port)"
  by (auto simp: far_list_def ohc_list_def length_attr attr_ok_small simp del: le_bytes.simps split: option.splits)

lemma far_attrs_eq:
  "far_attrs ifindex far_id action o_teid peer_ipv4 port =
     (if far_fits ifindex far_id action o_teid peer_ipv4 port
      then Inr (concat (map attr_bytes (far_list ifindex far_id action (tunnel action o_teid peer_ipv4) port)))
      else Inl StructError)"
proof -
  have d: "fits 2 256" by (simp add: fits_def)
  show ?thesis
    using far_list_ok(2) [where port = port]
    by (auto simp: far_attrs_def far_fits_def far_list_def tunnel_def nla_ints nla_nested_def nla_eq d ohc_list_def
        length_attr attr_ok_small genl_consts simp del: le_bytes.simps split: option.splits)
qed

lemma decode_far_list:
  assumes "far_fits ifindex far_id action o_teid peer_ipv4 port"
  shows "decode_far (concat (map attr_bytes (far_list ifindex far_id action (tunnel action o_teid peer_ipv4) port))) =
    Some (far_rule_of ifindex far_id action (tunnel action o_teid peer_ipv4) port)"
proof (cases "tunnel action o_teid peer_ipv4")
  case None
  have "nested (far_list ifindex far_id action None port) 5 = []" "nested [] 1 = []"
    by (simp_all add: nested_def far_list_def)
  with None assms show ?thesis
    by (simp add: decode_far_def parse_attrs_concat far_list_ok far_fits_def)
      (simp add: far_list_def far_rule_of_def read_le_def read_be_def le_int_fits del: le_bytes.simps)
next
  case (Some tp)
  obtain t p where tp: "tp = (t, p)" by (rule prod.exhaust)
  have n: "nested (far_list ifindex far_id action (Some (t, p)) port) 5 =
      [(1, concat (map attr_bytes (ohc_list t p port)))]"
    by (rule nested_attrs [OF far_list_ok(2)]) (simp add: far_list_def)
  have n1: "nested [(1, concat (map attr_bytes (ohc_list t p port)))] 1 = ohc_list t p port"
    by (rule nested_attrs [OF far_list_ok(3)]) simp
  have d: "fits 2 256" by (simp add: fits_def)
  from Some tp assms n n1 show ?thesis
    by (simp add: decode_far_def parse_attrs_concat far_list_ok far_fits_def)
      (simp add: far_list_def far_rule_of_def ohc_list_def read_le_def read_be_def le_int_fits bytes_int_def d del: le_bytes.simps)
qed

lemma opt_attr_simps [simp]:
  "opt_attr t f None = []" "opt_attr t f (Some v) = [(t, f v)]"
  by (simp_all add: opt_attr_def)

lemma opt_attr_ok: "0 \<le> t \<Longrightarrow> t < 65536 \<Longrightarrow> (\<And>v. length (f v) < 1000) \<Longrightarrow> list_all attr_ok (opt_attr t f x)"
  by (cases x) (simp_all add: attr_ok_small)

lemma pdr_list_ok:
  "list_all attr_ok (teid_list i_teid gtpu)" "list_all attr_ok (pdi_list ue i_teid gtpu si)"
  "list_all attr_ok (pdr_list ifindex pdr_id prec far_id (pdi_list ue i_teid gtpu si) removal)"
proof -
  show t: "list_all attr_ok (teid_list i_teid gtpu)" for i_teid gtpu
    by (simp add: teid_list_def opt_attr_ok del: le_bytes.simps)
  show p: "list_all attr_ok (pdi_list ue i_teid gtpu si)" for ue i_teid gtpu si
    by (cases i_teid; cases gtpu)
      (simp_all add: pdi_list_def nest_attr_def teid_list_def opt_attr_ok attr_ok_small length_attr del: le_bytes.simps)
  have "length (concat (map attr_bytes (pdi_list ue i_teid gtpu si))) < 1000"
    by (cases ue; cases i_teid; cases gtpu; cases si)
      (simp_all add: pdi_list_def nest_attr_def teid_list_def length_attr del: le_bytes.simps)
  then show "list_all attr_ok (pdr_list ifindex pdr_id prec far_id (pdi_list ue i_teid gtpu si) removal)"
    by (simp add: pdr_list_def nest_attr_def opt_attr_ok attr_ok_small del: le_bytes.simps)
qed

lemma nla_nested_ok:
  "attr_ok (t, concat ps) \<Longrightarrow> nla_nested t ps = Inr (attr_bytes (t, concat ps))"
  by (simp add: nla_nested_def nla_eq)

lemma pdr_pdi_eq:
  "pdr_pdi ue i_teid gtpu si =
     (if pred_option (fits 4) ue \<and> pred_option (fits 4) i_teid \<and> pred_option (fits 4) gtpu \<and> pred_option (fits 1) si
      then Inr (concat (map attr_bytes (pdi_list ue i_teid gtpu si))) else Inl StructError)"
  by (cases ue; cases i_teid; cases gtpu; cases si)
    (simp_all add: pdr_pdi_def pdi_list_def nest_attr_def teid_list_def nla_ints nla_nested_ok attr_ok_small
      length_attr genl_consts del: le_bytes.simps)

lemma pdr_attrs_eq:
  "pdr_attrs ifindex pdr_id precedence far_id ue i_teid gtpu si removal =
     (if pdr_fits ifindex pdr_id precedence far_id ue i_teid gtpu si removal
      then Inr (concat (map attr_bytes (pdr_list ifindex pdr_id precedence far_id (pdi_list ue i_teid gtpu si) removal)))
      else Inl StructError)"
proof -
  let ?pdi = "pdi_list ue i_teid gtpu si"
  have ne: "concat (map attr_bytes ?pdi) = [] \<longleftrightarrow> ?pdi = []" by (cases ?pdi) simp_all
  have ok: "?pdi \<noteq> [] \<Longrightarrow> attr_ok (5, concat (map attr_bytes ?pdi))"
    using pdr_list_ok(3) [of ifindex pdr_id precedence far_id ue i_teid gtpu si removal]
    by (simp add: pdr_list_def nest_attr_def)
  show ?thesis
  proof (cases "pred_option (fits 4) ue \<and> pred_option (fits 4) i_teid \<and> pred_option (fits 4) gtpu \<and> pred_option (fits 1) si")
    case True
    then show ?thesis
      using ok by (cases removal; cases "?pdi = []")
        (simp_all add: pdr_attrs_def pdr_pdi_eq pdr_fits_def pdr_list_def nest_attr_def nla_ints nla_nested_ok
          genl_consts ne del: le_bytes.simps concat_eq_Nil_conv)
  next
    case False
    then show ?thesis
      by (cases removal) (auto simp: pdr_attrs_def pdr_pdi_eq pdr_fits_def nla_ints genl_consts simp del: le_bytes.simps)
  qed
qed

lemma nested_nest_attr:
  assumes "list_all attr_ok bs" and "map_of as t = map_of (nest_attr t bs) t"
  shows "nested as t = bs"
  using assms by (cases "bs = []") (simp_all add: nested_def nest_attr_def parse_attrs_concat)

lemma decode_pdr_list:
  assumes "pdr_fits ifindex pdr_id precedence far_id ue i_teid gtpu si removal"
  shows "decode_pdr (concat (map attr_bytes
      (pdr_list ifindex pdr_id precedence far_id (pdi_list ue i_teid gtpu si) removal))) =
    Some \<lparr>pr_link = Some ifindex, pr_id = Some pdr_id, pr_precedence = Some precedence, pr_removal = removal,
      pr_far = Some far_id, pr_ue_addr = ue, pr_teid = i_teid, pr_gtpu_addr = gtpu, pr_src_intf = si\<rparr>"
proof -
  let ?pdi = "pdi_list ue i_teid gtpu si" and ?ft = "teid_list i_teid gtpu"
  let ?as = "pdr_list ifindex pdr_id precedence far_id ?pdi removal"
  have n: "nested ?as 5 = ?pdi"
    by (rule nested_nest_attr [OF pdr_list_ok(2)])
      (cases removal; simp add: pdr_list_def nest_attr_def)
  have n1: "nested ?pdi 2 = ?ft"
    by (rule nested_nest_attr [OF pdr_list_ok(1)])
      (cases ue; cases si; simp add: pdi_list_def nest_attr_def)
  have top: "read_le ?as 1 = Some ifindex" "read_le ?as 3 = Some pdr_id" "read_le ?as 4 = Some precedence"
    "read_le ?as 6 = removal" "read_le ?as 7 = Some far_id"
    using assms
    by (cases removal; simp add: read_le_def pdr_list_def nest_attr_def pdr_fits_def le_int_fits del: le_bytes.simps)+
  have pdi: "read_be ?pdi 1 = ue" "read_le ?pdi 4 = si"
    using assms
    by (cases ue; cases si; simp add: read_le_def read_be_def bytes_int_def pdi_list_def nest_attr_def pdr_fits_def
        le_int_fits del: le_bytes.simps)+
  have ft: "read_le ?ft 1 = i_teid" "read_be ?ft 2 = gtpu"
    using assms
    by (cases i_teid; cases gtpu; simp add: read_le_def read_be_def bytes_int_def teid_list_def pdr_fits_def
        le_int_fits del: le_bytes.simps)+
  show ?thesis
    by (simp add: decode_pdr_def parse_attrs_concat pdr_list_ok n n1 top pdi ft)
qed

subsection \<open>The exchange\<close>

lemma genl_msg_fields:
  assumes "fits 4 (20 + int (length attrs))" "fits 2 t" "fits 2 flags" "fits 4 seq" "fits 1 command"
  shows "nlmsg_fields (genl_msg t flags seq command attrs) =
      Some [int (length (genl_msg t flags seq command attrs)), t, flags, seq, 0]"
    "slice 16 20 (genl_msg t flags seq command attrs) = [word_of_int command, 1, 0, 0]"
    "drop 20 (genl_msg t flags seq command attrs) = attrs"
  using assms
  by (simp_all add: nlmsg_fields_def genl_msg_def slice_def bytes_int_def le_int_fits fmt_read_def fits_def
      del: le_bytes.simps)

lemma send_recv_eq:
  assumes "fits 4 (16 + int (length payload))" "fits 2 t" "fits 2 flags" "fits 4 (gs_seq gs + 1)"
  shows "send_recv nk (Some t) flags payload gs =
    io_bind (nl_send nk (le_bytes 4 (16 + int (length payload)) @ le_bytes 2 t @ le_bytes 2 flags @
      le_bytes 4 (gs_seq gs + 1) @ le_bytes 4 0 @ payload)) (\<lambda>_.
    io_bind (nl_recv 65536) (\<lambda>resp.
    io_bind (io_lift (struct_unpack_from Little [FmtI, FmtH, FmtH, FmtI, FmtI] resp 0)) (\<lambda>r.
    io_return (r ! 1, resp)))) (gs\<lparr>gs_seq := gs_seq gs + 1\<rparr>)"
proof -
  have "fits 4 0" by (simp add: fits_def)
  with assms show ?thesis
    by (simp add: send_recv_def Let_def nl_simps int_bytes_def del: le_bytes.simps)
qed

lemma io_bind_assoc: "io_bind (io_bind m f) g = io_bind m (\<lambda>x. io_bind (f x) g)"
  by (rule ext) (auto simp: io_bind_def split: option.splits sum.splits)

lemma io_bind_run: "m s = m' s' \<Longrightarrow> io_bind m f s = io_bind m' f s'"
  by (simp add: io_bind_def)

lemma send_recv_bind:
  assumes "fits 4 (16 + int (length payload))" "fits 2 t" "fits 2 flags" "fits 4 (gs_seq gs + 1)"
  shows "io_bind (send_recv nk (Some t) flags payload) f gs =
    io_bind (nl_send nk (le_bytes 4 (16 + int (length payload)) @ le_bytes 2 t @ le_bytes 2 flags @
      le_bytes 4 (gs_seq gs + 1) @ le_bytes 4 0 @ payload)) (\<lambda>_.
    io_bind (nl_recv 65536) (\<lambda>resp.
    io_bind (io_bind (io_lift (struct_unpack_from Little [FmtI, FmtH, FmtH, FmtI, FmtI] resp 0)) (\<lambda>r.
    io_return (r ! 1, resp))) f)) (gs\<lparr>gs_seq := gs_seq gs + 1\<rparr>)"
  unfolding io_bind_assoc [symmetric] by (rule io_bind_run, simp only: send_recv_eq [OF assms] io_bind_assoc)

lemma read_verdict:
  "io_bind (io_bind (io_lift (struct_unpack_from Little [FmtI, FmtH, FmtH, FmtI, FmtI] resp 0)) (\<lambda>r.
      io_return (r ! 1, resp))) (\<lambda>(r_type, resp).
     if r_type = NLMSG_ERROR then
       io_bind (io_lift (struct_unpack_from Little [Fmt_i] resp 16)) (\<lambda>v.
       if v ! 0 \<noteq> 0 then io_raise (errno_exception (v ! 0)) else io_return resp)
     else io_return resp) = io_lift (verdict_of resp)"
  by (rule ext)
    (simp add: io_bind_assoc nl_simps struct_unpack_from_def verdict_of_def calcsize_def NLMSG_ERROR_def Let_def
      del: struct_fields.simps)

lemma cmd_eq:
  assumes "family_id gs = Some fam" "fits 2 fam" "fits 4 (gs_seq gs + 1)" "fits 1 command"
    "fits 4 (20 + int (length attrs))"
  shows "cmd nk command attrs True gs =
    exchange nk (genl_msg fam 5 (gs_seq gs + 1) command attrs) (gs\<lparr>gs_seq := gs_seq gs + 1\<rparr>)"
proof -
  have b: "fits 1 1" "fits 2 0" "fits 2 5" by (simp_all add: fits_def)
  have hdr: "struct_pack Little [FmtB, FmtB, FmtH] [command, 1, 0] = Inr [word_of_int command, 1, 0, 0]"
    using assms(4) b by (simp add: int_bytes_def numeral_2_eq_2)
  have "cmd nk command attrs True gs = io_bind (send_recv nk (Some fam) 5 ([word_of_int command, 1, 0, 0] @ attrs))
      (\<lambda>(r_type, resp).
     if r_type = NLMSG_ERROR then
       io_bind (io_lift (struct_unpack_from Little [Fmt_i] resp 16)) (\<lambda>v.
       if v ! 0 \<noteq> 0 then io_raise (errno_exception (v ! 0)) else io_return resp)
     else io_return resp) gs"
    using assms(1) by (simp add: cmd_def hdr nl_simps NLM_F_REQUEST_def NLM_F_ACK_def del: struct_pack.simps)
  also have "\<dots> = exchange nk (genl_msg fam 5 (gs_seq gs + 1) command attrs) (gs\<lparr>gs_seq := gs_seq gs + 1\<rparr>)"
    using assms b unfolding exchange_def genl_msg_def
    by (subst send_recv_bind) (simp_all add: read_verdict [simplified] del: le_bytes.simps struct_fields.simps)
  finally show ?thesis .
qed

subsection \<open>The family lookup\<close>

lemma unpack_attr_head:
  assumes "drop off resp = attr_bytes (t, p) @ rest" "attr_ok (t, p)"
  shows "struct_unpack_from Little [FmtH, FmtH] resp off = Inr [4 + int (length p), t]"
    "2 \<le> length p \<Longrightarrow> struct_unpack_from Little [FmtH] resp (off + 4) = Inr [le_int (take 2 p)]"
    "drop (off + (align4 (length p) + 4)) resp = rest"
proof -
  have len: "length resp - off = align4 (length p) + 4 + length rest"
    using arg_cong [OF assms(1), of length] by (simp add: length_attr)
  have ok: "0 \<le> t" "t < 65536" "4 + int (length p) < 65536" using assms(2) by (simp_all add: attr_ok_def)
  have d: "drop off resp = le_bytes 2 (4 + int (length p)) @ le_bytes 2 t @ p @
      replicate (align4 (length p) - length p) 0 @ rest"
    using assms(1) by (simp add: attr_bytes_def)
  have rd: "fmt_read FmtH v = v" if "v < 65536" for v using that by (simp add: fmt_read_def)
  show "struct_unpack_from Little [FmtH, FmtH] resp off = Inr [4 + int (length p), t]"
    using len ok by (simp add: struct_unpack_from_def calcsize_def d bytes_int_def le_int_le_bytes rd del: le_bytes.simps)
  have "drop (off + 4) resp = drop 4 (drop off resp)" by (simp add: add.commute)
  then have d4: "drop (off + 4) resp = p @ replicate (align4 (length p) - length p) 0 @ rest"
    unfolding d by (simp del: le_bytes.simps)
  have b: "le_int (take 2 p) < 65536"
    using le_int_bound [of "take 2 p"] power_increasing [of "length (take 2 p)" 2 "256 :: int"] by simp
  show "2 \<le> length p \<Longrightarrow> struct_unpack_from Little [FmtH] resp (off + 4) = Inr [le_int (take 2 p)]"
    using len align4_facts(1) [of "length p"] b
    by (simp add: struct_unpack_from_def calcsize_def d4 bytes_int_def rd)
  have "drop (off + (align4 (length p) + 4)) resp = drop (align4 (length p) + 4) (drop off resp)"
    by (simp add: add.commute)
  then show "drop (off + (align4 (length p) + 4)) resp = rest"
    using assms(1) length_attr [of t p] by simp
qed

lemma attr_step: "nat (4 + int n + (4 - (4 + int n) mod 4) mod 4) = align4 n + 4"
proof -
  have "4 + int n + (4 - (4 + int n) mod 4) mod 4 = int (align4 n + 4)"
    unfolding align4_def by presburger
  then show ?thesis by linarith
qed

lemma family_scan_skip:
  assumes "drop off resp = concat (map attr_bytes as) @ junk" "off \<le> length resp" "list_all attr_ok as"
    "list_all (\<lambda>(t, p). t = 1 \<longrightarrow> 2 \<le> length p) as"
  shows "family_scan resp (length resp) off fam =
    family_scan resp (length resp) (length resp - length junk) (last_family as fam)"
  using assms
proof (induction as arbitrary: off fam)
  case Nil
  have "junk = drop off resp" using Nil(1) by simp
  with Nil(2) have "length resp - length junk = off" by simp
  then show ?case by (simp add: last_family_def)
next
  case (Cons a as)
  obtain t p where a: "a = (t, p)" by (rule prod.exhaust)
  have d: "drop off resp = attr_bytes (t, p) @ concat (map attr_bytes as) @ junk" using Cons.prems a by simp
  have ok: "attr_ok (t, p)" using Cons.prems a by simp
  note head = unpack_attr_head [OF d ok]
  have len: "length resp - off = align4 (length p) + 4 + length (concat (map attr_bytes as) @ junk)"
    using arg_cong [OF d, of length] by (simp add: length_attr)
  then have next_ok: "off < length resp" "off + (align4 (length p) + 4) \<le> length resp" by linarith+
  have IH: "family_scan resp (length resp) (off + (align4 (length p) + 4)) fam' =
      family_scan resp (length resp) (length resp - length junk) (last_family as fam')" for fam'
    using Cons.IH [OF head(3) next_ok(2)] Cons.prems by simp
  have "2 \<le> length p" if "t = 1" using Cons.prems(4) a that by simp
  then show ?case
    using head(1,2) next_ok(1) IH
    by (subst family_scan.simps) (simp add: a last_family_def CTRL_ATTR_FAMILY_ID_def attr_step [simplified])
qed

lemma family_scan_attrs:
  assumes "drop off resp = concat (map attr_bytes as)" "off \<le> length resp" "list_all attr_ok as"
    "list_all (\<lambda>(t, p). t = 1 \<longrightarrow> 2 \<le> length p) as"
  shows "family_scan resp (length resp) off fam = (Inr (), last_family as fam)"
  using family_scan_skip [of off resp as "[]" fam] assms by (simp add: family_scan.simps [of _ _ "length resp"])

lemma family_scan_broken:
  assumes "broken_reply as junk d"
  shows "family_scan d (length d) 20 fam =
    (if length junk < 4 then Inl StructError else Inr (), last_family as fam)"
proof -
  have b: "drop 20 d = concat (map attr_bytes as) @ junk" "20 \<le> length d" "list_all attr_ok as"
    "list_all (\<lambda>(t, p). t = 1 \<longrightarrow> 2 \<le> length p) as" "junk \<noteq> []" "length junk < 4 \<or> le_int (take 2 junk) < 4"
    using assms unfolding broken_reply_def by blast+
  let ?off = "length d - length junk"
  have len: "length junk \<le> length d" using arg_cong [OF b(1), of length] by simp
  have "0 < length junk" using b(5) by simp
  with len have lt: "?off < length d" by linarith
  have "drop ?off d = junk"
  proof -
    have "drop ?off d = drop (?off - 20) (drop 20 d)" using arg_cong [OF b(1), of length] b(2) by simp
    also have "?off - 20 = length (concat (map attr_bytes as))" using arg_cong [OF b(1), of length] b(2) by simp
    finally show ?thesis unfolding b(1) by simp
  qed
  moreover have head: "struct_fields Little [FmtH, FmtH] junk ! 0 = le_int (take 2 junk)"
    if "le_int (take 2 junk) < 4" using that by (simp add: fmt_read_def bytes_int_def)
  ultimately have "family_scan d (length d) ?off fam' = (if length junk < 4 then Inl StructError else Inr (), fam')" for fam'
    using b(5,6) len lt head
    by (subst family_scan.simps) (auto simp: struct_unpack_from_def calcsize_def simp del: struct_fields.simps)
  then show ?thesis using family_scan_skip [OF b(1-4)] by simp
qed

lemma unpack_from_error: "struct_unpack_from e fs bs off = Inl x \<Longrightarrow> x = StructError"
  by (simp add: struct_unpack_from_def split: if_splits)

lemma family_scan_total: "fst (family_scan resp stop off fam) \<in> {Inr (), Inl StructError}"
proof (induction "stop - off" arbitrary: off fam rule: less_induct)
  case less
  show ?case
  proof (cases "struct_unpack_from Little [FmtH, FmtH] resp off")
    case (Inl e)
    with unpack_from_error [OF Inl] show ?thesis by (subst family_scan.simps) simp
  next
    case (Inr h)
    define noff where "noff = off + nat (h ! 0 + (4 - h ! 0 mod 4) mod 4)"
    have "0 \<le> (4 - h ! 0 mod 4) mod 4" by simp
    then have "off < noff" if "\<not> h ! 0 < 4" using that unfolding noff_def by linarith
    then have IH: "fst (family_scan resp stop noff fam') \<in> {Inr (), Inl StructError}" if "off < stop" "\<not> h ! 0 < 4" for fam'
      using less that by simp
    show ?thesis
      using IH unpack_from_error [of Little "[FmtH]" resp "off + 4"]
      by (subst family_scan.simps) (simp add: Inr Let_def noff_def [symmetric, simplified] split: sum.split)
  qed
qed

lemma io_bind_cases:
  "io_bind m f s = (case m s of None \<Rightarrow> None | Some (Inl e, s') \<Rightarrow> Some (Inl e, s') | Some (Inr x, s') \<Rightarrow> f x s')"
  by (simp add: io_bind_def)

lemma take_is_ack [simp]: "is_ack e d \<Longrightarrow> take 65536 d = d"
  by (simp add: is_ack_def)

lemma verdict_of_ack: "is_ack e d \<Longrightarrow> verdict_of d = (if e = 0 then Inr d else Inl (errno_exception e))"
  by (simp add: verdict_of_def is_ack_def Let_def)

lemma exchange_queue:
  assumes "nk M (peer gs) = (Inr replies, k')" and "rxq gs @ replies = d # ds"
  shows "exchange nk M gs = Some (verdict_of (take 65536 d), gs\<lparr>peer := k', rxq := ds\<rparr>)"
  using assms by (simp add: exchange_def io_bind_cases nl_send_def nl_recv_def io_lift_def split: sum.split)

lemma last_family_None: "last_family as fam = None \<Longrightarrow> fam = None"
proof (induction as arbitrary: fam)
  case Nil
  then show ?case by (simp add: last_family_def)
next
  case (Cons a as)
  obtain t p where a: "a = (t, p)" by (rule prod.exhaust)
  have "last_family as (if t = 1 then Some (le_int (take 2 p)) else fam) = None"
    using Cons.prems by (simp add: last_family_def a)
  from Cons.IH [OF this] show ?case by (simp split: if_splits)
qed

lemma last_family_fits: "last_family as fam = Some f \<Longrightarrow> (\<And>g. fam = Some g \<Longrightarrow> fits 2 g) \<Longrightarrow> fits 2 f"
proof (induction as arbitrary: fam)
  case Nil
  then show ?case by (simp add: last_family_def)
next
  case (Cons a as)
  obtain t p where a: "a = (t, p)" by (rule prod.exhaust)
  have "le_int (take 2 p) < 65536"
    using le_int_bound [of "take 2 p"] power_increasing [of "length (take 2 p)" 2 "256 :: int"] by simp
  then have f: "fits 2 (le_int (take 2 p))" by (simp add: fits_def)
  have *: "last_family as (if t = 1 then Some (le_int (take 2 p)) else fam) = Some f"
    using Cons.prems by (simp add: last_family_def a)
  show ?case
    by (rule Cons.IH [OF *]) (use Cons.prems(2) f in \<open>auto split: if_splits\<close>)
qed

lemma resolve_family_send:
  assumes name: "length (encode name) < 65000" and seq: "fits 4 (gs_seq gs + 1)" and "rxq gs = []"
    and reply: "nk (getfamily_msg (gs_seq gs + 1) name) (peer gs) = (Inr (d # ds), k')"
  shows "resolve_family nk name gs =
    io_bind (io_bind (io_lift (struct_unpack_from Little [FmtI, FmtH, FmtH, FmtI, FmtI] (take 65536 d) 0)) (\<lambda>r.
      io_return (r ! 1, take 65536 d))) (resolve_rest name)
      (gs\<lparr>gs_seq := gs_seq gs + 1, peer := k', rxq := ds\<rparr>)"
proof -
  let ?attr = "attr_bytes (2, encode name @ [0])"
  have b: "fits 1 3" "fits 1 1" "fits 2 0" "fits 2 16" "fits 2 5" by (simp_all add: fits_def)
  have hdr: "struct_pack Little [FmtB, FmtB, FmtH] [3, 1, 0] = Inr [3, 1, 0, 0]"
    using b by (simp add: int_bytes_def numeral_2_eq_2)
  have ok: "attr_ok (2, encode name @ [0])" using name by (simp add: attr_ok_def)
  have len: "fits 4 (16 + int (length ([3, 1, 0, 0] @ ?attr)))"
    using name align4_facts(4) [of "length (encode name @ [0])"] by (simp add: length_attr fits_def)
  have "resolve_family nk name gs = io_bind (send_recv nk (Some 16) 5 ([3, 1, 0, 0] @ ?attr)) (resolve_rest name) gs"
    using ok
    by (simp add: resolve_family_def resolve_rest_def genl_consts hdr nl_simps nla_eq del: struct_pack.simps)
  also have "\<dots> = io_bind (nl_send nk (getfamily_msg (gs_seq gs + 1) name)) (\<lambda>_.
    io_bind (nl_recv 65536) (\<lambda>resp.
    io_bind (io_bind (io_lift (struct_unpack_from Little [FmtI, FmtH, FmtH, FmtI, FmtI] resp 0)) (\<lambda>r.
    io_return (r ! 1, resp))) (resolve_rest name))) (gs\<lparr>gs_seq := gs_seq gs + 1\<rparr>)"
    unfolding send_recv_bind [OF len b(4,5) seq] getfamily_msg_def genl_msg_def
    by (simp del: le_bytes.simps struct_fields.simps)
  finally show ?thesis
    using assms(3) reply by (simp add: io_bind_cases [of "nl_send _ _"] io_bind_cases [of "nl_recv _"]
        nl_send_def nl_recv_def)
qed

text \<open>What follows the receipt, by the outcome of the attribute loop.\<close>

lemma resolve_rest_scan:
  assumes "length d \<le> 65536" "16 \<le> length d" "struct_fields Little [FmtI, FmtH, FmtH, FmtI, FmtI] d ! 1 \<noteq> 2"
    and "r_len_from d = Inr stop" "family_scan d (nat stop) 20 (family_id gs) = (r, fam)"
  shows "io_bind (io_bind (io_lift (struct_unpack_from Little [FmtI, FmtH, FmtH, FmtI, FmtI] (take 65536 d) 0)) (\<lambda>r.
      io_return (r ! 1, take 65536 d))) (resolve_rest name) gs =
    Some (case r of Inl e \<Rightarrow> Inl e | Inr _ \<Rightarrow>
      (case fam of None \<Rightarrow> Inl (RuntimeError (not_found name)) | Some f \<Rightarrow> Inr f), gs\<lparr>family_id := fam\<rparr>)"
  unfolding resolve_rest_def using assms
  by (simp add: io_bind_assoc nl_simps struct_unpack_from_def calcsize_def NLMSG_ERROR_def
      io_bind_cases [of "\<lambda>gs. case family_scan d (nat stop) 20 (family_id gs) of (r, fam) \<Rightarrow> Some (r, gs\<lparr>family_id := fam\<rparr>)"]
      del: struct_fields.simps split: option.split sum.split)

lemma resolve_rest_reply:
  assumes r: "family_reply as d"
  shows "io_bind (io_bind (io_lift (struct_unpack_from Little [FmtI, FmtH, FmtH, FmtI, FmtI] (take 65536 d) 0)) (\<lambda>r.
      io_return (r ! 1, take 65536 d))) (resolve_rest name) gs =
    (case last_family as (family_id gs) of
       None \<Rightarrow> Some (Inl (RuntimeError (not_found name)), gs)
     | Some f \<Rightarrow> Some (Inr f, gs\<lparr>family_id := Some f\<rparr>))"
proof -
  have d: "length d \<le> 65536" "20 \<le> length d" "16 \<le> length d"
    "struct_fields Little [FmtI, FmtH, FmtH, FmtI, FmtI] d ! 1 \<noteq> 2"
    and stop: "r_len_from d = Inr (int (length d))"
    using r by (simp_all add: family_reply_def r_len_from_def struct_unpack_from_def calcsize_def)
  have scan: "family_scan d (nat (int (length d))) 20 fam = (Inr (), last_family as fam)" for fam
    unfolding nat_int by (rule family_scan_attrs) (use r in \<open>simp_all add: family_reply_def\<close>)
  have keep: "gs\<lparr>family_id := None\<rparr> = gs" if "last_family as (family_id gs) = None"
    using last_family_None [OF that] by (cases gs) simp
  show ?thesis
    unfolding resolve_rest_scan [OF d(1,3,4) stop scan] using keep by (simp split: option.split)
qed

lemma resolve_rest_broken:
  assumes "broken_reply as junk d"
  shows "io_bind (io_bind (io_lift (struct_unpack_from Little [FmtI, FmtH, FmtH, FmtI, FmtI] (take 65536 d) 0)) (\<lambda>r.
      io_return (r ! 1, take 65536 d))) (resolve_rest name) gs =
    Some (if length junk < 4 then Inl StructError else
      (case last_family as (family_id gs) of None \<Rightarrow> Inl (RuntimeError (not_found name)) | Some f \<Rightarrow> Inr f),
      gs\<lparr>family_id := last_family as (family_id gs)\<rparr>)"
proof -
  have d: "20 \<le> length d" "length d \<le> 65536" "struct_fields Little [FmtI, FmtH, FmtH, FmtI, FmtI] d ! 1 \<noteq> 2"
    and hdr: "struct_fields Little [FmtI, FmtH, FmtH, FmtI, FmtI] d ! 0 = int (length d)"
    using assms unfolding broken_reply_def by blast+
  have len: "16 \<le> length d" using d(1) by simp
  have stop: "r_len_from d = Inr (int (length d))"
    using hdr d(1) by (simp add: r_len_from_def struct_unpack_from_def calcsize_def)
  have scan: "family_scan d (nat (int (length d))) 20 (family_id gs) =
      (if length junk < 4 then Inl StructError else Inr (), last_family as (family_id gs))"
    unfolding nat_int by (rule family_scan_broken [OF assms])
  show ?thesis unfolding resolve_rest_scan [OF d(2) len d(3) stop scan] by simp
qed

text \<open>Whatever the datagram, the lookup ends.\<close>

lemma resolve_rest_total:
  "\<exists>r fam. io_bind (io_bind (io_lift (struct_unpack_from Little [FmtI, FmtH, FmtH, FmtI, FmtI] (take 65536 d) 0)) (\<lambda>r.
      io_return (r ! 1, take 65536 d))) (resolve_rest name) gs = Some (r, gs\<lparr>family_id := fam\<rparr>) \<and>
    (case r of Inr f \<Rightarrow> fam = Some f
     | Inl x \<Rightarrow> x \<in> {StructError, RuntimeError (not_found name)} \<union> range errno_exception)"
proof -
  define d' where "d' = take 65536 d"
  let ?type = "struct_fields Little [FmtI, FmtH, FmtH, FmtI, FmtI] d' ! 1"
  have d': "length d' \<le> 65536" "take 65536 d' = d'" unfolding d'_def by simp_all
  have keep: "gs\<lparr>family_id := family_id gs\<rparr> = gs" by simp
  show ?thesis
  proof (cases "16 \<le> length d' \<and> ?type \<noteq> 2")
    case True
    then obtain stop where stop: "r_len_from d' = Inr stop"
      by (simp add: r_len_from_def struct_unpack_from_def calcsize_def)
    obtain r fam where scan: "family_scan d' (nat stop) 20 (family_id gs) = (r, fam)" by (rule prod.exhaust)
    with family_scan_total [of d' "nat stop" 20 "family_id gs"] have r: "r \<in> {Inr (), Inl StructError}" by simp
    note run = resolve_rest_scan [OF d'(1) _ _ stop scan, of name, unfolded d'(2)]
    show ?thesis unfolding d'_def [symmetric]
      by (intro exI conjI, rule run) (use True r in \<open>auto split: option.split\<close>)
  next
    case False
    then show ?thesis unfolding d'_def [symmetric] resolve_rest_def
      by (intro exI [of _ "if length d' < 20 then Inl StructError else Inl (errno_exception (struct_fields Little [Fmt_i] (drop 16 d') ! 0))"]
          exI [of _ "family_id gs"])
        (auto simp: io_bind_assoc nl_simps struct_unpack_from_def calcsize_def NLMSG_ERROR_def simp del: struct_fields.simps)
  qed
qed

lemma resolve_rest_ack:
  "is_ack e d \<Longrightarrow>
   io_bind (io_bind (io_lift (struct_unpack_from Little [FmtI, FmtH, FmtH, FmtI, FmtI] (take 65536 d) 0)) (\<lambda>r.
     io_return (r ! 1, take 65536 d))) (resolve_rest name) gs = Some (Inl (errno_exception e), gs)"
  by (simp add: is_ack_def resolve_rest_def io_bind_assoc nl_simps struct_unpack_from_def calcsize_def
      NLMSG_ERROR_def del: struct_fields.simps)

lemma attrs_short:
  "length (concat (map attr_bytes (far_list ifindex far_id action tun port))) < 1000"
  "length (concat (map attr_bytes (pdr_list ifindex pdr_id prec far_id (pdi_list ue i_teid gtpu si) removal))) < 1000"
proof -
  show "length (concat (map attr_bytes (far_list ifindex far_id action tun port))) < 1000"
    by (cases tun) (auto simp: far_list_def ohc_list_def length_attr simp del: le_bytes.simps)
  show "length (concat (map attr_bytes (pdr_list ifindex pdr_id prec far_id (pdi_list ue i_teid gtpu si) removal))) < 1000"
    by (cases ue; cases i_teid; cases gtpu; cases si; cases removal)
      (simp_all add: pdr_list_def pdi_list_def nest_attr_def teid_list_def length_attr del: le_bytes.simps)
qed

lemma command_wire:
  assumes "family_id gs = Some fam" "fits 2 fam" "0 \<le> gs_seq gs" "gs_seq gs < 2 ^ 32 - 1" "fits 1 command"
    and "length attrs < 1000"
  shows "\<exists>M. nlmsg_fields M = Some [int (length M), fam, 5, gs_seq gs + 1, 0] \<and>
    slice 16 20 M = [word_of_int command, 1, 0, 0] \<and> drop 20 M = attrs \<and>
    cmd nk command attrs True gs = exchange nk M (gs\<lparr>gs_seq := gs_seq gs + 1\<rparr>)"
proof -
  have f: "fits 4 (20 + int (length attrs))" "fits 4 (gs_seq gs + 1)" "fits 2 5"
    using assms by (simp_all add: fits_def)
  show ?thesis
    by (rule exI [of _ "genl_msg fam 5 (gs_seq gs + 1) command attrs"])
      (simp add: genl_msg_fields [OF f(1) assms(2) f(3,2) assms(5)] cmd_eq [OF assms(1,2) f(2) assms(5) f(1)])
qed

lemma demo_is_ack: "is_ack 0 (demo_ack 0)" "is_ack (- 22) (demo_ack (- 22))"
  by (simp_all add: is_ack_def demo_ack_def bytes_int_def le_int_le_bytes fmt_read_def del: le_bytes.simps)

lemma demo_family: "last_family demo_attrs None = Some 27"
  by (simp add: last_family_def demo_attrs_def le_int_le_bytes del: le_bytes.simps)

lemma length_gtp5g: "length (encode ''gtp5g'') = 5"
  by code_simp

lemma demo_is_reply: "family_reply demo_attrs demo_reply"
proof -
  note n = length_gtp5g
  have len: "length (concat (map attr_bytes demo_attrs)) = 20"
    by (simp add: demo_attrs_def length_attr n del: le_bytes.simps) (simp add: align4_def)
  have ok: "list_all attr_ok demo_attrs" by (simp add: demo_attrs_def attr_ok_def n)
  show ?thesis
    using len ok
    by (simp add: family_reply_def demo_reply_def bytes_int_def le_int_le_bytes fmt_read_def del: le_bytes.simps)
      (simp add: demo_attrs_def)
qed

lemma demo_getfamily: "demo_nl (getfamily_msg seq name) k = (Inr [demo_reply, demo_ack 0], k)"
proof -
  have "slice 4 6 (getfamily_msg seq name) = le_bytes 2 16"
    by (simp add: getfamily_msg_def genl_msg_def slice_def del: le_bytes.simps)
  then show ?thesis by (simp add: demo_nl_def le_int_le_bytes del: le_bytes.simps)
qed

text \<open>A command takes the first datagram that was or becomes queued, and reports what it says.\<close>

lemma command_reads:
  assumes "family_id gs = Some fam" "fits 2 fam" "0 \<le> gs_seq gs" "gs_seq gs < 2 ^ 32 - 1"
    and "length attrs < 1000" "fits 1 command"
    and "\<And>M. fst (nk M (peer gs)) = Inr replies" and "is_ack e a" and "rxq gs @ replies = a # ds"
  shows "\<exists>gs'. io_bind (cmd nk command attrs True) (\<lambda>_. io_return ()) gs =
      Some (if e = 0 then Inr () else Inl (errno_exception e), gs') \<and> rxq gs' = ds"
proof -
  obtain M where M: "cmd nk command attrs True gs = exchange nk M (gs\<lparr>gs_seq := gs_seq gs + 1\<rparr>)"
    using command_wire [OF assms(1-4,6,5)] by blast
  obtain k' where k: "nk M (peer gs) = (Inr replies, k')" using assms(7) [of M] by (metis prod.collapse)
  have "exchange nk M (gs\<lparr>gs_seq := gs_seq gs + 1\<rparr>) =
      Some (verdict_of (take 65536 a), gs\<lparr>gs_seq := gs_seq gs + 1, peer := k', rxq := ds\<rparr>)"
    using exchange_queue [of nk M "gs\<lparr>gs_seq := gs_seq gs + 1\<rparr>" replies k' a ds] k assms(9) by simp
  then show ?thesis
    using assms(8) M by (simp add: io_bind_cases io_return_def verdict_of_ack)
qed

subsection \<open>Properties\<close>

text \<open>
  C28. \<^verbatim>\<open>add_far\<close> on the wire: arguments that do not fit their attributes raise \<^verbatim>\<open>struct.error\<close> before
  anything is sent; otherwise exactly one message goes out, addressed to the resolved family, with
  request and acknowledgement flags, the next sequence number and the ADD_FAR command, and its
  attributes decode to the interface, FAR, action and, for a forwarding action with both tunnel
  arguments, the outer header creation with TEID, peer address and port; the outcome of the call
  is what the first queued datagram says.
\<close>

theorem add_far_wire:
  assumes "family_id gs = Some fam" and "fits 2 fam" and "0 \<le> gs_seq gs" and "gs_seq gs < 2 ^ 32 - 1"
  shows "if far_fits ifindex far_id action o_teid peer_ipv4 port then
      (\<exists>M. nlmsg_fields M = Some [int (length M), fam, 5, gs_seq gs + 1, 0] \<and> slice 16 20 M = [2, 1, 0, 0] \<and>
         decode_far (drop 20 M) =
           Some (far_rule_of ifindex far_id action (tunnel action o_teid peer_ipv4) port) \<and>
         add_far nk ifindex far_id action o_teid peer_ipv4 port gs =
           io_bind (exchange nk M) (\<lambda>_. io_return ()) (gs\<lparr>gs_seq := gs_seq gs + 1\<rparr>))
    else add_far nk ifindex far_id action o_teid peer_ipv4 port gs = Some (Inl StructError, gs)"
proof (cases "far_fits ifindex far_id action o_teid peer_ipv4 port")
  case True
  let ?l = "far_list ifindex far_id action (tunnel action o_teid peer_ipv4) port"
  have "fits 1 2" by (simp add: fits_def)
  then obtain M where M: "nlmsg_fields M = Some [int (length M), fam, 5, gs_seq gs + 1, 0]"
    "slice 16 20 M = [word_of_int 2, 1, 0, 0]" "drop 20 M = concat (map attr_bytes ?l)"
    "cmd nk 2 (concat (map attr_bytes ?l)) True gs = exchange nk M (gs\<lparr>gs_seq := gs_seq gs + 1\<rparr>)"
    using command_wire [OF assms _ attrs_short(1)] by blast
  have "add_far nk ifindex far_id action o_teid peer_ipv4 port gs =
      io_bind (cmd nk 2 (concat (map attr_bytes ?l)) True) (\<lambda>_. io_return ()) gs"
    using True by (simp add: add_far_def far_attrs_eq nl_simps GTP5G_CMD_ADD_FAR_def)
  also have "\<dots> = io_bind (exchange nk M) (\<lambda>_. io_return ()) (gs\<lparr>gs_seq := gs_seq gs + 1\<rparr>)"
    by (rule io_bind_run, rule M(4))
  finally show ?thesis using True M(1-3) decode_far_list [OF True] by auto
qed (simp add: add_far_def far_attrs_eq nl_simps)

theorem add_far_wire_witness:
  "\<exists>M. slice 16 20 M = [2, 1, 0, 0] \<and>
     decode_far (drop 20 M) = Some \<lparr>fr_link = Some 7, fr_id = Some 2, fr_action = Some 2, fr_description = Some 0x100,
       fr_o_teid = Some 0x1000, fr_peer = Some 0x0A000002, fr_port = Some 2152\<rparr> \<and>
     add_far demo_nl 7 2 2 (Some 0x1000) (Some 0x0A000002) 2152 (demo_gs []) =
       io_bind (exchange demo_nl M) (\<lambda>_. io_return ()) (demo_gs [] \<lparr>gs_seq := 2\<rparr>)"
proof -
  have "far_fits 7 2 2 (Some 0x1000) (Some 0x0A000002) 2152" "fits 2 27"
    by (simp_all add: far_fits_def fits_def tunnel_def)
  then show ?thesis
    using add_far_wire [of "demo_gs []" 27 7 2 2 "Some 0x1000" "Some 0x0A000002" 2152 demo_nl]
    by (auto simp: demo_gs_def far_rule_of_def tunnel_def FAR_ACTION_FORW_def)
qed

text \<open>
  C29. \<^verbatim>\<open>add_pdr\<close> on the wire: as for \<^verbatim>\<open>add_far\<close>, with the ADD_PDR command; the attributes decode to the
  interface, PDR, precedence and FAR, and to exactly the optional arguments that were given: the
  outer header removal, and within the packet detection information the UE address, the local
  tunnel endpoint (TEID, GTP-U address) and the source interface.
\<close>

theorem add_pdr_wire:
  assumes "family_id gs = Some fam" and "fits 2 fam" and "0 \<le> gs_seq gs" and "gs_seq gs < 2 ^ 32 - 1"
  shows "if pdr_fits ifindex pdr_id precedence far_id ue i_teid gtpu si removal then
      (\<exists>M. nlmsg_fields M = Some [int (length M), fam, 5, gs_seq gs + 1, 0] \<and> slice 16 20 M = [1, 1, 0, 0] \<and>
         decode_pdr (drop 20 M) =
           Some \<lparr>pr_link = Some ifindex, pr_id = Some pdr_id, pr_precedence = Some precedence, pr_removal = removal,
             pr_far = Some far_id, pr_ue_addr = ue, pr_teid = i_teid, pr_gtpu_addr = gtpu, pr_src_intf = si\<rparr> \<and>
         add_pdr nk ifindex pdr_id precedence far_id ue i_teid gtpu si removal gs =
           io_bind (exchange nk M) (\<lambda>_. io_return ()) (gs\<lparr>gs_seq := gs_seq gs + 1\<rparr>))
    else add_pdr nk ifindex pdr_id precedence far_id ue i_teid gtpu si removal gs = Some (Inl StructError, gs)"
proof (cases "pdr_fits ifindex pdr_id precedence far_id ue i_teid gtpu si removal")
  case True
  let ?l = "pdr_list ifindex pdr_id precedence far_id (pdi_list ue i_teid gtpu si) removal"
  have "fits 1 1" by (simp add: fits_def)
  then obtain M where M: "nlmsg_fields M = Some [int (length M), fam, 5, gs_seq gs + 1, 0]"
    "slice 16 20 M = [word_of_int 1, 1, 0, 0]" "drop 20 M = concat (map attr_bytes ?l)"
    "cmd nk 1 (concat (map attr_bytes ?l)) True gs = exchange nk M (gs\<lparr>gs_seq := gs_seq gs + 1\<rparr>)"
    using command_wire [OF assms _ attrs_short(2)] by blast
  have "add_pdr nk ifindex pdr_id precedence far_id ue i_teid gtpu si removal gs =
      io_bind (cmd nk 1 (concat (map attr_bytes ?l)) True) (\<lambda>_. io_return ()) gs"
    using True by (simp add: add_pdr_def pdr_attrs_eq nl_simps GTP5G_CMD_ADD_PDR_def)
  also have "\<dots> = io_bind (exchange nk M) (\<lambda>_. io_return ()) (gs\<lparr>gs_seq := gs_seq gs + 1\<rparr>)"
    by (rule io_bind_run, rule M(4))
  finally show ?thesis using True M(1-3) decode_pdr_list [OF True] by auto
qed (simp add: add_pdr_def pdr_attrs_eq nl_simps)

theorem add_pdr_wire_witness:
  "\<exists>M. slice 16 20 M = [1, 1, 0, 0] \<and>
     decode_pdr (drop 20 M) = Some \<lparr>pr_link = Some 7, pr_id = Some 1, pr_precedence = Some 100, pr_removal = Some 0,
       pr_far = Some 1, pr_ue_addr = None, pr_teid = Some 5, pr_gtpu_addr = None, pr_src_intf = None\<rparr> \<and>
     add_pdr demo_nl 7 1 100 1 None (Some 5) None None (Some 0) (demo_gs []) =
       io_bind (exchange demo_nl M) (\<lambda>_. io_return ()) (demo_gs [] \<lparr>gs_seq := 2\<rparr>)"
proof -
  have "pdr_fits 7 1 100 1 None (Some 5) None None (Some 0)" "fits 2 27"
    by (simp_all add: pdr_fits_def fits_def)
  then show ?thesis
    using add_pdr_wire [of "demo_gs []" 27 7 1 100 1 None "Some 5" None None "Some 0" demo_nl]
    by (auto simp: demo_gs_def)
qed

text \<open>
  C30. The family lookup on a fresh queue ends on every response: whatever the first datagram is that the kernel queues, the
  lookup returns the identifier that it stores, or raises \<^verbatim>\<open>struct.error\<close>, the \<^verbatim>\<open>RuntimeError\<close> of a missing family or the
  error of an error number. When the datagram is an error message, it raises its error number; when it is a reply
  with attributes, the lookup returns the last family identifier among them, or, without one, the
  identifier of an earlier lookup, or raises \<^verbatim>\<open>RuntimeError\<close>. When something malformed follows the attributes, the result is the same if
  it has an attribute header with a length below four, since the loop stops there, and \<^verbatim>\<open>struct.error\<close> if it is shorter than a header; what
  was found is stored in both cases. Every further datagram the kernel
  queued, the acknowledgement included, is left in the queue.
\<close>

theorem resolve_family_outcomes:
  assumes "length (encode name) < 65000" and "0 \<le> gs_seq gs" and "gs_seq gs < 2 ^ 32 - 1" and "rxq gs = []"
    and "nk (getfamily_msg (gs_seq gs + 1) name) (peer gs) = (Inr (d # ds), k')"
  defines "gs1 \<equiv> gs\<lparr>gs_seq := gs_seq gs + 1, peer := k', rxq := ds\<rparr>"
  shows "(\<exists>r fam. resolve_family nk name gs = Some (r, gs1\<lparr>family_id := fam\<rparr>) \<and>
      (case r of Inr f \<Rightarrow> fam = Some f
       | Inl x \<Rightarrow> x \<in> {StructError, RuntimeError (not_found name)} \<union> range errno_exception)) \<and>
    (is_ack e d \<longrightarrow> resolve_family nk name gs = Some (Inl (errno_exception e), gs1)) \<and>
    (family_reply as d \<longrightarrow> resolve_family nk name gs =
      (case last_family as (family_id gs) of
         None \<Rightarrow> Some (Inl (RuntimeError (not_found name)), gs1)
       | Some f \<Rightarrow> Some (Inr f, gs1\<lparr>family_id := Some f\<rparr>))) \<and>
    (broken_reply as junk d \<longrightarrow> resolve_family nk name gs =
      Some (if length junk < 4 then Inl StructError else
        (case last_family as (family_id gs) of None \<Rightarrow> Inl (RuntimeError (not_found name)) | Some f \<Rightarrow> Inr f),
        gs1\<lparr>family_id := last_family as (family_id gs)\<rparr>))"
proof -
  have "fits 4 (gs_seq gs + 1)" using assms(2,3) by (simp add: fits_def)
  note run = resolve_family_send [where nk = nk and gs = gs, OF assms(1) this assms(4,5)]
  show ?thesis
    unfolding run gs1_def
  proof (intro conjI impI, goal_cases)
    case 1
    show ?case by (rule resolve_rest_total)
  next
    case 2
    then show ?case by (rule resolve_rest_ack)
  next
    case 3
    show ?case by (subst resolve_rest_reply [OF 3]) simp
  next
    case 4
    show ?case by (subst resolve_rest_broken [OF 4]) simp
  qed
qed

theorem resolve_family_outcomes_witness:
  "resolve_family demo_nl ''gtp5g'' (genl_init ()) =
     Some (Inr 27, \<lparr>rxq = [demo_ack 0], peer = (), gs_seq = 1, family_id = Some 27\<rparr>)"
proof -
  have n: "length (encode ''gtp5g'') < 65000" by (simp add: length_gtp5g)
  show ?thesis
    using resolve_family_outcomes [where gs = "genl_init ()" and nk = demo_nl and d = demo_reply and ds = "[demo_ack 0]"
        and k' = "()" and as = demo_attrs, OF n] demo_is_reply demo_family demo_getfamily [of 1 "''gtp5g''" "()"]
    by (simp add: genl_init_def)
qed

text \<open>
  C31. In step, commands report the kernel's verdict: when nothing is left in the queue and the kernel
  acknowledges the command with error number \<open>e\<close>, \<^verbatim>\<open>add_far\<close> returns if \<open>e\<close> is zero and raises
  \<^verbatim>\<open>OSError(-e)\<close> otherwise, and the queue is empty again.
\<close>

theorem add_far_in_step:
  assumes "family_id gs = Some fam" and "fits 2 fam" and "0 \<le> gs_seq gs" and "gs_seq gs < 2 ^ 32 - 1"
    and "far_fits ifindex far_id action o_teid peer_ipv4 port"
    and "rxq gs = []" and "\<And>M. fst (nk M (peer gs)) = Inr [a]" and "is_ack e a"
  shows "\<exists>gs'. add_far nk ifindex far_id action o_teid peer_ipv4 port gs =
      Some (if e = 0 then Inr () else Inl (errno_exception e), gs') \<and> rxq gs' = []"
proof -
  obtain attrs where "far_attrs ifindex far_id action o_teid peer_ipv4 port = Inr attrs" "length attrs < 1000"
    using assms(5) attrs_short(1) by (simp add: far_attrs_eq)
  then show ?thesis
    using command_reads [where nk = nk and gs = gs and attrs = attrs and command = 2, OF assms(1-4) _ _ assms(7,8)]
      assms(6)
    by (simp add: add_far_def nl_simps GTP5G_CMD_ADD_FAR_def fits_def)
qed

theorem add_far_in_step_witness:
  "\<exists>gs'. add_far demo_nl_reject 7 1 1 None None 2152 (demo_gs []) = Some (Inl (OSError 22), gs') \<and> rxq gs' = []"
proof -
  have f: "far_fits 7 1 1 None None 2152" "fits 2 27" by (simp_all add: far_fits_def fits_def tunnel_def)
  show ?thesis
    using add_far_in_step [of "demo_gs []" 27 7 1 1 None None 2152 demo_nl_reject "demo_ack (- 22)" "- 22"]
      f demo_is_ack(2)
    by (simp add: demo_gs_def demo_nl_reject_def errno_exception_def)
qed

text \<open>
  C23. The script reads acknowledgements out of step: the family request asks for an acknowledgement
  that the lookup does not read, so the rule command takes it for its own. Whatever the kernel
  answers to the command, a rejection included, the script completes without an exception, and
  the kernel's answer is left unread in the queue.
\<close>

theorem genl_main_ignores_rejection:
  assumes "fits 4 ifindex"
    and "nk (getfamily_msg 1 ''gtp5g'') k = (Inr [d, ack], k')" and "family_reply as d" and "is_ack 0 ack"
    and "last_family as None = Some fam"
    and "\<And>M. fst (nk M k') = Inr [answer]"
    and "step = ''far_drop'' \<or> step = ''far_forw'' \<or> step = ''pdr''"
  shows "\<exists>gs'. genl_main nk ifindex step (genl_init k) = Some (Inr (), gs') \<and> rxq gs' = [answer]"
proof -
  let ?gs = "\<lparr>rxq = [ack], peer = k', gs_seq = 1, family_id = Some fam\<rparr>"
  have res: "resolve_family nk ''gtp5g'' (genl_init k) = Some (Inr fam, ?gs)"
    using resolve_rest_reply [OF assms(3), of "''gtp5g''" "\<lparr>rxq = [ack], peer = k', gs_seq = 1, family_id = None\<rparr>"] assms(5)
    by (subst resolve_family_send [where d = d and ds = "[ack]" and k' = k'])
      (simp_all add: length_gtp5g genl_init_def assms(2) fits_def)
  have fam: "fits 2 fam" using last_family_fits [OF assms(5)] by simp
  have run: "\<exists>gs'. io_bind (cmd nk command attrs True) (\<lambda>_. io_return ()) ?gs = Some (Inr (), gs') \<and> rxq gs' = [answer]"
    if "length attrs < 1000" "fits 1 command" for command attrs
    using command_reads [where nk = nk and gs = ?gs and replies = "[answer]" and a = ack and e = 0 and ds = "[answer]",
        OF _ fam _ _ that] assms(4,6) by simp
  have fit: "far_fits ifindex 1 1 None None 2152" "pdr_fits ifindex 1 100 1 None None None None (Some 0)"
    "far_fits ifindex 2 2 (Some 4096) (Some 0x0A000002) 2152" "bytes_int Big [10, 0, 0, 2] = 0x0A000002"
    "fits 1 1" "fits 1 2"
    using assms(1) by (simp_all add: far_fits_def pdr_fits_def tunnel_def fits_def bytes_int_def)
  show ?thesis
    using assms(7) fit run attrs_short
    by (auto simp: genl_main_def res io_simps add_far_def add_pdr_def far_attrs_eq pdr_attrs_eq nl_simps genl_consts)
qed

theorem genl_main_ignores_rejection_witness:
  "\<exists>gs'. genl_main (\<lambda>M k. if k = 0 then (Inr [demo_reply, demo_ack 0], 1) else (Inr [demo_ack (- 22)], k :: nat))
       7 ''far_drop'' (genl_init 0) = Some (Inr (), gs') \<and> rxq gs' = [demo_ack (- 22)]"
proof -
  have f: "fits 4 7" by (simp add: fits_def)
  let ?nk = "\<lambda>M k. if k = 0 then (Inr [demo_reply, demo_ack 0], 1) else (Inr [demo_ack (- 22)], k :: nat)"
  show ?thesis
    using genl_main_ignores_rejection [where nk = ?nk and k = 0 and k' = 1 and d = demo_reply and ack = "demo_ack 0"
        and answer = "demo_ack (- 22)" and step = "''far_drop''", OF f _ demo_is_reply demo_is_ack(1) demo_family]
    by simp
qed

end
