(* ===== verification/Gtp5g_Link.thy ===== *)
theory Gtp5g_Link
  imports Gtp5g_Genl
begin

text \<open>
  \<^verbatim>\<open>results_native/gtp5g_baseline/gtp5g_link_add.py\<close>: the script's own copy of the attribute builders
  and \<^verbatim>\<open>create_gtp5g_link\<close>, which binds the GTP-U socket and asks the kernel over rtnetlink for the
  interface. Opening and binding the UDP socket is the parameter \<open>udp_bind\<close>, which yields the
  descriptor or an \<^verbatim>\<open>OSError\<close>; the kernel is the parameter of the netlink socket.
\<close>

subsection \<open>Constants and builders\<close>

definition RTM_NEWLINK :: int where "RTM_NEWLINK = 16"
definition LINK_F_REQUEST :: int where "LINK_F_REQUEST = 0x1"
definition LINK_F_ACK :: int where "LINK_F_ACK = 0x4"
definition NLM_F_CREATE :: int where "NLM_F_CREATE = 0x400"
definition NLM_F_EXCL :: int where "NLM_F_EXCL = 0x200"
definition IFLA_IFNAME :: int where "IFLA_IFNAME = 3"
definition IFLA_LINKINFO :: int where "IFLA_LINKINFO = 18"
definition IFLA_INFO_KIND :: int where "IFLA_INFO_KIND = 1"
definition IFLA_INFO_DATA :: int where "IFLA_INFO_DATA = 2"
definition IFLA_GTP5G_FD1 :: int where "IFLA_GTP5G_FD1 = 1"
definition IFLA_GTP5G_PDR_HASHSIZE :: int where "IFLA_GTP5G_PDR_HASHSIZE = 2"

lemmas link_consts = RTM_NEWLINK_def LINK_F_REQUEST_def LINK_F_ACK_def NLM_F_CREATE_def NLM_F_EXCL_def
  IFLA_IFNAME_def IFLA_LINKINFO_def IFLA_INFO_KIND_def IFLA_INFO_DATA_def IFLA_GTP5G_FD1_def
  IFLA_GTP5G_PDR_HASHSIZE_def

definition link_nla :: "int \<Rightarrow> bytes \<Rightarrow> bytes res" where
  "link_nla nla_type payload =
     (let len = 4 + int (length payload) in
      res_bind (struct_pack Little [FmtH, FmtH] [len, nla_type]) (\<lambda>header.
      let padded = header @ payload;
          pad_len = (4 - (len mod 4)) mod 4
      in Inr (padded @ replicate (nat pad_len) 0)))"

definition link_nla_nested :: "int \<Rightarrow> bytes list \<Rightarrow> bytes res" where
  "link_nla_nested nla_type attrs = (let payload = concat attrs in link_nla nla_type payload)"

definition link_nla_u32 :: "int \<Rightarrow> int \<Rightarrow> bytes res" where
  "link_nla_u32 nla_type v = res_bind (struct_pack Little [FmtI] [v]) (link_nla nla_type)"

definition nla_str :: "int \<Rightarrow> string \<Rightarrow> bytes res" where
  "nla_str nla_type v = link_nla nla_type (encode v @ [0])"

subsection \<open>\<^verbatim>\<open>create_gtp5g_link\<close>\<close>

text \<open>The UDP socket: Python refuses a port outside 16 bits before the kernel sees it.\<close>

definition open_udp :: "(int \<Rightarrow> 'k \<Rightarrow> int res \<times> 'k) \<Rightarrow> int \<Rightarrow> ('k nl_sock, int) io" where
  "open_udp udp_bind gtpu_port s =
     (if 0 \<le> gtpu_port \<and> gtpu_port \<le> 65535
      then (case udp_bind gtpu_port (peer s) of (r, k) \<Rightarrow> Some (r, s\<lparr>peer := k\<rparr>))
      else Some (Inl OverflowError, s))"

text \<open>A new netlink socket has an empty queue.\<close>

definition open_netlink :: "('k nl_sock, unit) io" where
  "open_netlink s = Some (Inr (), s\<lparr>rxq := []\<rparr>)"

definition link_payload :: "string \<Rightarrow> int \<Rightarrow> int \<Rightarrow> bytes res" where
  "link_payload ifname fd1 pdr_hashsize =
     res_bind (link_nla_u32 IFLA_GTP5G_FD1 fd1) (\<lambda>fd_attr.
     res_bind (link_nla_u32 IFLA_GTP5G_PDR_HASHSIZE pdr_hashsize) (\<lambda>hash_attr.
     res_bind (link_nla_nested IFLA_INFO_DATA [fd_attr, hash_attr]) (\<lambda>info_data.
     res_bind (nla_str IFLA_INFO_KIND ''gtp5g'') (\<lambda>kind.
     res_bind (link_nla_nested IFLA_LINKINFO [kind, info_data]) (\<lambda>link_info.
     res_bind (nla_str IFLA_IFNAME ifname) (\<lambda>ifname_attr.
     res_bind (struct_pack Little [FmtB, FmtB, FmtH, Fmt_i, FmtI, FmtI] [0, 0, 0, 0, 0, 0]) (\<lambda>ifinfomsg.
     Inr (ifinfomsg @ ifname_attr @ link_info))))))))"

definition create_gtp5g_link ::
    "'k nl_kernel \<Rightarrow> (int \<Rightarrow> 'k \<Rightarrow> int res \<times> 'k) \<Rightarrow> int \<Rightarrow> string \<Rightarrow> int \<Rightarrow> int \<Rightarrow> ('k nl_sock, int) io" where
  "create_gtp5g_link nk udp_bind getpid ifname gtpu_port pdr_hashsize =
     io_bind (open_udp udp_bind gtpu_port) (\<lambda>fd1.
     io_bind (io_lift (link_payload ifname fd1 pdr_hashsize)) (\<lambda>payload.
     let seq = and getpid 0xffff;
         nlmsg_flags = or (or (or LINK_F_REQUEST LINK_F_ACK) NLM_F_CREATE) NLM_F_EXCL;
         total_len = 16 + int (length payload)
     in
     io_bind (io_lift (struct_pack Little [FmtI, FmtH, FmtH, FmtI, FmtI]
         [total_len, RTM_NEWLINK, nlmsg_flags, seq, 0])) (\<lambda>nlmsghdr.
     io_bind open_netlink (\<lambda>_.
     io_bind (nl_send nk (nlmsghdr @ payload)) (\<lambda>_.
     io_bind (nl_recv 65536) (\<lambda>resp.
     io_bind (io_lift (struct_unpack_from Little [FmtI, FmtH, FmtH, FmtI, FmtI] resp 0)) (\<lambda>r.
     if r ! 1 = 2 then
       io_bind (io_lift (struct_unpack_from Little [Fmt_i] resp 16)) (\<lambda>v.
       if v ! 0 \<noteq> 0 then io_raise (errno_exception (v ! 0)) else io_return fd1)
     else io_return fd1)))))))"

subsection \<open>What the message means\<close>

record link_rule =
  lr_name :: "bytes option"
  lr_kind :: "bytes option"
  lr_fd :: "int option"
  lr_hashsize :: "int option"

definition decode_link :: "bytes \<Rightarrow> link_rule option" where
  "decode_link bs = map_option (\<lambda>as.
     let info = nested as 18; data = nested info 2 in
     \<lparr>lr_name = map_of as 3, lr_kind = map_of info 1, lr_fd = read_le data 1, lr_hashsize = read_le data 2\<rparr>)
     (parse_attrs bs)"

definition data_list :: "int \<Rightarrow> int \<Rightarrow> (int \<times> bytes) list" where
  "data_list fd1 hashsize = [(1, le_bytes 4 fd1), (2, le_bytes 4 hashsize)]"

definition info_list :: "int \<Rightarrow> int \<Rightarrow> (int \<times> bytes) list" where
  "info_list fd1 hashsize = [(1, encode ''gtp5g'' @ [0]), (2, concat (map attr_bytes (data_list fd1 hashsize)))]"

definition link_list :: "string \<Rightarrow> int \<Rightarrow> int \<Rightarrow> (int \<times> bytes) list" where
  "link_list ifname fd1 hashsize =
     [(3, encode ifname @ [0]), (18, concat (map attr_bytes (info_list fd1 hashsize)))]"

lemma link_builders: "link_nla = nla" "link_nla_nested = nla_nested" "link_nla_u32 = nla_u32"
proof -
  show n: "link_nla = nla" by (intro ext) (simp add: link_nla_def nla_def)
  show "link_nla_nested = nla_nested" "link_nla_u32 = nla_u32"
    by (intro ext; simp add: link_nla_nested_def nla_nested_def link_nla_u32_def nla_u32_def n)+
qed

lemma length_info [simp]:
  "length (concat (map attr_bytes (data_list fd1 hashsize))) = 16"
  "length (concat (map attr_bytes (info_list fd1 hashsize))) = 32"
proof -
  show d: "length (concat (map attr_bytes (data_list fd1 hashsize))) = 16"
    by (simp add: data_list_def length_attr del: le_bytes.simps)
  have "align4 6 = 8" by (simp add: align4_def)
  then show "length (concat (map attr_bytes (info_list fd1 hashsize))) = 32"
    using d by (simp add: info_list_def length_attr length_gtp5g del: length_concat)
qed

lemma link_lists_ok:
  "list_all attr_ok (data_list fd1 hashsize)" "list_all attr_ok (info_list fd1 hashsize)"
  "length (encode ifname) < 65531 \<Longrightarrow> list_all attr_ok (link_list ifname fd1 hashsize)"
proof -
  show "list_all attr_ok (data_list fd1 hashsize)"
    by (simp add: data_list_def attr_ok_small del: le_bytes.simps)
  show "list_all attr_ok (info_list fd1 hashsize)"
    using length_info(1) by (simp add: info_list_def attr_ok_def length_gtp5g del: length_concat)
  show "list_all attr_ok (link_list ifname fd1 hashsize)" if "length (encode ifname) < 65531"
    using that length_info(2) by (simp add: link_list_def attr_ok_def del: length_concat)
qed

lemma link_payload_eq:
  "link_payload ifname fd1 hashsize =
     (if fits 4 fd1 \<and> fits 4 hashsize \<and> length (encode ifname) < 65531
      then Inr (replicate 16 0 @ concat (map attr_bytes (link_list ifname fd1 hashsize))) else Inl StructError)"
proof -
  have z: "struct_pack Little [FmtB, FmtB, FmtH, Fmt_i, FmtI, FmtI] [0, 0, 0, 0, 0, 0] = Inr (replicate 16 0)"
    by code_simp
  have data: "nla_nested 2 [attr_bytes (1, le_bytes 4 fd1), attr_bytes (2, le_bytes 4 hashsize)] =
      Inr (attr_bytes (2, concat (map attr_bytes (data_list fd1 hashsize))))"
    using link_lists_ok(2) by (subst nla_nested_ok) (simp_all add: info_list_def data_list_def)
  have kind: "nla 1 (encode ''gtp5g'' @ [0]) = Inr (attr_bytes (1, encode ''gtp5g'' @ [0]))"
    using link_lists_ok(2) [of fd1 hashsize] by (simp add: nla_eq info_list_def)
  have info: "nla_nested 18 [attr_bytes (1, encode ''gtp5g'' @ [0]),
      attr_bytes (2, concat (map attr_bytes (data_list fd1 hashsize)))] =
      Inr (attr_bytes (18, concat (map attr_bytes (info_list fd1 hashsize))))"
    using length_info(2) by (subst nla_nested_ok) (simp_all add: info_list_def attr_ok_def del: length_concat)
  have name: "nla 3 (encode ifname @ [0]) =
      (if length (encode ifname) < 65531 then Inr (attr_bytes (3, encode ifname @ [0])) else Inl StructError)"
    by (simp add: nla_eq attr_ok_def)
  show ?thesis
    by (simp add: link_payload_def link_builders nla_str_def link_consts nla_ints z data kind info name link_list_def
        del: struct_pack.simps le_bytes.simps)
qed

lemma decode_link_list:
  assumes "fits 4 fd1" "fits 4 hashsize" "length (encode ifname) < 65531"
  shows "decode_link (concat (map attr_bytes (link_list ifname fd1 hashsize))) =
    Some \<lparr>lr_name = Some (encode ifname @ [0]), lr_kind = Some (encode ''gtp5g'' @ [0]), lr_fd = Some fd1,
      lr_hashsize = Some hashsize\<rparr>"
proof -
  have n: "nested (link_list ifname fd1 hashsize) 18 = info_list fd1 hashsize"
    by (rule nested_attrs [OF link_lists_ok(2)]) (simp add: link_list_def)
  have n1: "nested (info_list fd1 hashsize) 2 = data_list fd1 hashsize"
    by (rule nested_attrs [OF link_lists_ok(1)]) (simp add: info_list_def)
  have d: "read_le (data_list fd1 hashsize) 1 = Some fd1" "read_le (data_list fd1 hashsize) 2 = Some hashsize"
    using assms by (simp_all add: data_list_def read_le_def le_int_fits del: le_bytes.simps)
  show ?thesis
    by (simp add: decode_link_def parse_attrs_concat link_lists_ok assms n n1 d)
      (simp add: link_list_def info_list_def)
qed

lemma link_send:
  assumes "link_payload ifname fd1 hashsize = Inr payload" "length payload < 70000"
    and "udp_bind port k = (Inr fd1, k1)" "0 \<le> port" "port \<le> 65535"
    and "nk (le_bytes 4 (16 + int (length payload)) @ le_bytes 2 16 @ le_bytes 2 0x605 @ le_bytes 4 (and pid 0xffff) @
      le_bytes 4 0 @ payload) k1 = (Inr (a # q), k2)" "is_ack e a"
  shows "create_gtp5g_link nk udp_bind pid ifname port hashsize \<lparr>rxq = r, peer = k\<rparr> =
    Some (if e = 0 then Inr fd1 else Inl (errno_exception e), \<lparr>rxq = q, peer = k2\<rparr>)"
proof -
  have pid: "0 \<le> and pid 0xffff" "and pid 0xffff < 2 ^ 16"
    using take_bit_int_less_exp [of 16 pid] by (simp_all add: take_bit_eq_mask mask_eq_exp_minus_1)
  have flags: "or (or (or LINK_F_REQUEST LINK_F_ACK) NLM_F_CREATE) NLM_F_EXCL = 0x605"
    by (simp add: link_consts)
  have f: "fits 4 (16 + int (length payload))" "fits 2 16" "fits 2 0x605" "fits 4 (and pid 0xffff)" "fits 4 0"
    using assms(2) pid by (simp_all add: fits_def)
  show ?thesis
    using assms f unfolding create_gtp5g_link_def flags
    by (simp add: io_bind_cases open_udp_def io_lift_def open_netlink_def nl_send_def nl_recv_def Let_def
        int_bytes_def link_consts io_return_def io_raise_def del: le_bytes.simps struct_fields.simps)
      (simp add: is_ack_def struct_unpack_from_def calcsize_def nl_simps del: struct_fields.simps)
qed

subsection \<open>Properties\<close>

text \<open>
  C32. Creating the interface: with a bound UDP socket and arguments that fit, the script sends one
  RTM_NEWLINK request with the acknowledge, create and exclusive flags; its attributes decode to
  the interface name, the kind \<^verbatim>\<open>gtp5g\<close>, the descriptor of the bound socket and the hash size. It
  returns the socket exactly when the kernel acknowledges with error number zero, and raises the
  kernel's error otherwise. Arguments that do not fit raise \<^verbatim>\<open>struct.error\<close> and nothing is sent.
\<close>

theorem create_gtp5g_link_outcomes:
  assumes "0 \<le> port" and "port \<le> 65535" and "udp_bind port k = (Inr fd1, k1)"
    and "\<And>M. nk M k1 = (Inr [ack M], k2 M)" and "\<And>M. is_ack (verdict M) (ack M)"
  shows "if fits 4 fd1 \<and> fits 4 hashsize \<and> length (encode ifname) < 65531 then
      (\<exists>M. nlmsg_fields M = Some [int (length M), 16, 0x605, and pid 0xffff, 0] \<and> slice 16 32 M = replicate 16 0 \<and>
        decode_link (drop 32 M) = Some \<lparr>lr_name = Some (encode ifname @ [0]), lr_kind = Some (encode ''gtp5g'' @ [0]),
          lr_fd = Some fd1, lr_hashsize = Some hashsize\<rparr> \<and>
        create_gtp5g_link nk udp_bind pid ifname port hashsize \<lparr>rxq = r, peer = k\<rparr> =
          Some (if verdict M = 0 then Inr fd1 else Inl (errno_exception (verdict M)), \<lparr>rxq = [], peer = k2 M\<rparr>))
    else create_gtp5g_link nk udp_bind pid ifname port hashsize \<lparr>rxq = r, peer = k\<rparr> =
      Some (Inl StructError, \<lparr>rxq = r, peer = k1\<rparr>)"
proof (cases "fits 4 fd1 \<and> fits 4 hashsize \<and> length (encode ifname) < 65531")
  case True
  let ?attrs = "concat (map attr_bytes (link_list ifname fd1 hashsize))"
  let ?p = "replicate 16 0 @ ?attrs"
  define M where "M = le_bytes 4 (16 + int (length ?p)) @ le_bytes 2 16 @ le_bytes 2 0x605 @
    le_bytes 4 (and pid 0xffff) @ le_bytes 4 0 @ ?p"
  have len: "length ?attrs < 65600"
    using True length_info(2) [of fd1 hashsize] align4_facts(4) [of "length (encode ifname @ [0])"]
    by (simp add: link_list_def length_attr del: length_concat)
  have pid: "0 \<le> and pid 0xffff" "and pid 0xffff < 2 ^ 16"
    using take_bit_int_less_exp [of 16 pid] by (simp_all add: take_bit_eq_mask mask_eq_exp_minus_1)
  have run: "create_gtp5g_link nk udp_bind pid ifname port hashsize \<lparr>rxq = r, peer = k\<rparr> =
      Some (if verdict M = 0 then Inr fd1 else Inl (errno_exception (verdict M)), \<lparr>rxq = [], peer = k2 M\<rparr>)"
    by (rule link_send [where payload = ?p and a = "ack M" and ?k1.0 = k1 and udp_bind = udp_bind
        and nk = nk, OF _ _ assms(3,1,2)])
      (use True len assms(4,5) in \<open>simp_all add: link_payload_eq M_def del: le_bytes.simps length_concat\<close>)
  have fields: "nlmsg_fields M = Some [int (length M), 16, 0x605, and pid 0xffff, 0]"
    "slice 16 32 M = replicate 16 0" "drop 32 M = ?attrs"
    using len pid
    by (simp_all add: M_def nlmsg_fields_def slice_def bytes_int_def le_int_le_bytes fmt_read_def
        del: le_bytes.simps length_concat)
  have "decode_link (drop 32 M) = Some \<lparr>lr_name = Some (encode ifname @ [0]), lr_kind = Some (encode ''gtp5g'' @ [0]),
      lr_fd = Some fd1, lr_hashsize = Some hashsize\<rparr>"
    unfolding fields(3) using True by (intro decode_link_list) simp_all
  then show ?thesis
    unfolding if_P [OF True] by (intro exI [of _ M] conjI fields(1,2) run)
next
  case False
  have "link_payload ifname fd1 hashsize = Inl StructError" using False by (auto simp: link_payload_eq)
  with False assms(1-3) show ?thesis
    by (auto simp: create_gtp5g_link_def io_bind_cases open_udp_def io_lift_def)
qed

theorem create_gtp5g_link_outcomes_witness:
  "\<exists>M. decode_link (drop 32 M) = Some \<lparr>lr_name = Some (encode ''gtp5gtest0'' @ [0]), lr_kind = Some (encode ''gtp5g'' @ [0]),
       lr_fd = Some 5, lr_hashsize = Some 128\<rparr> \<and>
     create_gtp5g_link demo_nl_reject (\<lambda>port k. (Inr 5, k)) 1234 ''gtp5gtest0'' 2152 128 \<lparr>rxq = [], peer = ()\<rparr> =
       Some (Inl (OSError 22), \<lparr>rxq = [], peer = ()\<rparr>)"
proof -
  have "length (encode ''gtp5gtest0'') = 10" by code_simp
  moreover have "fits 4 5" "fits 4 128" by (simp_all add: fits_def)
  ultimately show ?thesis
    using create_gtp5g_link_outcomes [of 2152 "\<lambda>port k. (Inr 5, k)" "()" 5 "()" demo_nl_reject "\<lambda>M. demo_ack (- 22)" "\<lambda>M. ()"
        "\<lambda>M. - 22" 128 "''gtp5gtest0''" 1234 "[]"] demo_is_ack(2)
    by (auto simp: demo_nl_reject_def errno_exception_def)
qed

end
