(* ===== verification/Eupf_Bench.thy ===== *)
theory Eupf_Bench
  imports Agent_Http
begin

text \<open>
  \<^verbatim>\<open>results_native/eupf_comparison/bench_eupf_ruleupdate.py\<close>: the benchmark of eUPF's REST interface. The
  program runs in a state \<open>'s\<close> of the outside world; \<open>put\<close> performs a request (it raises what \<^verbatim>\<open>urlopen\<close>
  raises) and \<open>clock\<close> is \<^verbatim>\<open>time.monotonic_ns\<close>. The floating-point operations are parameters of a record:
  the two unit conversions, the mean, and the products of the three quantiles with \<open>n - 1\<close>.
\<close>

definition BASE :: string where
  "BASE = ''http://127.0.0.1:8080/api/v1''"

record http_request =
  rq_url :: string
  rq_body :: bytes
  rq_method :: string
  rq_type :: string

text \<open>\<^verbatim>\<open>json.dumps\<close> of a dictionary with string keys and integer values.\<close>

definition json_member :: "string \<times> int \<Rightarrow> string" where
  "json_member kv = [CHR 0x22] @ fst kv @ [CHR 0x22] @ '': '' @ str_int (snd kv)"

definition dumps_ints :: "(string \<times> int) list \<Rightarrow> string" where
  "dumps_ints kvs = ''{'' @ str_join '', '' (map json_member kvs) @ ''}''"

definition pdr_request :: "int \<Rightarrow> int \<Rightarrow> int \<Rightarrow> http_request" where
  "pdr_request pdr_id far_id qer_id =
     \<lparr>rq_url = BASE @ ''/uplink_pdr_map/'' @ str_int pdr_id,
      rq_body = encode (dumps_ints [(''id'', pdr_id), (''outer_header_removal'', 1), (''far_id'', far_id), (''qer_id'', qer_id)]),
      rq_method = ''PUT'', rq_type = ''application/json''\<rparr>"

definition put_pdr :: "(http_request \<Rightarrow> ('s, unit) py) \<Rightarrow> int \<Rightarrow> int \<Rightarrow> int \<Rightarrow> ('s, unit) py" where
  "put_pdr put pdr_id far_id qer_id = put (pdr_request pdr_id far_id qer_id)"

record 'f bench_floats =
  f_us :: "int \<Rightarrow> 'f"
  f_ms :: "int \<Rightarrow> 'f"
  f_mean :: "'f list \<Rightarrow> int \<Rightarrow> 'f"
  f_i50 :: "int \<Rightarrow> nat"
  f_i95 :: "int \<Rightarrow> nat"
  f_i99 :: "int \<Rightarrow> nat"

record 'f bench_line =
  rep_n :: int
  rep_total_ms :: 'f
  rep_mean_us :: 'f
  rep_min :: 'f
  rep_p50 :: 'f
  rep_p95 :: 'f
  rep_p99 :: 'f
  rep_max :: 'f

fun bench_loop :: "(http_request \<Rightarrow> ('s, unit) py) \<Rightarrow> ('s, int) py \<Rightarrow> (int \<Rightarrow> 'f) \<Rightarrow> int \<Rightarrow> int list \<Rightarrow> 'f list \<Rightarrow>
    ('s, 'f list) py" where
  "bench_loop put clock us base_id [] samples_us = py_return samples_us"
| "bench_loop put clock us base_id (i # is) samples_us =
     py_bind clock (\<lambda>s.
     py_bind (put_pdr put (base_id + i) 2 0) (\<lambda>_.
     py_bind clock (\<lambda>e.
     bench_loop put clock us base_id is (samples_us @ [us (e - s)]))))"

text \<open>The line printed at the end; its fields are evaluated from left to right.\<close>

definition bench_report :: "('f :: linorder) bench_floats \<Rightarrow> int \<Rightarrow> 'f \<Rightarrow> 'f \<Rightarrow> 'f list \<Rightarrow> 'f bench_line res" where
  "bench_report F n tot_ms mean_us ss =
     (let pct = (\<lambda>idx. py_index ss (idx (n - 1))) in
      res_bind (py_index ss 0) (\<lambda>lo.
      res_bind (pct (f_i50 F)) (\<lambda>p50.
      res_bind (pct (f_i95 F)) (\<lambda>p95.
      res_bind (pct (f_i99 F)) (\<lambda>p99.
      res_bind (py_index ss (length ss - 1)) (\<lambda>hi.
      Inr \<lparr>rep_n = n, rep_total_ms = tot_ms, rep_mean_us = mean_us, rep_min = lo, rep_p50 = p50,
        rep_p95 = p95, rep_p99 = p99, rep_max = hi\<rparr>))))))"

definition bench :: "('f :: linorder) bench_floats \<Rightarrow> (http_request \<Rightarrow> ('s, unit) py) \<Rightarrow> ('s, int) py \<Rightarrow> int \<Rightarrow> int \<Rightarrow>
    ('s, 'f bench_line \<times> 'f list) py" where
  "bench F put clock n base_id =
     py_bind clock (\<lambda>t_start.
     py_bind (bench_loop put clock (f_us F) base_id (py_range n) []) (\<lambda>samples_us.
     py_bind clock (\<lambda>t_end.
     let tot_ms = f_ms F (t_end - t_start) in
     py_bind (py_lift (if n = 0 then Inl ZeroDivisionError else Inr (f_mean F samples_us n))) (\<lambda>mean_us.
     py_bind (py_lift (bench_report F n tot_ms mean_us (sort samples_us))) (\<lambda>report.
     py_return (report, samples_us))))))"

text \<open>The command line: the first argument, or 100.\<close>

definition bench_main :: "('f :: linorder) bench_floats \<Rightarrow> (http_request \<Rightarrow> ('s, unit) py) \<Rightarrow> ('s, int) py \<Rightarrow> string list \<Rightarrow>
    ('s, 'f bench_line \<times> 'f list) py" where
  "bench_main F put clock argv =
     py_bind (py_lift (if length argv > 1 then int10 (argv ! 1) else Inr 100)) (\<lambda>n. bench F put clock n 20000)"

subsection \<open>A server and what happens at it\<close>

text \<open>
  A server and a clock on a state \<open>'k\<close>, with the record of a run: the clock readings, and the requests with the server's answer.
  The quantile products are relied on for valid, ordered indices.
\<close>

datatype bench_event = Tick int | Request http_request "unit res"

definition sent_to :: "(http_request \<Rightarrow> 'k \<Rightarrow> unit res \<times> 'k) \<Rightarrow> http_request \<Rightarrow> ('k \<times> bench_event list, unit) py" where
  "sent_to srv rq ks = (case srv rq (fst ks) of (r, k') \<Rightarrow> (r, (k', snd ks @ [Request rq r])))"

definition clock_of :: "('k \<Rightarrow> int \<times> 'k) \<Rightarrow> ('k \<times> bench_event list, int) py" where
  "clock_of clk ks = (case clk (fst ks) of (t, k') \<Rightarrow> (Inr t, (k', snd ks @ [Tick t])))"

definition quantile_laws :: "'f bench_floats \<Rightarrow> bool" where
  "quantile_laws F \<longleftrightarrow> (\<forall>m \<ge> 0. f_i50 F m \<le> f_i95 F m \<and> f_i95 F m \<le> f_i99 F m \<and> int (f_i99 F m) \<le> m)"

text \<open>
  The record of updates that the server has accepted, between the clock readings \<open>ts\<close>; the sample of an update; and the
  report of samples.
\<close>

definition accepted_updates :: "int \<Rightarrow> int list \<Rightarrow> (int \<times> int) list \<Rightarrow> bench_event list" where
  "accepted_updates base is ts = concat (map2 (\<lambda>i (s, e).
     [Tick s, Request (pdr_request (base + i) 2 0) (Inr ()), Tick e]) is ts)"

definition samples_of :: "(int \<Rightarrow> 'f) \<Rightarrow> (int \<times> int) list \<Rightarrow> 'f list" where
  "samples_of us = map (\<lambda>(s, e). us (e - s))"

definition report_of :: "('f :: linorder) bench_floats \<Rightarrow> int \<Rightarrow> int \<Rightarrow> 'f list \<Rightarrow> 'f bench_line" where
  "report_of F n elapsed vs =
     \<lparr>rep_n = n, rep_total_ms = f_ms F elapsed, rep_mean_us = f_mean F vs n, rep_min = sort vs ! 0,
      rep_p50 = sort vs ! f_i50 F (n - 1), rep_p95 = sort vs ! f_i95 F (n - 1),
      rep_p99 = sort vs ! f_i99 F (n - 1), rep_max = sort vs ! (length vs - 1)\<rparr>"

definition ordered_report :: "('f :: linorder) bench_line \<Rightarrow> bool" where
  "ordered_report rep \<longleftrightarrow> rep_min rep \<le> rep_p50 rep \<and> rep_p50 rep \<le> rep_p95 rep \<and> rep_p95 rep \<le> rep_p99 rep \<and>
     rep_p99 rep \<le> rep_max rep"

lemma clock_of_run: obtains t k' where "clock_of clk (k, log) = (Inr t, (k', log @ [Tick t]))"
  by (cases "clk k") (simp add: clock_of_def)

lemma accepted_Cons [simp]:
  "accepted_updates base (i # is) ((s, e) # ts) =
     Tick s # Request (pdr_request (base + i) 2 0) (Inr ()) # Tick e # accepted_updates base is ts"
  by (simp add: accepted_updates_def)

lemma accepted_Nil [simp]: "accepted_updates base [] ts = []" "accepted_updates base is [] = []"
  by (simp_all add: accepted_updates_def)

lemma bench_loop_run:
  "\<exists>r k' evs. bench_loop (sent_to srv) (clock_of clk) us base is ss (k, log) = (r, (k', log @ evs)) \<and>
     (case r of
        Inr vs \<Rightarrow> \<exists>ts. length ts = length is \<and> evs = accepted_updates base is ts \<and> vs = ss @ samples_of us ts
      | Inl x \<Rightarrow> \<exists>ts s. length ts < length is \<and> evs = accepted_updates base (take (length ts) is) ts @
          [Tick s, Request (pdr_request (base + is ! length ts) 2 0) (Inl x)])"
proof (induction "is" arbitrary: ss k log)
  case Nil
  show ?case by (simp add: py_simps samples_of_def)
next
  case (Cons i "is")
  let ?rq = "pdr_request (base + i) 2 0"
  obtain s k1 where 1: "clock_of clk (k, log) = (Inr s, (k1, log @ [Tick s]))" by (rule clock_of_run)
  obtain r2 k2 where 2: "srv ?rq k1 = (r2, k2)" by (rule prod.exhaust)
  then have put: "put_pdr (sent_to srv) (base + i) 2 0 (k1, log @ [Tick s]) = (r2, (k2, log @ [Tick s, Request ?rq r2]))"
    by (simp add: put_pdr_def sent_to_def)
  show ?case
  proof (cases r2)
    case (Inl x)
    with 1 put show ?thesis
      by (intro exI [of _ "Inl x"] exI [of _ k2] exI [of _ "[Tick s, Request ?rq (Inl x)]"])
        (auto simp: py_simps intro!: exI [of _ "[]"])
  next
    case (Inr u)
    let ?log = "log @ [Tick s, Request ?rq (Inr ())]"
    obtain e k3 where 3: "clock_of clk (k2, ?log) = (Inr e, (k3, ?log @ [Tick e]))" by (rule clock_of_run)
    obtain r k' evs where
      IH: "bench_loop (sent_to srv) (clock_of clk) us base is (ss @ [us (e - s)]) (k3, ?log @ [Tick e]) =
        (r, (k', (?log @ [Tick e]) @ evs))" and
      out: "case r of
        Inr vs \<Rightarrow> \<exists>ts. length ts = length is \<and> evs = accepted_updates base is ts \<and> vs = (ss @ [us (e - s)]) @ samples_of us ts
      | Inl x \<Rightarrow> \<exists>ts s. length ts < length is \<and> evs = accepted_updates base (take (length ts) is) ts @
          [Tick s, Request (pdr_request (base + is ! length ts) 2 0) (Inl x)]"
      using Cons.IH [of "ss @ [us (e - s)]" k3 "?log @ [Tick e]"] by blast
    have run: "bench_loop (sent_to srv) (clock_of clk) us base (i # is) ss (k, log) =
        (r, (k', log @ Tick s # Request ?rq (Inr ()) # Tick e # evs))"
      using IH 1 put Inr 3 by (simp add: py_simps)
    show ?thesis
    proof (cases r)
      case (Inl x)
      with out obtain ts s' where "length ts < length is" "evs = accepted_updates base (take (length ts) is) ts @
          [Tick s', Request (pdr_request (base + is ! length ts) 2 0) (Inl x)]" by auto
      with run Inl show ?thesis
        by (intro exI [of _ r] exI [of _ k'] exI [of _ "Tick s # Request ?rq (Inr ()) # Tick e # evs"])
          (auto intro!: exI [of _ "(s, e) # ts"])
    next
      case (Inr vs)
      with out obtain ts where "length ts = length is" "evs = accepted_updates base is ts"
        "vs = (ss @ [us (e - s)]) @ samples_of us ts" by auto
      with run Inr show ?thesis
        by (intro exI [of _ r] exI [of _ k'] exI [of _ "Tick s # Request ?rq (Inr ()) # Tick e # evs"])
          (auto simp: samples_of_def intro!: exI [of _ "(s, e) # ts"])
    qed
  qed
qed

lemma bench_report_ordered:
  assumes "quantile_laws F" "length vs = nat n" "1 \<le> n"
  shows "bench_report F n (f_ms F d) (f_mean F vs n) (sort vs) = Inr (report_of F n d vs)"
    and "ordered_report (report_of F n d vs)"
proof -
  have i: "f_i50 F (n - 1) \<le> f_i95 F (n - 1)" "f_i95 F (n - 1) \<le> f_i99 F (n - 1)" "f_i99 F (n - 1) < length vs"
  proof -
    have "0 \<le> n - 1" using assms(3) by simp
    with assms(1) have "f_i50 F (n - 1) \<le> f_i95 F (n - 1) \<and> f_i95 F (n - 1) \<le> f_i99 F (n - 1) \<and>
        int (f_i99 F (n - 1)) \<le> n - 1" unfolding quantile_laws_def by blast
    with assms(2,3) show "f_i50 F (n - 1) \<le> f_i95 F (n - 1)" "f_i95 F (n - 1) \<le> f_i99 F (n - 1)"
      "f_i99 F (n - 1) < length vs" by linarith+
  qed
  have len: "0 < length vs" using assms(2,3) by simp
  have m: "sort vs ! a \<le> sort vs ! b" if "a \<le> b" "b < length vs" for a b
    using that by (intro sorted_nth_mono) simp_all
  show "bench_report F n (f_ms F d) (f_mean F vs n) (sort vs) = Inr (report_of F n d vs)"
    using i len by (simp add: bench_report_def py_index_def report_of_def Let_def)
  show "ordered_report (report_of F n d vs)"
    using i len m by (simp add: ordered_report_def report_of_def)
qed

lemma bench_report_empty: "bench_report F n tot_ms mean [] = Inl IndexError"
  by (simp add: bench_report_def py_index_def Let_def)

lemma take_py_range: "j < nat n \<Longrightarrow> take j (py_range n) = py_range (int j) \<and> py_range n ! j = int j"
  by (simp add: py_range_def take_map)

subsection \<open>Property\<close>

text \<open>
  C36. A run of the benchmark against any server, by the record of the clock readings, the requests and the server's answers.
  When it returns, \<open>n\<close> is positive and the record is a first reading, then for each PDR from \<open>base\<close> on, once and in order, its
  update (FAR 2, no QER) accepted by the server between two readings, and a last reading; the samples returned are the
  differences of the readings, and the report has the time from the first to the last reading, the mean, and the elements of the sorted samples at the
  ends and at the positions of the quantiles, in order. When the server refuses an update, the exception leaves \<^verbatim>\<open>bench\<close>, there is no report, all updates
  before were accepted, and nothing is sent or read afterwards. Otherwise \<open>n\<close> is zero
  (\<^verbatim>\<open>ZeroDivisionError\<close> from the mean) or negative (\<^verbatim>\<open>IndexError\<close> from the minimum) and nothing is sent.
\<close>

theorem bench_outcomes:
  assumes "quantile_laws F"
  shows "\<exists>r k' evs. bench F (sent_to srv) (clock_of clk) n base (k, log) = (r, (k', log @ evs)) \<and>
    (case r of
       Inr (rep, samples) \<Rightarrow> 1 \<le> n \<and> (\<exists>t0 ts t1. length ts = nat n \<and>
         evs = Tick t0 # accepted_updates base (py_range n) ts @ [Tick t1] \<and>
         samples = map (\<lambda>(s, e). f_us F (e - s)) ts \<and>
         rep = \<lparr>rep_n = n, rep_total_ms = f_ms F (t1 - t0), rep_mean_us = f_mean F samples n, rep_min = sort samples ! 0,
           rep_p50 = sort samples ! f_i50 F (n - 1), rep_p95 = sort samples ! f_i95 F (n - 1),
           rep_p99 = sort samples ! f_i99 F (n - 1), rep_max = sort samples ! (length samples - 1)\<rparr> \<and>
         ordered_report rep)
     | Inl x \<Rightarrow>
         (\<exists>t0 ts s. length ts < nat n \<and> evs = Tick t0 # accepted_updates base (py_range (int (length ts))) ts @
           [Tick s, Request (pdr_request (base + int (length ts)) 2 0) (Inl x)]) \<or>
         n \<le> 0 \<and> x = (if n = 0 then ZeroDivisionError else IndexError) \<and> (\<exists>t0 t1. evs = [Tick t0, Tick t1]))"
proof -
  obtain t k1 where 1: "clock_of clk (k, log) = (Inr t, (k1, log @ [Tick t]))" by (rule clock_of_run)
  have len: "length (py_range n) = nat n" by (simp add: py_range_def)
  obtain r k2 evs where 2: "bench_loop (sent_to srv) (clock_of clk) (f_us F) base (py_range n) [] (k1, log @ [Tick t]) =
      (r, (k2, (log @ [Tick t]) @ evs))" and
    out: "case r of
        Inr vs \<Rightarrow> \<exists>ts. length ts = nat n \<and> evs = accepted_updates base (py_range n) ts \<and> vs = [] @ samples_of (f_us F) ts
      | Inl x \<Rightarrow> \<exists>ts s. length ts < nat n \<and> evs = accepted_updates base (take (length ts) (py_range n)) ts @
          [Tick s, Request (pdr_request (base + py_range n ! length ts) 2 0) (Inl x)]"
    using bench_loop_run [of srv clk "f_us F" base "py_range n" "[]" k1 "log @ [Tick t]"] unfolding len by blast
  show ?thesis
  proof (cases r)
    case (Inl x)
    with out obtain ts s where "length ts < nat n" "evs = accepted_updates base (take (length ts) (py_range n)) ts @
          [Tick s, Request (pdr_request (base + py_range n ! length ts) 2 0) (Inl x)]" by auto
    with 1 2 Inl take_py_range [of "length ts" n] show ?thesis
      by (intro exI [of _ "Inl x"] exI [of _ k2] exI [of _ "Tick t # evs"]) (auto simp: bench_def py_simps)
  next
    case (Inr vs)
    with out obtain ts where ts: "length ts = nat n" "evs = accepted_updates base (py_range n) ts" "vs = samples_of (f_us F) ts"
      by auto
    let ?log = "log @ Tick t # evs"
    obtain t' k3 where 3: "clock_of clk (k2, ?log) = (Inr t', (k3, ?log @ [Tick t']))" by (rule clock_of_run)
    have run: "bench F (sent_to srv) (clock_of clk) n base (k, log) =
        (case if n = 0 then Inl ZeroDivisionError
           else bench_report F n (f_ms F (t' - t)) (f_mean F vs n) (sort vs) of
           Inl e \<Rightarrow> (Inl e, (k3, ?log @ [Tick t'])) | Inr rep \<Rightarrow> (Inr (rep, vs), (k3, ?log @ [Tick t'])))"
      using 1 2 3 Inr by (simp add: bench_def py_simps py_bind_def py_lift_def py_return_def split: sum.splits)
    show ?thesis
    proof (cases "1 \<le> n")
      case True
      have vs: "length vs = nat n" using ts by (simp add: samples_of_def)
      note rep = bench_report_ordered [OF assms vs True, of "t' - t"]
      show ?thesis
        by (rule exI [of _ "Inr (report_of F n (t' - t) vs, vs)"], rule exI [of _ k3], rule exI [of _ "Tick t # evs @ [Tick t']"])
          (use True run rep ts in \<open>auto simp: report_of_def samples_of_def\<close>)
    qed (use run ts in \<open>auto simp: bench_report_empty samples_of_def\<close>)
  qed
qed

definition demo_floats :: "int bench_floats" where
  "demo_floats = \<lparr>f_us = id, f_ms = id, f_mean = \<lambda>vs n. sum_list vs div n, f_i50 = \<lambda>m. nat (m div 2),
     f_i95 = \<lambda>m. nat (m * 95 div 100), f_i99 = \<lambda>m. nat (m * 99 div 100)\<rparr>"

text \<open>A server that accepts the first requests only.\<close>

definition demo_server :: "int \<Rightarrow> http_request \<Rightarrow> int \<Rightarrow> unit res \<times> int" where
  "demo_server limit rq k = (if k < limit then (Inr (), k + 1) else (Inl (OSError 111), k))"

theorem bench_outcomes_witness:
  "(\<exists>k' t0 ts t1 rep samples. bench demo_floats (sent_to (demo_server 100)) (clock_of (\<lambda>k. (k, k))) 3 20000 (0, []) =
      (Inr (rep, samples), (k', Tick t0 # accepted_updates 20000 (py_range 3) ts @ [Tick t1])) \<and>
      length ts = 3 \<and> length samples = 3 \<and> ordered_report rep) \<and>
   (\<exists>k' t0 ts s. bench demo_floats (sent_to (demo_server 1)) (clock_of (\<lambda>k. (k, k))) 3 20000 (0, []) =
      (Inl (OSError 111), (k', Tick t0 # accepted_updates 20000 (py_range (int (length ts))) ts @
         [Tick s, Request (pdr_request (20000 + int (length ts)) 2 0) (Inl (OSError 111))])) \<and> length ts < 3)"
  (is "?three \<and> ?refused")
proof
  have laws: "quantile_laws demo_floats" by (auto simp: quantile_laws_def demo_floats_def)
  note run = bench_outcomes [OF laws, of _ "\<lambda>k. (k, k)" 3 20000 0 "[]"]
  have range: "py_range 3 = [0, 1, 2]" by (simp add: py_range_def upt_conv_Cons)
  note eval = bench_def py_simps range sent_to_def clock_of_def put_pdr_def demo_server_def
  have three: "\<exists>y. fst (bench demo_floats (sent_to (demo_server 100)) (clock_of (\<lambda>k. (k, k))) 3 20000 (0, [])) = Inr y"
    by (simp add: eval bench_report_def py_index_def demo_floats_def)
  obtain k' t0 ts t1 rep samples where "bench demo_floats (sent_to (demo_server 100)) (clock_of (\<lambda>k. (k, k))) 3 20000 (0, []) =
      (Inr (rep, samples), (k', Tick t0 # accepted_updates 20000 (py_range 3) ts @ [Tick t1]))"
      "length ts = nat 3" "samples = map (\<lambda>(s, e). f_us demo_floats (e - s)) ts" "ordered_report rep"
    using run [of "demo_server 100"] three by (elim exE conjE) (auto split: sum.splits prod.splits simp del: nat_numeral)
  then show ?three by auto
  have refused: "fst (bench demo_floats (sent_to (demo_server 1)) (clock_of (\<lambda>k. (k, k))) 3 20000 (0, [])) = Inl (OSError 111)"
    by (simp add: eval)
  show ?refused using run [of "demo_server 1"] refused by (elim exE conjE) (auto split: sum.splits)
qed

end
