(* ===== verification/Pfcp_Session.thy ===== *)
theory Pfcp_Session
  imports Py_Text
begin

text \<open>
  \<^verbatim>\<open>results_native/eupf_comparison/pfcp_session_establish.py\<close>: the session request of the comparison with
  eUPF. A scapy object is its class with the fields given and the elements of its \<^verbatim>\<open>IE_list\<close>; the encoding of a
  message and the dissection of a response belong to scapy and are parameters, as is the socket. What is
  printed is returned.
\<close>

subsection \<open>The message\<close>

datatype ie_field = FInt int | FText string

datatype ie = IE (ie_class: string) (ie_fields: "(string \<times> ie_field) list") (IE_list: "ie list")

record pfcp_message =
  pf_header :: "(string \<times> ie_field) list"
  pf_class :: string
  pf_ies :: "ie list"

definition create_far :: ie where
  "create_far = IE ''CreateFAR'' []
     [IE ''ApplyAction'' [(''FORW'', FInt 1)] [],
      IE ''FAR_Id'' [(''id'', FInt 2)] [],
      IE ''ForwardingParameters'' []
        [IE ''DestinationInterface'' [(''interface'', FText ''Access'')] [],
         IE ''NetworkInstance'' [(''instance'', FText ''access'')] []]]"

definition create_pdr :: ie where
  "create_pdr = IE ''CreatePDR'' []
     [IE ''FAR_Id'' [(''id'', FInt 2)] [],
      IE ''OuterHeaderRemoval'' [(''header'', FText ''GTP-U/UDP/IPv4'')] [],
      IE ''PDI'' []
        [IE ''FTEID'' [(''V4'', FInt 1), (''TEID'', FInt 0x00001001), (''ipv4'', FText ''10.99.0.1'')] [],
         IE ''NetworkInstance'' [(''instance'', FText ''access'')] [],
         IE ''SourceInterface'' [(''interface'', FText ''Access'')] []],
      IE ''PDR_Id'' [(''id'', FInt 2)] [],
      IE ''Precedence'' [(''precedence'', FInt 100)] []]"

definition sess_est :: pfcp_message where
  "sess_est = \<lparr>pf_header = [(''version'', FInt 1), (''S'', FInt 1), (''seq'', FInt 10), (''seid'', FInt 0), (''spare_oct'', FInt 0)],
     pf_class = ''PFCPSessionEstablishmentRequest'',
     pf_ies = [create_far, create_pdr,
       IE ''FSEID'' [(''v4'', FInt 1), (''seid'', FInt 0x2), (''ipv4'', FText ''127.0.0.1'')] [],
       IE ''NodeId'' [(''id_type'', FText ''FQDN''), (''id'', FText ''test-smf'')] []]\<rparr>"

subsection \<open>The exchange\<close>

datatype received = Received bytes | Timed_out | Recv_failed py_error

record ('s, 'p) pfcp_env =
  pc_bytes :: "pfcp_message \<Rightarrow> bytes"
  pc_dissect :: "bytes \<Rightarrow> 'p res"
  pc_message_type :: "'p \<Rightarrow> int"
  pc_bind :: "string \<times> int \<Rightarrow> ('s, unit) py"
  pc_sendto :: "bytes \<Rightarrow> string \<times> int \<Rightarrow> ('s, unit) py"
  pc_settimeout :: "int \<Rightarrow> ('s, unit) py"
  pc_recvfrom :: "int \<Rightarrow> 's \<Rightarrow> received \<times> 's"
  pc_close :: "('s, unit) py"

definition UPF_ADDR :: "string \<times> int" where
  "UPF_ADDR = (''127.0.0.1'', 8805)"

text \<open>The result together with the line printed.\<close>

definition pfcp_send_recv :: "('s, 'p) pfcp_env \<Rightarrow> pfcp_message \<Rightarrow> string \<Rightarrow> ('s, 'p option \<times> string) py" where
  "pfcp_send_recv E pkt label =
     py_bind (pc_sendto E (pc_bytes E pkt) UPF_ADDR) (\<lambda>_.
     py_bind (pc_settimeout E 3) (\<lambda>_ s.
     case pc_recvfrom E 4096 s of
       (Timed_out, s') \<Rightarrow> (Inr (None, label @ '': TIMEOUT''), s')
     | (Recv_failed e, s') \<Rightarrow> (Inl e, s')
     | (Received data, s') \<Rightarrow>
         py_bind (py_lift (pc_dissect E data)) (\<lambda>resp.
         py_return (Some resp, label @ '': response type='' @ str_int (pc_message_type E resp))) s'))"

definition pfcp_main :: "('s, 'p) pfcp_env \<Rightarrow> ('s, string) py" where
  "pfcp_main E =
     py_bind (pc_bind E (''0.0.0.0'', 0)) (\<lambda>_.
     py_bind (pfcp_send_recv E sess_est ''SessionEstablishmentRequest(plain-forward)'') (\<lambda>(_, line).
     py_bind (pc_close E) (\<lambda>_.
     py_return line)))"

subsection \<open>What the request asks for\<close>

text \<open>The elements of a class in a list, and a field of the first one.\<close>

definition ies_of :: "string \<Rightarrow> ie list \<Rightarrow> ie list" where
  "ies_of c es = filter (\<lambda>e. ie_class e = c) es"

definition field_of :: "string \<Rightarrow> string \<Rightarrow> ie list \<Rightarrow> ie_field option" where
  "field_of c f es = (case ies_of c es of [] \<Rightarrow> None | e # _ \<Rightarrow> map_of (ie_fields e) f)"

text \<open>
  A request is closed when every PDR refers to a FAR that the same request creates, and neither two PDRs nor
  two FARs have the same number.
\<close>

definition request_closed :: "pfcp_message \<Rightarrow> bool" where
  "request_closed m \<longleftrightarrow>
     (let ids = (\<lambda>c f. map (field_of f ''id'' \<circ> IE_list) (ies_of c (pf_ies m))) in
      set (ids ''CreatePDR'' ''FAR_Id'') \<subseteq> set (ids ''CreateFAR'' ''FAR_Id'') \<and> None \<notin> set (ids ''CreatePDR'' ''FAR_Id'') \<and>
      distinct (ids ''CreatePDR'' ''PDR_Id'') \<and> distinct (ids ''CreateFAR'' ''FAR_Id''))"

lemma sess_est_closed: "request_closed sess_est"
  by (simp add: request_closed_def sess_est_def create_pdr_def create_far_def ies_of_def field_of_def)

text \<open>
  On a socket that works the script sends the request once, to the UPF, waits at most three seconds, and prints
  the type of a response or \<^verbatim>\<open>TIMEOUT\<close>; a failing socket or an answer that scapy refuses ends
  it with that exception and the socket is not closed.
\<close>

lemma pfcp_main_outcomes:
  assumes "pc_bind E (''0.0.0.0'', 0) s = (Inr (), s1)"
    and "pc_sendto E (pc_bytes E sess_est) (''127.0.0.1'', 8805) s1 = (Inr (), s2)"
    and "pc_settimeout E 3 s2 = (Inr (), s3)" and "\<And>s. pc_close E s = (Inr (), closed s)"
    and "pc_recvfrom E 4096 s3 = (r, s4)"
  shows "pfcp_main E s = (case r of
      Timed_out \<Rightarrow> (Inr ''SessionEstablishmentRequest(plain-forward): TIMEOUT'', closed s4)
    | Recv_failed e \<Rightarrow> (Inl e, s4)
    | Received data \<Rightarrow> (case pc_dissect E data of
          Inl e \<Rightarrow> (Inl e, s4)
        | Inr p \<Rightarrow> (Inr (''SessionEstablishmentRequest(plain-forward): response type='' @ str_int (pc_message_type E p)), closed s4)))"
  using assms
  by (cases r) (auto simp: pfcp_main_def pfcp_send_recv_def UPF_ADDR_def py_bind_def py_lift_def py_return_def split: sum.splits)

end
