(* ===== verification/Toggle_Bundle.thy ===== *)
theory Toggle_Bundle
  imports Upf_Pipeline
begin

text \<open>
  \<^verbatim>\<open>test/toggle_bundle.py\<close>: the driver of the consistency experiment, which commits the two rule pairs to
  one PDR in turn until its time is up. \<open>now i\<close> is the \<open>i\<close>-th value of \<^verbatim>\<open>time.monotonic\<close>. The loop ends when
  the clock says so, so it is a partial function; that it always returns is proved. The experiment
  as a whole is this driver, the packets that \<^verbatim>\<open>upf_tc_ingress\<close> decides meanwhile, and \<^verbatim>\<open>analyze.py\<close>.
\<close>

definition toggle_pdr :: int where
  "toggle_pdr = 0x2000"

definition toggle_pairs :: "(int \<times> int) list" where
  "toggle_pairs = [(1, 1), (3, 3)]"

text \<open>The loop variables are \<open>i\<close>, \<open>count\<close> and \<open>gen\<close>; \<open>reads\<close> counts the clock reads.\<close>

partial_function (option) toggle_loop :: "(nat \<Rightarrow> 't :: linorder) \<Rightarrow> 'k bpf_sys \<Rightarrow> 't \<Rightarrow> nat \<Rightarrow> int \<Rightarrow> int \<Rightarrow> int option \<Rightarrow>
    'k world \<Rightarrow> ((int \<times> int option) res \<times> 'k world) option" where
  "toggle_loop now sys t_end reads i count gen w =
     (if now reads < t_end
      then (case toggle_pairs ! nat (i mod 2) of (far_id, qer_id) \<Rightarrow>
         (case modify_tc_bundle sys toggle_pdr (Some far_id) (Some qer_id) None None w of
            (Inl e, w') \<Rightarrow> Some (Inl e, w')
          | (Inr g, w') \<Rightarrow> toggle_loop now sys t_end (Suc reads) (i + 1) (count + 1) (Some g) w'))
      else Some (Inr (count, gen), w))"

definition toggle_main :: "(nat \<Rightarrow> 't :: {linorder, plus}) \<Rightarrow> 'k bpf_sys \<Rightarrow> 't \<Rightarrow> 'k world \<Rightarrow>
    ((int \<times> int option) res \<times> 'k world) option" where
  "toggle_main now sys duration w = toggle_loop now sys (now 0 + duration) 1 0 0 None w"

subsection \<open>The slot after some toggles\<close>

fun toggled :: "tc_bundle_slot \<Rightarrow> nat \<Rightarrow> tc_bundle_slot" where
  "toggled s0 0 = s0"
| "toggled s0 (Suc k) = (case toggle_pairs ! (k mod 2) of (far_id, qer_id) \<Rightarrow>
     modified_slot (Some far_id) (Some qer_id) None None (toggled s0 k))"

definition pair_after :: "nat \<Rightarrow> int \<times> int" where
  "pair_after k = (if odd k then (1, 1) else (3, 3))"

lemma toggle_pair: "toggle_pairs ! nat (int k mod 2) = pair_after (Suc k)" "toggle_pairs ! (k mod 2) = pair_after (Suc k)"
proof -
  show *: "toggle_pairs ! (k mod 2) = pair_after (Suc k)"
    by (cases "even k") (auto simp: toggle_pairs_def pair_after_def elim!: evenE oddE)
  have "nat (int k mod 2) = k mod 2" by (simp add: nat_mod_as_int)
  with * show "toggle_pairs ! nat (int k mod 2) = pair_after (Suc k)" by simp
qed

lemma modified_generation: "in_u32 (uint (slot_generation s) + 1) \<Longrightarrow>
    uint (slot_generation (modified_slot far qer urr prec s)) = uint (slot_generation s) + 1"
  unfolding modified_slot_def mk_slot_def by (simp only: tc_bundle_slot.simps uint_word_of_int_u32)

lemma toggled_pair: "0 < k \<Longrightarrow> (uint (slot_far_id (toggled s0 k)), uint (slot_qer_id (toggled s0 k))) = pair_after k"
  by (cases k) (auto simp: toggle_pair pair_after_def modified_slot_def mk_slot_def or_else_def)

lemma toggled_generation:
  "uint (slot_generation s0) + int k < 2 ^ 32 \<Longrightarrow> uint (slot_generation (toggled s0 k)) = uint (slot_generation s0) + int k"
proof (induction k)
  case (Suc k)
  then have "in_u32 (uint (slot_generation (toggled s0 k)) + 1)" by (simp add: in_u32_def)
  with Suc show ?case by (simp add: modified_generation split: prod.splits)
qed simp

lemma toggle_fits:
  "modify_fits (Some (fst (pair_after (Suc k)))) (Some (snd (pair_after (Suc k)))) None None s \<longleftrightarrow>
    in_u32 (uint (slot_generation s) + 1)"
  by (auto simp: modify_fits_def or_else_def pair_after_def in_u32_def [of 1] in_u32_def [of 3])

text \<open>What a packet can be decided by: one of the tuples from toggle \<open>a\<close> to toggle \<open>b\<close>.\<close>

definition decided_between :: "tc_bundle_slot \<Rightarrow> nat \<Rightarrow> nat \<Rightarrow> rule_tables \<Rightarrow> bool" where
  "decided_between s0 a b T \<longleftrightarrow>
     (\<exists>j. a \<le> j \<and> j \<le> b \<and> packet_decision T (word_of_int toggle_pdr) = Some (decision (toggled s0 j)))"

lemma decided_between_mono: "decided_between s0 a b T \<Longrightarrow> a' \<le> a \<Longrightarrow> b \<le> b' \<Longrightarrow> decided_between s0 a' b' T"
  unfolding decided_between_def by (meson order_trans)

context bpf_kernel
begin

text \<open>
  From the state after \<open>k\<close> toggles the loop returns after \<open>k'\<close>, when the clock stops it or the
  generation does not fit 32 bits any more.
\<close>

lemma toggle_loop_returns:
  assumes "tr_ok w" "tc_bundle_map (tr_tabs w) (word_of_int toggle_pdr) = Some b" "active_slot b = toggled s0 k"
    "uint (slot_generation s0) + int k < 2 ^ 32"
  shows "\<exists>k' r w' obs. k \<le> k' \<and> uint (slot_generation s0) + int k' < 2 ^ 32 \<and>
    toggle_loop now (traced sys) t_end (Suc k) (int k) (int k) gen w = Some (r, w') \<and>
    (\<forall>j. k \<le> j \<and> j < k' \<longrightarrow> now (Suc j) < t_end) \<and>
    (if now (Suc k') < t_end then uint (slot_generation s0) + int k' = 2 ^ 32 - 1 \<and> r = Inl StructError
     else r = Inr (int k', if k' = k then gen else Some (uint (slot_generation s0) + int k'))) \<and>
    observed view w' = observed view w @ obs \<and> (\<forall>A \<in> set obs. decided_between s0 k k' (tables_of A)) \<and>
    decided_between s0 k' k' (tr_tabs w')"
  using assms
proof (induction "nat (2 ^ 32 - uint (slot_generation s0)) - k" arbitrary: k w b gen rule: less_induct)
  case less
  let ?p = "word_of_int toggle_pdr :: u32"
  have p: "in_u32 toggle_pdr" by (simp add: toggle_pdr_def in_u32_def)
  have now_dec: "packet_decision (tr_tabs w) ?p = Some (decision (toggled s0 k))"
    using less.prems(2,3) by (simp add: packet_decision_def)
  then have here: "decided_between s0 k k (tr_tabs w)" by (auto simp: decided_between_def)
  obtain f q where fq: "pair_after (Suc k) = (f, q)" by (rule prod.exhaust)
  have gen: "uint (slot_generation (active_slot b)) = uint (slot_generation s0) + int k"
    using toggled_generation less.prems(3,4) by simp
  consider "\<not> now (Suc k) < t_end"
    | "now (Suc k) < t_end" "uint (slot_generation s0) + int k = 2 ^ 32 - 1"
    | "now (Suc k) < t_end" "uint (slot_generation s0) + int (Suc k) < 2 ^ 32"
    using less.prems(4) by fastforce
  then show ?case
  proof cases
    case 1
    with here less.prems(4) show ?thesis
      by (intro exI [of _ k] exI [of _ "Inr (int k, gen)"] exI [of _ w] exI [of _ "[]"])
        (auto simp: toggle_loop.simps [of now])
  next
    case 2
    have "\<not> modify_fits (Some f) (Some q) None None (active_slot b)"
      using toggle_fits [of k] fq gen 2(2) by (simp add: in_u32_def)
    then obtain raw w1 where m: "modify_tc_bundle (traced sys) toggle_pdr (Some f) (Some q) None None w = (Inl StructError, w1)"
      and l: "pmc_lookup (traced sys) ''tc_bundle_map'' (key32 ?p) 56 w = (Inr raw, w1)"
      and r1: "rules (view \<circ> fst) w1 = rules (view \<circ> fst) w"
      by (rule bpf_kernel.modify_unfit [OF traced_kernel less.prems(1) p less.prems(2)])
    obtain obs where "observed view w1 = observed view w @ obs" "set obs \<subseteq> {rules (view \<circ> fst) w}"
      using pmc_commit(2) [OF less.prems(1) upf_defs_simps(5) l] r1 by (auto simp: one_commit_def)
    moreover have "tr_tabs w1 = tr_tabs w" using r1 by (simp add: tabs_def)
    ultimately show ?thesis using 2 m here fq toggle_pair(1) [of k] less.prems(4)
      by (intro exI [of _ k] exI [of _ "Inl StructError"] exI [of _ w1] exI [of _ obs])
        (auto simp: toggle_loop.simps [of now] tabs_def)
  next
    case 3
    have fits: "modify_fits (Some f) (Some q) None None (active_slot b)"
      using toggle_fits [of k] fq gen 3(2) by (simp add: in_u32_def)
    obtain w1 pre where m: "modify_tc_bundle (traced sys) toggle_pdr (Some f) (Some q) None None w =
        (Inr (uint (slot_generation (active_slot b)) + 1), w1)" "tr_ok w1"
      "tr_tabs w1 = (tr_tabs w)\<lparr>tc_bundle_map := (tc_bundle_map (tr_tabs w))
         (?p \<mapsto> committed (modified_slot (Some f) (Some q) None None (active_slot b)) b)\<rparr>"
      "observed view w1 = observed view w @ pre @ [rules (view \<circ> fst) w1]"
      "\<forall>A \<in> set pre. same_but_bundle ?p (tr_tabs w) (tables_of A) \<and>
         packet_decision (tables_of A) ?p = Some (decision (active_slot b))"
      by (rule modify_observed [OF less.prems(1) p less.prems(2) fits])
    have b1: "tc_bundle_map (tr_tabs w1) ?p = Some (committed (toggled s0 (Suc k)) b)"
      using m(3) less.prems(3) fq by (simp add: toggle_pair)
    from less.hyps [OF _ m(2) b1 active_committed, of "Some (uint (slot_generation (active_slot b)) + 1)"] 3(2) less.prems(4)
    obtain k' r w' obs where IH: "Suc k \<le> k'" "uint (slot_generation s0) + int k' < 2 ^ 32"
      "toggle_loop now (traced sys) t_end (Suc (Suc k)) (int (Suc k)) (int (Suc k))
        (Some (uint (slot_generation (active_slot b)) + 1)) w1 = Some (r, w')"
      "\<forall>j. Suc k \<le> j \<and> j < k' \<longrightarrow> now (Suc j) < t_end"
      "if now (Suc k') < t_end then uint (slot_generation s0) + int k' = 2 ^ 32 - 1 \<and> r = Inl StructError
       else r = Inr (int k', if k' = Suc k then Some (uint (slot_generation (active_slot b)) + 1)
         else Some (uint (slot_generation s0) + int k'))"
      "observed view w' = observed view w1 @ obs" "\<forall>A \<in> set obs. decided_between s0 (Suc k) k' (tables_of A)"
      "decided_between s0 k' k' (tr_tabs w')"
      by fastforce
    have loop: "toggle_loop now (traced sys) t_end (Suc k) (int k) (int k) gen w = Some (r, w')"
      using IH(3) 3(1) m(1) fq toggle_pair(1) [of k] by (subst toggle_loop.simps) (simp add: add.commute)
    have "decided_between s0 k k' (tables_of A)" if "A \<in> set (pre @ [rules (view \<circ> fst) w1] @ obs)" for A
    proof -
      have "packet_decision (tables_of (rules (view \<circ> fst) w1)) ?p = Some (decision (toggled s0 (Suc k)))"
        using b1 by (simp add: packet_decision_def active_committed flip: tabs_def)
      then have new: "decided_between s0 k k' (tables_of (rules (view \<circ> fst) w1))"
        unfolding decided_between_def using IH(1) by (intro exI [of _ "Suc k"]) simp
      have old: "decided_between s0 k k' (tables_of A)" if "A \<in> set pre"
        unfolding decided_between_def using that m(5) IH(1) less.prems(3) by (intro exI [of _ k]) simp
      have rest: "decided_between s0 k k' (tables_of A)" if "A \<in> set obs"
        using decided_between_mono [of s0 "Suc k" k' "tables_of A" k k'] IH(7) that by auto
      show ?thesis using that new old rest by auto
    qed
    moreover have "now (Suc j) < t_end" if "k \<le> j" "j < k'" for j
      using that 3(1) IH(4) by (cases "j = k") simp_all
    ultimately show ?thesis using loop IH(1,2,5,6,8) m(4) gen
      by (intro exI [of _ k'] exI [of _ r] exI [of _ w'] exI [of _ "pre @ [rules (view \<circ> fst) w1] @ obs"]) auto
  qed
qed

end

subsection \<open>The verdict of the analysis\<close>

text \<open>The pair that \<^verbatim>\<open>analyze.py\<close> expects for a generation, and whether an event deviates from it.\<close>

definition parity_pair :: "int \<Rightarrow> int \<times> int" where
  "parity_pair g = (if even g then (1, 1) else (3, 3))"

definition off_parity :: "tc_bundle_slot \<Rightarrow> u32 \<times> u32 \<times> u32 \<times> u32 \<Rightarrow> bool" where
  "off_parity s0 d \<longleftrightarrow> (case d of (f, q, g, p) \<Rightarrow>
     if g = slot_generation s0
     then (uint (slot_far_id s0), uint (slot_qer_id s0)) \<noteq> parity_pair (uint (slot_generation s0))
     else even (uint (slot_generation s0)))"

lemma off_parity_toggled:
  assumes "uint (slot_generation s0) + int j < 2 ^ 32" "s = toggled s0 j"
  shows "off_parity s0 (slot_far_id s, slot_qer_id s, slot_generation s, p) \<longleftrightarrow>
    (uint (slot_far_id s), uint (slot_qer_id s)) \<noteq> parity_pair (uint (slot_generation s))"
proof (cases j)
  case (Suc i)
  have g: "uint (slot_generation s) = uint (slot_generation s0) + int j"
    using toggled_generation assms by simp
  then have "slot_generation s \<noteq> slot_generation s0" using Suc by auto
  moreover have "(uint (slot_far_id s), uint (slot_qer_id s)) = pair_after j"
    using toggled_pair [of j s0] assms(2) Suc by simp
  ultimately show ?thesis unfolding g by (auto simp: off_parity_def parity_pair_def pair_after_def)
qed (use assms in \<open>simp add: off_parity_def\<close>)

lemma experiment_report:
  assumes "\<forall>d \<in> set ds. \<exists>j. uint (slot_generation s0) + int j < 2 ^ 32 \<and> (\<exists>p. d =
      (slot_far_id (toggled s0 j), slot_qer_id (toggled s0 j), slot_generation (toggled s0 j), p))"
  obtains a where "analyze_main (capture_lines h pad ds) = Inr a" "total_events a = length ds"
    "(uint (slot_far_id s0), uint (slot_qer_id s0)) \<in> set valid_pairs \<Longrightarrow> torn_events a = 0"
    "parity_mismatches a = length (filter (off_parity s0) ds)"
proof -
  obtain a where a: "analyze_main (capture_lines h pad ds) = Inr a" "total_events a = length ds"
    "torn_events a = length (torn (events_of ds))" "parity_mismatches a = length (mismatches (events_of ds))"
    by (rule captured_report)
  have "(case d of (f, q, g, p) \<Rightarrow> (uint f, uint q) \<noteq> (if uint g mod 2 = 0 then (1, 1) else (3, 3))) = off_parity s0 d"
    if "d \<in> set ds" for d
  proof -
    from assms that obtain j p where j: "uint (slot_generation s0) + int j < 2 ^ 32" and
      d: "d = (slot_far_id (toggled s0 j), slot_qer_id (toggled s0 j), slot_generation (toggled s0 j), p)" by blast
    show ?thesis unfolding d off_parity_toggled [OF j refl] by (simp add: parity_pair_def even_iff_mod_2_eq_zero)
  qed
  then have "filter (\<lambda>d. case d of (f, q, g, p) \<Rightarrow> (uint f, uint q) \<noteq> (if uint g mod 2 = 0 then (1, 1) else (3, 3))) ds =
      filter (off_parity s0) ds" by (rule filter_cong [OF refl])
  then have "parity_mismatches a = length (filter (off_parity s0) ds)"
    using a(4) by (simp add: mismatches_def filter_map comp_def case_prod_beta)
  moreover have "torn_events a = 0" if v: "(uint (slot_far_id s0), uint (slot_qer_id s0)) \<in> set valid_pairs"
  proof -
    have "(uint (slot_far_id (toggled s0 j)), uint (slot_qer_id (toggled s0 j))) \<in> set valid_pairs" for j
      using v toggled_pair [of j s0] by (cases "j = 0") (auto simp: pair_after_def valid_pairs_def)
    then have "torn (events_of ds) = []" using assms by (fastforce simp: torn_def filter_empty_conv)
    then show ?thesis using a(3) by simp
  qed
  ultimately show thesis using that a(1,2) by blast
qed

lemma served_between:
  assumes "\<forall>T \<in> fst ` set traffic. decided_between s0 0 k T"
  obtains s' evs where "serve B H traffic s = Some s'" "perf_events s' = perf_events s @ evs"
    "\<forall>d \<in> set (decisions_of (word_of_int toggle_pdr) evs). \<exists>j \<le> k. \<exists>p. d =
       (slot_far_id (toggled s0 j), slot_qer_id (toggled s0 j), slot_generation (toggled s0 j), p)"
proof -
  obtain s' evs where sv: "serve B H traffic s = Some s'" "perf_events s' = perf_events s @ evs"
    and d: "list_all (\<lambda>e. \<exists>T \<in> fst ` set traffic. decided_by T e) evs"
    using serve_decided by blast
  have "\<exists>j \<le> k. \<exists>p. d = (slot_far_id (toggled s0 j), slot_qer_id (toggled s0 j), slot_generation (toggled s0 j), p)"
    if "d \<in> set (decisions_of (word_of_int toggle_pdr) evs)" for d
  proof -
    obtain f q g p where x: "d = (f, q, g, p)" by (cases d)
    have e: "p = word_of_int toggle_pdr" "DecisionEvent f q g p \<in> set evs"
      using that unfolding x decisions_of_set by auto
    obtain T where T: "T \<in> fst ` set traffic" "decided_by T (DecisionEvent f q g p)"
      using d e unfolding list_all_iff by blast
    with assms e(1) show ?thesis unfolding x
      by (fastforce simp: decided_between_def decided_by_def decision_def)
  qed
  then show thesis using that [OF sv] by blast
qed

subsection \<open>Property\<close>

text \<open>
  C6. The consistency experiment, whatever its clock and the packets that arrive. The driver always
  returns: after \<open>k\<close> toggles when its time is up, with the generation it started from plus \<open>k\<close>, or with
  \<^verbatim>\<open>struct.error\<close> when the generation has reached 2^32 - 1. The packets, each decided in some state that the maps
  have had in between, give a capture that \<^verbatim>\<open>analyze.py\<close> reports completely and, when the initial pair is a
  configured one, without a torn event. Its parity check, however, depends on where the experiment
  starts: from an odd generation no toggled event deviates, from an even one (such as the generation 0
  of \<^verbatim>\<open>install_session\<close>) every single one does.
\<close>

theorem toggle_experiment:
  assumes "bpf_kernel sys pinned view fd_path fd_avail"
    and "world_ok pinned (fd_path \<circ> fst) (fd_avail \<circ> fst) upf_defs w"
    and "tc_bundle_map (tabs (view \<circ> fst) w) (word_of_int toggle_pdr) = Some b"
  defines "s0 \<equiv> active_slot b" and "g0 \<equiv> uint (slot_generation (active_slot b))"
  shows "\<exists>k r w' obs. toggle_main now (traced sys) duration w = Some (r, w') \<and>
    (\<forall>j < k. now (Suc j) < now 0 + duration) \<and>
    (if now (Suc k) < now 0 + duration then g0 + int k = 2 ^ 32 - 1 \<and> r = Inl StructError
     else r = Inr (int k, if k = 0 then None else Some (g0 + int k))) \<and>
    observed view w' = observed view w @ obs \<and>
    (\<forall>traffic s. fst ` set traffic \<subseteq> {tabs (view \<circ> fst) w, tabs (view \<circ> fst) w'} \<union> tables_of ` set obs \<longrightarrow>
      (\<exists>s' evs a. serve B H traffic s = Some s' \<and> perf_events s' = perf_events s @ evs \<and>
        analyze_main (capture_lines h pad (decisions_of (word_of_int toggle_pdr) evs)) = Inr a \<and>
        total_events a = length (decisions_of (word_of_int toggle_pdr) evs) \<and>
        ((uint (slot_far_id s0), uint (slot_qer_id s0)) \<in> set valid_pairs \<longrightarrow> torn_events a = 0) \<and>
        parity_mismatches a = length (filter (off_parity s0) (decisions_of (word_of_int toggle_pdr) evs))))"
proof -
  have "g0 < 2 ^ 32" unfolding g0_def using uint_lt2p [of "slot_generation (active_slot b)"] by simp
  then obtain k r w' obs where fin: "g0 + int k < 2 ^ 32"
    and run: "toggle_loop now (traced sys) (now 0 + duration) 1 0 0 None w = Some (r, w')"
    and early: "\<forall>j < k. now (Suc j) < now 0 + duration"
    and r: "if now (Suc k) < now 0 + duration then g0 + int k = 2 ^ 32 - 1 \<and> r = Inl StructError
      else r = Inr (int k, if k = 0 then None else Some (g0 + int k))"
    and obs: "observed view w' = observed view w @ obs" "\<forall>A \<in> set obs. decided_between s0 0 k (tables_of A)"
      "decided_between s0 k k (tabs (view \<circ> fst) w')"
    using bpf_kernel.toggle_loop_returns [OF assms(1-3), of "active_slot b" 0 now "now 0 + duration" None]
    by (auto simp: s0_def g0_def)
  have first: "decided_between s0 0 k (tabs (view \<circ> fst) w)"
    using assms(3) by (auto simp: decided_between_def packet_decision_def s0_def intro: exI [of _ 0])
  have last: "decided_between s0 0 k (tabs (view \<circ> fst) w')" by (rule decided_between_mono [OF obs(3)]) simp_all
  have "\<exists>s' evs a. serve B H traffic s = Some s' \<and> perf_events s' = perf_events s @ evs \<and>
        analyze_main (capture_lines h pad (decisions_of (word_of_int toggle_pdr) evs)) = Inr a \<and>
        total_events a = length (decisions_of (word_of_int toggle_pdr) evs) \<and>
        ((uint (slot_far_id s0), uint (slot_qer_id s0)) \<in> set valid_pairs \<longrightarrow> torn_events a = 0) \<and>
        parity_mismatches a = length (filter (off_parity s0) (decisions_of (word_of_int toggle_pdr) evs))"
    if t: "fst ` set traffic \<subseteq> {tabs (view \<circ> fst) w, tabs (view \<circ> fst) w'} \<union> tables_of ` set obs" for traffic s
  proof -
    have "\<forall>T \<in> fst ` set traffic. decided_between s0 0 k T" using t first last obs(2) by auto
    then obtain s' evs where sv: "serve B H traffic s = Some s'" "perf_events s' = perf_events s @ evs"
      and ds: "\<forall>d \<in> set (decisions_of (word_of_int toggle_pdr) evs). \<exists>j \<le> k. \<exists>p. d =
         (slot_far_id (toggled s0 j), slot_qer_id (toggled s0 j), slot_generation (toggled s0 j), p)"
      by (rule served_between)
    have "uint (slot_generation s0) + int j < 2 ^ 32" if "j \<le> k" for j
      using that fin by (simp add: g0_def s0_def)
    with ds have "\<forall>d \<in> set (decisions_of (word_of_int toggle_pdr) evs). \<exists>j. uint (slot_generation s0) + int j < 2 ^ 32 \<and>
        (\<exists>p. d = (slot_far_id (toggled s0 j), slot_qer_id (toggled s0 j), slot_generation (toggled s0 j), p))" by blast
    from experiment_report [OF this, of h pad] sv show ?thesis by metis
  qed
  with run early r obs(1) show ?thesis
    by (intro exI [of _ k] exI [of _ r] exI [of _ w'] exI [of _ obs]) (simp add: toggle_main_def)
qed

theorem toggle_experiment_witness:
  "\<exists>w' s' evs a. toggle_main int (traced upf_sys) 3 one_traced = Some (Inr (2, Some 2), w') \<and>
     serve demo_build demo_helpers [(tabs (upf_view \<circ> fst) one_traced, demo_skb), (tabs (upf_view \<circ> fst) w', demo_skb)]
       (demo_state FAR_FORWARD 1000) = Some s' \<and>
     perf_events s' = perf_events (demo_state FAR_FORWARD 1000) @ evs \<and>
     analyze_main (capture_lines '' @1 CPU: 0'' [0, 0, 0, 0] (decisions_of (word_of_int toggle_pdr) evs)) = Inr a \<and>
     torn_events a = 0"
proof -
  let ?b = "mk_bundle 0 (mk_slot 1 1 1 100 0) (mk_slot 1 1 1 100 0)"
  have b: "tc_bundle_map (tabs (upf_view \<circ> fst) one_traced) (word_of_int toggle_pdr) = Some ?b"
    by (simp add: one_traced_tables toggle_pdr_def)
  have slot: "active_slot ?b = mk_slot 1 1 1 100 0" by (simp add: active_slot_def mk_bundle_def)
  have fields: "uint (slot_far_id (active_slot ?b)) = 1" "uint (slot_qer_id (active_slot ?b)) = 1"
    "uint (slot_generation (active_slot ?b)) = 0"
    unfolding slot by (simp_all add: mk_slot_def)
  let ?traffic = "\<lambda>w'. [(tabs (upf_view \<circ> fst) one_traced, demo_skb), (tabs (upf_view \<circ> fst) w', demo_skb)]"
  note verdict = toggle_experiment [OF rk.bpf_kernel_axioms one_traced_facts(1) b, of int 3 demo_build demo_helpers
      "'' @1 CPU: 0''" "[0, 0, 0, 0]"]
  obtain k r w' where run: "toggle_main int (traced upf_sys) 3 one_traced = Some (r, w')"
    and early: "\<forall>j < k. int (Suc j) < int 0 + 3"
    and r: "if int (Suc k) < int 0 + 3 then 0 + int k = 2 ^ 32 - 1 \<and> r = Inl StructError
      else r = Inr (int k, if k = 0 then None else Some (0 + int k))"
    and served: "\<exists>s' evs a. serve demo_build demo_helpers (?traffic w') (demo_state FAR_FORWARD 1000) = Some s' \<and>
        perf_events s' = perf_events (demo_state FAR_FORWARD 1000) @ evs \<and>
        analyze_main (capture_lines '' @1 CPU: 0'' [0, 0, 0, 0] (decisions_of (word_of_int toggle_pdr) evs)) = Inr a \<and>
        torn_events a = 0"
    using verdict unfolding fields
  proof (elim exE conjE, goal_cases)
    case (1 k r w' obs)
    have "(1 :: int, 1 :: int) \<in> set valid_pairs" by (simp add: valid_pairs_def)
    then show ?case
      using 1(1) [OF 1(2,3,4)] 1(6) [THEN spec [of _ "?traffic w'"], THEN spec [of _ "demo_state FAR_FORWARD 1000"]] by auto
  qed
  have "k = 2"
  proof (cases "int (Suc k) < int 0 + 3")
    case False
    moreover have "k < 3" using early [rule_format, of "k - 1"] by (cases k) auto
    ultimately show ?thesis by auto
  qed (use r in auto)
  with r run have "toggle_main int (traced upf_sys) 3 one_traced = Some (Inr (2, Some 2), w')" by simp
  with served show ?thesis by blast
qed

end
