(* ===== verification/Plots.thy ===== *)
theory Plots
  imports Py_Text "HOL-Library.Multiset" "HOL-Library.Sublist"
begin

text \<open>
  \<^verbatim>\<open>scripts/make_plots.py\<close>: the two figures of the rule-update measurements, as the data and labels that
  are handed to matplotlib, saved under the names the program gives them. The state of the program is the list of
  the files it has written. The file system, \<^verbatim>\<open>pandas.read_csv\<close> (a table is a map from column names to
  columns), \<^verbatim>\<open>savefig\<close> (which may raise, for example on a directory that cannot be written) and the numpy reductions are
  parameters; \<open>numpy_laws\<close> is the documented behaviour of \<^verbatim>\<open>numpy.sort\<close>. What is only appearance (sizes, grids, legends, axis limits, line widths) is left out.
\<close>

type_synonym 'f table = "string \<rightharpoonup> 'f list"

record 'f plot_env =
  pl_results :: string
  pl_exists :: "string \<Rightarrow> bool"
  pl_read_csv :: "string \<Rightarrow> 'f table res"
  pl_savefig :: "string \<Rightarrow> unit res"
  np_sort :: "'f list \<Rightarrow> 'f list"
  np_div :: "nat \<Rightarrow> nat \<Rightarrow> 'f"
  np_mean :: "'f list \<Rightarrow> 'f"
  np_percentile :: "'f list \<Rightarrow> nat \<Rightarrow> 'f"
  np_min :: "'f list \<Rightarrow> 'f"
  np_max :: "'f list \<Rightarrow> 'f"

record ('x, 'y) plot_line =
  pl_x :: "'x list"
  pl_y :: "'y list"
  pl_format :: string
  pl_color :: string
  pl_label :: string

record ('x, 'y) figure =
  fg_lines :: "('x, 'y) plot_line list"
  fg_xlabel :: string
  fg_ylabel :: string
  fg_title :: string
  fg_log_x :: bool

text \<open>What a saved file shows.\<close>

datatype 'f drawing = Cdf "('f, 'f) figure" | Scaling "(int, 'f) figure"

type_synonym 'f files = "(string \<times> 'f drawing) list"

subsection \<open>The program\<close>

definition path_join :: "string \<Rightarrow> string \<Rightarrow> string" where
  "path_join a b = a @ ''/'' @ b"

text \<open>\<^verbatim>\<open>s.replace(old, new)\<close> for a non-empty \<open>old\<close>.\<close>

function str_replace :: "string \<Rightarrow> string \<Rightarrow> string \<Rightarrow> string" where
  "str_replace old new [] = []"
| "str_replace old new (c # cs) =
     (if old \<noteq> [] \<and> prefix old (c # cs) then new @ str_replace old new (drop (length old) (c # cs))
      else c # str_replace old new cs)"
  by pat_completeness auto
termination
  by (relation "measure (\<lambda>(old, new, s). length s)") auto

definition load_clean :: "'f plot_env \<Rightarrow> int \<Rightarrow> 'f list option res" where
  "load_clean E n =
     (let p = path_join (pl_results E) (''clean_n'' @ str_int n @ ''.csv'') in
      if \<not> pl_exists E p then Inr None
      else res_bind (pl_read_csv E p) (\<lambda>df.
        case df ''update_us'' of None \<Rightarrow> Inl KeyError | Some col \<Rightarrow> Inr (Some col)))"

definition cdf_cases :: "int list" where "cdf_cases = [10, 100, 1000]"
definition cdf_colors :: "string list" where "cdf_colors = [''tab:blue'', ''tab:orange'', ''tab:green'']"
definition cdf_markers :: "string list" where "cdf_markers = [''o'', ''s'', ''^'']"

text \<open>One line of the figure; the marker of the case is not used.\<close>

definition cdf_line :: "'f plot_env \<Rightarrow> int \<Rightarrow> string \<Rightarrow> 'f list \<Rightarrow> ('f, 'f) plot_line" where
  "cdf_line E n c x =
     (let xs = np_sort E x;
          ys = map (\<lambda>i. np_div E i (length xs)) [1..<length xs + 1]
      in \<lparr>pl_x = xs, pl_y = ys, pl_format = '''', pl_color = c, pl_label = ''$N='' @ str_int n @ ''$ rules''\<rparr>)"

fun cdf_loop :: "'f plot_env \<Rightarrow> (int \<times> string \<times> string) list \<Rightarrow> ('f, 'f) plot_line list \<Rightarrow> ('f, 'f) plot_line list res" where
  "cdf_loop E [] ls = Inr ls"
| "cdf_loop E ((n, c, m) # cs) ls =
     res_bind (load_clean E n) (\<lambda>x. case x of
         None \<Rightarrow> cdf_loop E cs ls
       | Some x \<Rightarrow> if x = [] then cdf_loop E cs ls else cdf_loop E cs (ls @ [cdf_line E n c x]))"

text \<open>A figure is saved to two files, or \<^verbatim>\<open>savefig\<close> raises.\<close>

definition savefig :: "'f plot_env \<Rightarrow> string \<Rightarrow> 'f drawing \<Rightarrow> ('f files, unit) py" where
  "savefig E p d fs = (case pl_savefig E p of Inl e \<Rightarrow> (Inl e, fs) | Inr _ \<Rightarrow> (Inr (), fs @ [(p, d)]))"

definition save_figure :: "'f plot_env \<Rightarrow> string \<Rightarrow> 'f drawing \<Rightarrow> ('f files, unit) py" where
  "save_figure E name d =
     (let out = path_join (pl_results E) name in
      py_bind (savefig E out d) (\<lambda>_. savefig E (str_replace ''.pdf'' ''.png'' out) d))"

definition micro_s :: string where
  "micro_s = ''$'' @ [CHR 0x5C] @ ''mu$s''"

definition fig_cdf :: "'f plot_env \<Rightarrow> ('f files, unit) py" where
  "fig_cdf E = py_bind (py_lift (cdf_loop E (zip cdf_cases (zip cdf_colors cdf_markers)) [])) (\<lambda>ls.
     save_figure E ''fig_ruleupdate_cdf.pdf''
       (Cdf \<lparr>fg_lines = ls, fg_xlabel = ''Per-rule update latency ('' @ micro_s @ '')'', fg_ylabel = ''Empirical CDF'',
         fg_title = ''Rule-update latency distribution'', fg_log_x = True\<rparr>))"

definition scaling_sizes :: "int list" where "scaling_sizes = [1, 10, 50, 100, 500, 1000, 2000]"

record 'f scaling =
  sc_Ns :: "int list"
  sc_means :: "'f list"
  sc_p50 :: "'f list"
  sc_p95 :: "'f list"
  sc_p99 :: "'f list"
  sc_mins :: "'f list"
  sc_maxs :: "'f list"

definition scaling_append :: "'f plot_env \<Rightarrow> int \<Rightarrow> 'f list \<Rightarrow> 'f scaling \<Rightarrow> 'f scaling" where
  "scaling_append E n x a =
     \<lparr>sc_Ns = sc_Ns a @ [n], sc_means = sc_means a @ [np_mean E x], sc_p50 = sc_p50 a @ [np_percentile E x 50],
      sc_p95 = sc_p95 a @ [np_percentile E x 95], sc_p99 = sc_p99 a @ [np_percentile E x 99],
      sc_mins = sc_mins a @ [np_min E x], sc_maxs = sc_maxs a @ [np_max E x]\<rparr>"

fun scaling_loop :: "'f plot_env \<Rightarrow> int list \<Rightarrow> 'f scaling \<Rightarrow> 'f scaling res" where
  "scaling_loop E [] a = Inr a"
| "scaling_loop E (n # ns) a =
     res_bind (load_clean E n) (\<lambda>x. case x of
         None \<Rightarrow> scaling_loop E ns a
       | Some x \<Rightarrow> if x = [] then scaling_loop E ns a else scaling_loop E ns (scaling_append E n x a))"

definition scaling_lines :: "'f scaling \<Rightarrow> (int, 'f) plot_line list" where
  "scaling_lines a =
     [\<lparr>pl_x = sc_Ns a, pl_y = sc_means a, pl_format = ''o-'', pl_color = ''tab:blue'', pl_label = ''mean''\<rparr>,
      \<lparr>pl_x = sc_Ns a, pl_y = sc_p50 a, pl_format = ''s--'', pl_color = ''tab:gray'', pl_label = ''p50''\<rparr>,
      \<lparr>pl_x = sc_Ns a, pl_y = sc_p95 a, pl_format = ''^-'', pl_color = ''tab:orange'', pl_label = ''p95''\<rparr>,
      \<lparr>pl_x = sc_Ns a, pl_y = sc_p99 a, pl_format = ''v-'', pl_color = ''tab:red'', pl_label = ''p99''\<rparr>]"

definition fig_scaling :: "'f plot_env \<Rightarrow> ('f files, unit) py" where
  "fig_scaling E = py_bind (py_lift (scaling_loop E scaling_sizes
       \<lparr>sc_Ns = [], sc_means = [], sc_p50 = [], sc_p95 = [], sc_p99 = [], sc_mins = [], sc_maxs = []\<rparr>)) (\<lambda>a.
     save_figure E ''fig_ruleupdate_scaling.pdf''
       (Scaling \<lparr>fg_lines = scaling_lines a, fg_xlabel = ''Batch size $N$ (rules per install)'',
         fg_ylabel = ''Per-rule latency ('' @ micro_s @ '')'', fg_title = ''Per-rule update latency vs batch size'',
         fg_log_x = True\<rparr>))"

text \<open>The script: both figures, in order.\<close>

definition plots_main :: "'f plot_env \<Rightarrow> ('f files, unit) py" where
  "plots_main E = py_bind (fig_cdf E) (\<lambda>_. fig_scaling E)"

subsection \<open>What the figures are to show\<close>

definition numpy_laws :: "('f :: linorder) plot_env \<Rightarrow> bool" where
  "numpy_laws E \<longleftrightarrow> (\<forall>xs. sorted (np_sort E xs) \<and> mset (np_sort E xs) = mset xs)"

text \<open>
  The measurement file of a size, the samples of the size when there are any, in the column \<^verbatim>\<open>update_us\<close> of that
  file, and when that file is in order: it does not exist, or it can be read and has the column.
\<close>

definition clean_file :: "'f plot_env \<Rightarrow> int \<Rightarrow> string" where
  "clean_file E n = pl_results E @ ''/clean_n'' @ str_int n @ ''.csv''"

definition measured :: "'f plot_env \<Rightarrow> int \<Rightarrow> 'f list option" where
  "measured E n =
     (if pl_exists E (clean_file E n) then
        (case pl_read_csv E (clean_file E n) of
           Inl _ \<Rightarrow> None
         | Inr df \<Rightarrow> if df ''update_us'' = Some [] then None else df ''update_us'')
      else None)"

definition readable :: "'f plot_env \<Rightarrow> int \<Rightarrow> bool" where
  "readable E n \<longleftrightarrow> \<not> pl_exists E (clean_file E n) \<or>
     (\<exists>df. pl_read_csv E (clean_file E n) = Inr df \<and> df ''update_us'' \<noteq> None)"

text \<open>
  A line is the empirical distribution function of the samples \<open>x\<close>: its points are the sorted samples, and
  the last point of every value \<open>v\<close> has the height (number of samples up to \<open>v\<close>) / (number of samples).
\<close>

definition empirical_cdf :: "('f :: linorder) plot_env \<Rightarrow> 'f list \<Rightarrow> ('f, 'f) plot_line \<Rightarrow> bool" where
  "empirical_cdf E x l \<longleftrightarrow>
     sorted (pl_x l) \<and> mset (pl_x l) = mset x \<and> length (pl_y l) = length x \<and>
     (\<forall>i < length x. Suc i = length x \<or> pl_x l ! i < pl_x l ! Suc i \<longrightarrow>
        pl_y l ! i = np_div E (length (filter (\<lambda>s. s \<le> pl_x l ! i) x)) (length x))"

text \<open>The files of a figure, and the four files of the script in the order in which they are written.\<close>

definition pdf_png :: "'f plot_env \<Rightarrow> string \<Rightarrow> string list" where
  "pdf_png E name = (let out = pl_results E @ ''/'' @ name in [out, str_replace ''.pdf'' ''.png'' out])"

definition figure_name :: "'f drawing \<Rightarrow> string" where
  "figure_name d = (case d of Cdf _ \<Rightarrow> ''fig_ruleupdate_cdf.pdf'' | Scaling _ \<Rightarrow> ''fig_ruleupdate_scaling.pdf'')"

definition figure_files :: "'f plot_env \<Rightarrow> string list" where
  "figure_files E = pdf_png E ''fig_ruleupdate_cdf.pdf'' @ pdf_png E ''fig_ruleupdate_scaling.pdf''"

text \<open>The sizes with measurements.\<close>

definition sizes :: "'f plot_env \<Rightarrow> int list" where
  "sizes E = filter (\<lambda>n. measured E n \<noteq> None) scaling_sizes"

text \<open>What a drawing is to show of the measurements.\<close>

definition shows_samples :: "('f :: linorder) plot_env \<Rightarrow> 'f drawing \<Rightarrow> bool" where
  "shows_samples E d =
     (case d of
        Cdf fig \<Rightarrow> list_all2 (\<lambda>n l. empirical_cdf E (the (measured E n)) l \<and> pl_label l = ''$N='' @ str_int n @ ''$ rules'')
          (filter (\<lambda>n. measured E n \<noteq> None) [10, 100, 1000]) (fg_lines fig)
      | Scaling fig \<Rightarrow> sorted (sizes E) \<and> distinct (sizes E) \<and>
          map (\<lambda>l. zip (pl_x l) (pl_y l)) (fg_lines fig) =
            map (\<lambda>f. map (\<lambda>n. (n, f (the (measured E n)))) (sizes E))
              [np_mean E, \<lambda>x. np_percentile E x 50, \<lambda>x. np_percentile E x 95, \<lambda>x. np_percentile E x 99])"

lemma load_cases:
  obtains (err) e where "load_clean E n = Inl e" "\<not> readable E n" "measured E n = None"
  | (none) x where "load_clean E n = Inr x" "x = None \<or> x = Some []" "readable E n" "measured E n = None"
  | (data) x where "load_clean E n = Inr (Some x)" "x \<noteq> []" "readable E n" "measured E n = Some x"
proof -
  have load: "load_clean E n = (if \<not> pl_exists E (clean_file E n) then Inr None
      else res_bind (pl_read_csv E (clean_file E n)) (\<lambda>df.
        case df ''update_us'' of None \<Rightarrow> Inl KeyError | Some col \<Rightarrow> Inr (Some col)))"
    by (simp add: load_clean_def path_join_def clean_file_def Let_def)
  show thesis
  proof (cases "pl_exists E (clean_file E n)")
    case False
    then show thesis using none [of None] by (simp add: load readable_def measured_def)
  next
    case True
    show thesis
    proof (cases "pl_read_csv E (clean_file E n)")
      case (Inl e)
      with True show thesis using err [of e] by (simp add: load readable_def measured_def)
    next
      case (Inr df)
      with True show thesis using err [of KeyError] none [of "Some []"] data
        by (cases "df ''update_us''") (auto simp: load readable_def measured_def split: if_splits)
    qed
  qed
qed

lemma length_filter_sorted:
  assumes "sorted xs" "i < length xs" "Suc i = length xs \<or> xs ! i < xs ! Suc i"
  shows "length (filter (\<lambda>s. s \<le> xs ! i) xs) = Suc i"
proof -
  have "filter (\<lambda>s. s \<le> xs ! i) (take (Suc i) xs) = take (Suc i) xs"
    using assms(1,2) by (auto simp: filter_id_conv in_set_conv_nth less_Suc_eq_le intro!: sorted_nth_mono)
  moreover have "filter (\<lambda>s. s \<le> xs ! i) (drop (Suc i) xs) = []"
  proof -
    have "xs ! i < xs ! (Suc i + j)" if "Suc i + j < length xs" for j
    proof -
      have "xs ! i < xs ! Suc i" using assms(3) that by auto
      also have "\<dots> \<le> xs ! (Suc i + j)" using assms(1) that by (intro sorted_nth_mono) auto
      finally show ?thesis .
    qed
    then show ?thesis by (auto simp: filter_empty_conv in_set_conv_nth not_le)
  qed
  ultimately have "filter (\<lambda>s. s \<le> xs ! i) (take (Suc i) xs @ drop (Suc i) xs) = take (Suc i) xs"
    by (simp only: filter_append append_Nil2)
  then show ?thesis using assms(2) by (simp only: append_take_drop_id length_take)
qed

lemma cdf_line_empirical:
  assumes "numpy_laws E"
  shows "empirical_cdf E x (cdf_line E n c x)"
proof -
  let ?xs = "np_sort E x"
  have s: "sorted ?xs" "mset ?xs = mset x" using assms by (simp_all add: numpy_laws_def)
  then have len: "length ?xs = length x" by (metis size_mset)
  have "length (filter P x) = length (filter P ?xs)" for P
    using s(2) by (metis mset_filter size_mset)
  with s len length_filter_sorted [OF s(1)] show ?thesis
    by (auto simp: empirical_cdf_def cdf_line_def Let_def simp del: upt_Suc)
qed

definition cdf_lines :: "'f plot_env \<Rightarrow> (int \<times> string \<times> string) list \<Rightarrow> ('f, 'f) plot_line list" where
  "cdf_lines E cs = concat (map (\<lambda>(n, c, m). case measured E n of None \<Rightarrow> [] | Some x \<Rightarrow> [cdf_line E n c x]) cs)"

lemma cdf_loop_lines:
  "list_all (readable E) (map fst cs) \<Longrightarrow> cdf_loop E cs ls = Inr (ls @ cdf_lines E cs)"
  "\<not> list_all (readable E) (map fst cs) \<Longrightarrow> \<exists>e. cdf_loop E cs ls = Inl e"
proof (induction E cs ls rule: cdf_loop.induct)
  case (2 E n c m cs ls)
  {
    case 1
    then show ?case by (cases n rule: load_cases [of E]) (use 2 in \<open>auto simp: res_bind_def cdf_lines_def\<close>)
  next
    case 2
    then show ?case by (cases n rule: load_cases [of E]) (use "2.IH" in \<open>auto simp: res_bind_def\<close>)
  }
qed (simp_all add: cdf_lines_def)

lemma scaling_loop_data:
  "list_all (readable E) ns \<Longrightarrow> scaling_loop E ns a = Inr (fold (\<lambda>n b. case measured E n of None \<Rightarrow> b | Some x \<Rightarrow> scaling_append E n x b) ns a)"
  "\<not> list_all (readable E) ns \<Longrightarrow> \<exists>e. scaling_loop E ns a = Inl e"
proof (induction E ns a rule: scaling_loop.induct)
  case (2 E n ns a)
  {
    case 1
    then show ?case by (cases n rule: load_cases [of E]) (use 2 in \<open>auto simp: res_bind_def\<close>)
  next
    case 2
    then show ?case by (cases n rule: load_cases [of E]) (use "2.IH" in \<open>auto simp: res_bind_def\<close>)
  }
qed simp_all

lemma scaling_fold:
  "fold (\<lambda>n b. case measured E n of None \<Rightarrow> b | Some x \<Rightarrow> scaling_append E n x b) ns a =
     (let ms = filter (\<lambda>n. measured E n \<noteq> None) ns; stat = (\<lambda>f. map (f \<circ> the \<circ> measured E) ms) in
      \<lparr>sc_Ns = sc_Ns a @ ms, sc_means = sc_means a @ stat (np_mean E), sc_p50 = sc_p50 a @ stat (\<lambda>x. np_percentile E x 50),
       sc_p95 = sc_p95 a @ stat (\<lambda>x. np_percentile E x 95), sc_p99 = sc_p99 a @ stat (\<lambda>x. np_percentile E x 99),
       sc_mins = sc_mins a @ stat (np_min E), sc_maxs = sc_maxs a @ stat (np_max E)\<rparr>)"
proof (induction ns arbitrary: a)
  case (Cons n ns)
  then show ?case by (cases "measured E n") (simp_all add: scaling_append_def Let_def)
qed simp

text \<open>Either figure is drawn from what was read and then saved, or a file could not be read and nothing is saved.\<close>

lemma py_lift_Inr: "py_bind (py_lift (Inr x)) f = f x"
  by (rule ext) (simp add: py_simps)

lemma fig_cdf_run:
  assumes "numpy_laws E"
  obtains (fails) e where "\<not> list_all (readable E) cdf_cases" "\<And>fs. fig_cdf E fs = (Inl e, fs)"
  | (draws) d where "list_all (readable E) cdf_cases" "shows_samples E d" "fig_cdf E = save_figure E (figure_name d) d"
      "figure_name d = ''fig_ruleupdate_cdf.pdf''"
proof -
  let ?cs = "zip cdf_cases (zip cdf_colors cdf_markers)"
  have cs: "map fst ?cs = cdf_cases" by (simp add: cdf_cases_def cdf_colors_def cdf_markers_def)
  show thesis
  proof (cases "list_all (readable E) cdf_cases")
    case False
    then obtain e where "cdf_loop E ?cs [] = Inl e" using cdf_loop_lines(2) [of E ?cs "[]"] unfolding cs by blast
    then show thesis using fails [OF False, of e] by (simp add: fig_cdf_def py_simps)
  next
    case True
    have lines: "list_all2 (\<lambda>n l. empirical_cdf E (the (measured E n)) l \<and> pl_label l = ''$N='' @ str_int n @ ''$ rules'')
        (filter (\<lambda>n. measured E n \<noteq> None) (map fst cs)) (cdf_lines E cs)" for cs
      using cdf_line_empirical [OF assms]
      by (induction cs) (auto simp: cdf_lines_def cdf_line_def [of E, THEN arg_cong, of pl_label] Let_def split: option.splits)
    have "cdf_loop E ?cs [] = Inr (cdf_lines E ?cs)" using cdf_loop_lines(1) [of E ?cs "[]"] True by (simp add: cs)
    then show thesis
      by (rule_tac d = "Cdf \<lparr>fg_lines = cdf_lines E ?cs, fg_xlabel = ''Per-rule update latency ('' @ micro_s @ '')'',
          fg_ylabel = ''Empirical CDF'', fg_title = ''Rule-update latency distribution'', fg_log_x = True\<rparr>" in draws [OF True])
        (use lines [of ?cs] in \<open>simp_all add: fig_cdf_def py_lift_Inr shows_samples_def figure_name_def cs flip: cdf_cases_def\<close>)
  qed
qed

lemma fig_scaling_run:
  obtains (fails) e where "\<not> list_all (readable E) scaling_sizes" "\<And>fs. fig_scaling E fs = (Inl e, fs)"
  | (draws) d where "list_all (readable E) scaling_sizes" "shows_samples E d"
      "fig_scaling E = save_figure E (figure_name d) d" "figure_name d = ''fig_ruleupdate_scaling.pdf''"
proof (cases "list_all (readable E) scaling_sizes")
  let ?init = "\<lparr>sc_Ns = [], sc_means = [], sc_p50 = [], sc_p95 = [], sc_p99 = [], sc_mins = [], sc_maxs = []\<rparr>"
  case False
  then obtain e where "scaling_loop E scaling_sizes ?init = Inl e" using scaling_loop_data(2) by blast
  then show thesis using fails [OF False, of e] by (simp add: fig_scaling_def py_simps)
next
  case True
  have incr: "sorted (sizes E)" "distinct (sizes E)"
    unfolding sizes_def by (rule sorted_filter [where f = id, simplified] distinct_filter; simp add: scaling_sizes_def)+
  have zip: "zip xs (map f xs) = map (\<lambda>n. (n, f n)) xs" for xs and f :: "int \<Rightarrow> 'a"
    by (induction xs) simp_all
  let ?a = "fold (\<lambda>n b. case measured E n of None \<Rightarrow> b | Some x \<Rightarrow> scaling_append E n x b) scaling_sizes
    \<lparr>sc_Ns = [], sc_means = [], sc_p50 = [], sc_p95 = [], sc_p99 = [], sc_mins = [], sc_maxs = []\<rparr>"
  let ?d = "Scaling \<lparr>fg_lines = scaling_lines ?a, fg_xlabel = ''Batch size $N$ (rules per install)'',
     fg_ylabel = ''Per-rule latency ('' @ micro_s @ '')'', fg_title = ''Per-rule update latency vs batch size'', fg_log_x = True\<rparr>"
  have "shows_samples E ?d"
    using incr by (simp add: shows_samples_def scaling_fold scaling_lines_def Let_def zip sizes_def)
  moreover have "fig_scaling E = save_figure E (figure_name ?d) ?d"
    unfolding fig_scaling_def scaling_loop_data(1) [OF True] by (simp add: py_lift_Inr figure_name_def)
  ultimately show thesis using draws [OF True, of ?d] by (simp add: figure_name_def)
qed

text \<open>Saving a figure writes both files, or stops at the one that cannot be written.\<close>

lemma save_figure_run:
  obtains (fails) e new p where "save_figure E name d fs = (Inl e, fs @ new)" "set new \<subseteq> set (pdf_png E name) \<times> {d}"
    "prefix (map fst new @ [p]) (pdf_png E name)" "pl_savefig E p = Inl e"
  | (saves) new where "save_figure E name d fs = (Inr (), fs @ new)" "set new \<subseteq> set (pdf_png E name) \<times> {d}"
    "map fst new = pdf_png E name" "list_all (\<lambda>p. pl_savefig E p = Inr ()) (pdf_png E name)"
proof -
  define out out' where "out = pl_results E @ ''/'' @ name" and "out' = str_replace ''.pdf'' ''.png'' out"
  have files: "pdf_png E name = [out, out']" by (simp add: pdf_png_def out_def out'_def Let_def)
  have run: "save_figure E name d fs = py_bind (savefig E out d) (\<lambda>_. savefig E out' d) fs"
    by (simp add: save_figure_def path_join_def out_def out'_def Let_def)
  show thesis
  proof (cases "pl_savefig E out")
    case (Inl e)
    show thesis by (rule fails [of e "[]" out]) (simp_all add: run files Inl savefig_def py_bind_def)
  next
    case 1: (Inr u)
    show thesis
    proof (cases "pl_savefig E out'")
      case (Inl e)
      show thesis by (rule fails [of e "[(out, d)]" out']) (simp_all add: run files 1 Inl savefig_def py_bind_def)
    next
      case (Inr v)
      show thesis by (rule saves [of "[(out, d), (out', d)]"]) (simp_all add: run files 1 Inr savefig_def py_bind_def)
    qed
  qed
qed

subsection \<open>Property\<close>

text \<open>
  C40. The figures show the measurements. The script returns exactly when every measurement file that exists can be read and has the
  column \<^verbatim>\<open>update_us\<close> and all four files can be written; then the files written are the first figure as PDF and as PNG and the second one as both.
  Otherwise it raises, with a part of the four files written, in this order, up to the one that could not be written. Every file written, also by a
  run that fails later, shows the measurements: the first figure has, for exactly the sizes 10, 100 and 1000 that have samples, in this
  order, one line that is the empirical distribution function of the samples; and the
  four lines of the second figure have as points, for exactly the sizes with samples in increasing order, the
  mean and the 50th, 95th and 99th percentile of the samples of that size.
\<close>

theorem plots_show_measurements:
  assumes "numpy_laws E"
  shows "\<exists>r new. plots_main E fs = (r, fs @ new) \<and> (\<forall>(p, d) \<in> set new. shows_samples E d \<and> p \<in> set (pdf_png E (figure_name d))) \<and>
    (case r of
       Inr _ \<Rightarrow> map fst new = figure_files E \<and> list_all (readable E) scaling_sizes \<and>
         list_all (\<lambda>p. pl_savefig E p = Inr ()) (figure_files E)
     | Inl e \<Rightarrow> prefix (map fst new) (figure_files E) \<and>
         ((\<exists>n \<in> set scaling_sizes. \<not> readable E n) \<or>
          (\<exists>p. prefix (map fst new @ [p]) (figure_files E) \<and> pl_savefig E p = Inl e)))"
proof (cases rule: fig_cdf_run [OF assms, case_names fails draws])
  case (fails e)
  then show ?thesis
    by (intro exI [of _ "Inl e"] exI [of _ "[]"]) (auto simp: plots_main_def py_bind_def list_all_iff cdf_cases_def scaling_sizes_def)
next
  case 1: (draws d)
  note files = figure_files_def
  show ?thesis
  proof (cases rule: save_figure_run [of E "figure_name d" d fs, case_names fails saves])
    case (fails e new p)
    with 1 show ?thesis
      by (intro exI [of _ "Inl e"] exI [of _ new])
        (auto simp: plots_main_def py_bind_def files dest: append_prefixD intro: prefix_prefix)
  next
    case saved: (saves new)
    show ?thesis
    proof (cases rule: fig_scaling_run [of E, case_names fails draws])
      case (fails e)
      with 1 saved show ?thesis
        by (intro exI [of _ "Inl e"] exI [of _ new]) (auto simp: plots_main_def py_bind_def files list_all_iff)
    next
      case 2: (draws d')
      show ?thesis
      proof (cases rule: save_figure_run [of E "figure_name d'" d' "fs @ new", case_names fails saves])
        case (fails e new' p)
        with 1 2 saved show ?thesis
          by (intro exI [of _ "Inl e"] exI [of _ "new @ new'"])
            (auto simp: plots_main_def py_bind_def files dest: append_prefixD)
      next
        case (saves new')
        with 1 2 saved show ?thesis
          by (intro exI [of _ "Inr ()"] exI [of _ "new @ new'"]) (auto simp: plots_main_def py_bind_def files)
      qed
    qed
  qed
qed

definition demo_plots :: "nat plot_env" where
  "demo_plots = \<lparr>pl_results = ''results'', pl_exists = \<lambda>p. p = ''results/clean_n10.csv'',
     pl_read_csv = \<lambda>p. Inr [''update_us'' \<mapsto> [9, 6, 9, 7]], pl_savefig = \<lambda>_. Inr (), np_sort = sort, np_div = \<lambda>a b. a * 100 div b,
     np_mean = \<lambda>xs. sum_list xs div length xs, np_percentile = \<lambda>xs p. sort xs ! (length xs * p div 100),
     np_min = \<lambda>xs. Min (set xs), np_max = \<lambda>xs. Max (set xs)\<rparr>"

theorem plots_show_measurements_witness:
  "\<exists>new cdf l p. plots_main demo_plots [] = (Inr (), new) \<and> map fst new = figure_files demo_plots \<and>
     (p, Cdf cdf) \<in> set new \<and> fg_lines cdf = [l] \<and>
     empirical_cdf demo_plots [9, 6, 9, 7] l \<and> pl_label l = ''$N=10$ rules''"
proof -
  have laws: "numpy_laws demo_plots" by (simp add: numpy_laws_def demo_plots_def)
  have str: "map str_int scaling_sizes = [''1'', ''10'', ''50'', ''100'', ''500'', ''1000'', ''2000'']" by code_simp
  have m: "map (measured demo_plots) [10, 100, 1000] = [Some [9, 6, 9, 7], None, None]"
    "list_all (readable demo_plots) scaling_sizes" "str_int 10 = ''10''"
    using str by (simp_all add: scaling_sizes_def measured_def readable_def clean_file_def demo_plots_def)
  have saves: "pl_savefig demo_plots p = Inr ()" for p by (simp add: demo_plots_def)
  obtain r new where r: "plots_main demo_plots [] = (r, new)" 
    "\<forall>(p, d) \<in> set new. shows_samples demo_plots d \<and> p \<in> set (pdf_png demo_plots (figure_name d))"
    "r = Inr ()" "map fst new = figure_files demo_plots"
    using plots_show_measurements [OF laws, of "[]"] m(2) saves
    by (elim exE conjE) (auto simp: list_all_iff split: sum.splits)
  let ?p = "''results/fig_ruleupdate_cdf.pdf''"
  have p: "?p \<in> fst ` set new" "?p \<notin> set (pdf_png demo_plots ''fig_ruleupdate_scaling.pdf'')"
    using r(4) by (simp_all add: figure_files_def pdf_png_def demo_plots_def Let_def flip: set_map)
  then obtain d where d: "(?p, d) \<in> set new" by auto
  then obtain p fig where fig: "(p, Cdf fig) \<in> set new" using r(2) p(2) by (cases d) (auto simp: figure_name_def)
  then have "shows_samples demo_plots (Cdf fig)" using r(2) by auto
  then obtain l where "fg_lines fig = [l]" "empirical_cdf demo_plots [9, 6, 9, 7] l" "pl_label l = ''$N=10$ rules''"
    using m(1,3) by (auto simp: shows_samples_def list_all2_Cons1)
  then show ?thesis using r fig by blast
qed

end
