(* ===== verification/Plot_Contention.thy ===== *)
theory Plot_Contention
  imports Plots
begin

text \<open>
  \<^verbatim>\<open>scripts/make_plot_contention.py\<close>: the table, the figure and the headline numbers of the contention
  measurements. pandas is a parameter with its documented behaviour in \<open>pandas_laws\<close>: \<^verbatim>\<open>unique\<close>, \<^verbatim>\<open>groupby\<close>,
  \<^verbatim>\<open>sort_values\<close> and the reductions. A missing value of \<^verbatim>\<open>reindex\<close> (NaN) is \<open>None\<close>. \<open>ct_pos\<close> is the
  floating-point position of a bar, \<open>ct_percent\<close> the loss in percent, and \<open>ct_write\<close> the outcome of writing a file, by
  \<^verbatim>\<open>to_csv\<close> or \<^verbatim>\<open>savefig\<close>. The state of the program is the list of
  the files it has written; the numbers it prints are its result. Captions, legend, grid and
  number formats are left out.
\<close>

record 'f run =
  target_pps :: int
  run_rules :: int
  run_total_ms :: 'f
  mean_us :: 'f
  p50_us :: 'f
  p95_us :: 'f
  p99_us :: 'f
  blast_sent :: int
  hit_d :: int
  miss_d :: int

record 'f pandas =
  ct_results :: string
  pd_read_csv :: "string \<Rightarrow> 'f run list res"
  ct_write :: "string \<Rightarrow> unit res"
  pd_unique :: "int list \<Rightarrow> int list"
  pd_by_rate :: "'f run list \<Rightarrow> (int \<times> 'f run list) list"
  pd_by_cell :: "'f run list \<Rightarrow> ((int \<times> int) \<times> 'f run list) list"
  pd_sort_rate :: "'f run list \<Rightarrow> 'f run list"
  pd_median :: "'f list \<Rightarrow> 'f"
  pd_min :: "'f list \<Rightarrow> 'f"
  pd_max :: "'f list \<Rightarrow> 'f"
  ct_pos :: "nat \<Rightarrow> int \<Rightarrow> 'f"
  ct_percent :: "int \<Rightarrow> int \<Rightarrow> 'f"

subsection \<open>The program\<close>

definition metric_cols :: "(string \<times> ('f run \<Rightarrow> 'f)) list" where
  "metric_cols = [(''total_ms'', run_total_ms), (''mean_us'', mean_us), (''p50_us'', p50_us), (''p95_us'', p95_us),
     (''p99_us'', p99_us)]"

definition agg_columns :: "string list" where
  "agg_columns = [''target_pps'', ''n_rules''] @
     concat (map (\<lambda>a. map (\<lambda>b. a @ ''_'' @ b) [''median'', ''min'', ''max''])
       (map fst (metric_cols :: (string \<times> (unit run \<Rightarrow> unit)) list)))"

definition agg_rows :: "'f pandas \<Rightarrow> 'f run list \<Rightarrow> (int \<times> int \<times> 'f list) list" where
  "agg_rows P df = map (\<lambda>((t, n), g). (t, n, concat (map (\<lambda>(_, col).
     [pd_median P (map col g), pd_min P (map col g), pd_max P (map col g)]) metric_cols))) (pd_by_cell P df)"

definition bar_colors :: "string \<rightharpoonup> string" where
  "bar_colors = [''100'' \<mapsto> ''tab:blue'', ''500'' \<mapsto> ''tab:orange'', ''1000'' \<mapsto> ''tab:green'']"

record 'f bars =
  br_x :: "'f list"
  br_height :: "'f option list"
  br_color :: string
  br_label :: string
  br_marks :: "'f option list"

text \<open>\<^verbatim>\<open>sub.groupby("target_pps")[col].median().reindex(rates).values\<close>\<close>

definition rate_medians :: "'f pandas \<Rightarrow> ('f run \<Rightarrow> 'f) \<Rightarrow> 'f run list \<Rightarrow> int list \<Rightarrow> 'f option list" where
  "rate_medians P col sub rates =
     map (map_of (map (\<lambda>(k, g). (k, pd_median P (map col g))) (pd_by_rate P sub))) rates"

fun bar_loop :: "'f pandas \<Rightarrow> 'f run list \<Rightarrow> int list \<Rightarrow> (nat \<times> int) list \<Rightarrow> 'f bars list \<Rightarrow> 'f bars list res" where
  "bar_loop P df rates [] bs = Inr bs"
| "bar_loop P df rates ((i, n) # ns) bs =
     (let sub = pd_sort_rate P (filter (\<lambda>r. run_rules r = n) df);
          med = rate_medians P p99_us sub rates;
          med50 = rate_medians P p50_us sub rates;
          x = map (\<lambda>j. ct_pos P j (int i - 1)) [0..<length rates]
      in case bar_colors (str_int n) of
           None \<Rightarrow> Inl KeyError
         | Some c \<Rightarrow> bar_loop P df rates ns (bs @ [\<lparr>br_x = x, br_height = med, br_color = c,
             br_label = ''N='' @ str_int n @ '' (p99)'', br_marks = med50\<rparr>]))"

definition tick_label :: "int \<Rightarrow> string" where
  "tick_label r = (if r \<noteq> 0 then str_int (r div 1000) @ ''k'' else ''0'')"

definition headline :: "'f pandas \<Rightarrow> 'f run list \<Rightarrow> int list \<Rightarrow> ((int \<times> int) \<times> 'f \<times> 'f \<times> 'f \<times> 'f) list" where
  "headline P df rates = concat (map (\<lambda>r. concat (map (\<lambda>n.
     let sub = filter (\<lambda>x. target_pps x = r \<and> run_rules x = n) df in
     if length sub \<noteq> 0
     then [((r, n), pd_median P (map run_total_ms sub), pd_median P (map p50_us sub), pd_median P (map p95_us sub),
            pd_median P (map p99_us sub))]
     else []) [100, 500, 1000])) rates)"

text \<open>A table written with \<^verbatim>\<open>to_csv\<close>.\<close>

record 'f csv_file =
  csv_path :: string
  csv_columns :: "string list"
  csv_rows :: "(int \<times> int \<times> 'f list) list"

definition agg_file :: "'f pandas \<Rightarrow> 'f run list \<Rightarrow> 'f csv_file" where
  "agg_file P df = \<lparr>csv_path = path_join (ct_results P) ''contention_agg.csv'', csv_columns = agg_columns,
     csv_rows = agg_rows P df\<rparr>"

text \<open>The files: a table, or the bars with the labels of the rates.\<close>

datatype 'f out_file = Table "'f csv_file" | Chart string "'f bars list" "string list"

definition to_csv :: "'f pandas \<Rightarrow> 'f csv_file \<Rightarrow> ('f out_file list, unit) py" where
  "to_csv P f fs = (case ct_write P (csv_path f) of Inl e \<Rightarrow> (Inl e, fs) | Inr _ \<Rightarrow> (Inr (), fs @ [Table f]))"

definition save_chart :: "'f pandas \<Rightarrow> string \<Rightarrow> 'f bars list \<Rightarrow> string list \<Rightarrow> ('f out_file list, unit) py" where
  "save_chart P p bs ticks fs =
     (case ct_write P p of Inl e \<Rightarrow> (Inl e, fs) | Inr _ \<Rightarrow> (Inr (), fs @ [Chart p bs ticks]))"

record 'f contention =
  ct_totals :: "nat \<times> int \<times> int \<times> int"
  ct_headline :: "((int \<times> int) \<times> 'f \<times> 'f \<times> 'f \<times> 'f) list"
  ct_loss :: "int \<times> int \<times> 'f"

definition contention_main :: "'f pandas \<Rightarrow> ('f out_file list, 'f contention) py" where
  "contention_main P =
     py_bind (py_lift (pd_read_csv P (path_join (ct_results P) ''contention_repeats_raw.csv''))) (\<lambda>df.
     py_bind (to_csv P (agg_file P df)) (\<lambda>_.
     let rates = sort (pd_unique P (map target_pps df));
         Ns = sort (pd_unique P (map run_rules df))
     in
     py_bind (py_lift (bar_loop P df rates (enumerate 0 Ns) [])) (\<lambda>bs.
     let out = path_join (ct_results P) ''fig_contention.pdf'';
         ticks = map tick_label rates;
         total_packets = sum_list (map blast_sent df);
         total_loss = sum_list (map miss_d df)
     in
     py_bind (save_chart P out bs ticks) (\<lambda>_.
     py_bind (save_chart P (str_replace ''.pdf'' ''.png'' out) bs ticks) (\<lambda>_.
     py_return \<lparr>ct_totals = (length df, sum_list (map blast_sent df), sum_list (map miss_d df), sum_list (map hit_d df)),
       ct_headline = headline P df rates,
       ct_loss = (total_packets, total_loss, ct_percent P total_loss (max 1 total_packets))\<rparr>)))))"

subsection \<open>What is relied on of pandas\<close>

definition pandas_laws :: "('f :: linorder) pandas \<Rightarrow> bool" where
  "pandas_laws P \<longleftrightarrow>
     (\<forall>xs. distinct (pd_unique P xs) \<and> set (pd_unique P xs) = set xs) \<and>
     (\<forall>rs. distinct (map fst (pd_by_rate P rs)) \<and> set (pd_by_rate P rs) =
        (\<lambda>k. (k, filter (\<lambda>r. target_pps r = k) rs)) ` target_pps ` set rs) \<and>
     (\<forall>rs. distinct (map fst (pd_by_cell P rs)) \<and> set (pd_by_cell P rs) =
        (\<lambda>(t, n). ((t, n), filter (\<lambda>r. target_pps r = t \<and> run_rules r = n) rs)) ` (\<lambda>r. (target_pps r, run_rules r)) ` set rs) \<and>
     (\<forall>rs. mset (pd_sort_rate P rs) = mset rs) \<and>
     (\<forall>xs ys. mset xs = mset ys \<longrightarrow> pd_median P xs = pd_median P ys)"

text \<open>The runs of one cell, and the median of one column over them.\<close>

definition cell :: "'f run list \<Rightarrow> int \<Rightarrow> int \<Rightarrow> 'f run list" where
  "cell df r n = filter (\<lambda>x. target_pps x = r \<and> run_rules x = n) df"

definition cell_median :: "'f pandas \<Rightarrow> ('f run \<Rightarrow> 'f) \<Rightarrow> 'f run list \<Rightarrow> int \<Rightarrow> int \<Rightarrow> 'f option" where
  "cell_median P col df r n = (if cell df r n = [] then None else Some (pd_median P (map col (cell df r n))))"

lemma rate_medians_eq:
  assumes "pandas_laws P"
  shows "rate_medians P col (pd_sort_rate P (filter (\<lambda>x. run_rules x = n) df)) rates =
    map (\<lambda>r. cell_median P col df r n) rates"
proof -
  let ?sub = "pd_sort_rate P (filter (\<lambda>x. run_rules x = n) df)"
  have m: "mset ?sub = mset (filter (\<lambda>x. run_rules x = n) df)" using assms by (simp add: pandas_laws_def)
  have g: "distinct (map fst (pd_by_rate P ?sub))"
    "set (pd_by_rate P ?sub) = (\<lambda>k. (k, filter (\<lambda>r. target_pps r = k) ?sub)) ` target_pps ` set ?sub"
    using assms unfolding pandas_laws_def by blast+
  have med: "pd_median P (map col (filter (\<lambda>x. target_pps x = r) ?sub)) = pd_median P (map col (cell df r n))" for r
  proof -
    have "mset (filter (\<lambda>x. target_pps x = r) ?sub) = mset (filter (\<lambda>x. target_pps x = r) (filter (\<lambda>x. run_rules x = n) df))"
      using m by (simp only: mset_filter)
    moreover have "cell df r n = filter (\<lambda>x. target_pps x = r) (filter (\<lambda>x. run_rules x = n) df)"
      unfolding cell_def filter_filter by (rule filter_cong) auto
    ultimately have "mset (map col (filter (\<lambda>x. target_pps x = r) ?sub)) = mset (map col (cell df r n))"
      by (simp only: mset_map)
    then show ?thesis using assms unfolding pandas_laws_def by blast
  qed
  have "map_of (map (\<lambda>(k, g). (k, pd_median P (map col g))) (pd_by_rate P ?sub)) r = cell_median P col df r n" for r
  proof (cases "cell df r n = []")
    case True
    then have "r \<notin> target_pps ` set ?sub"
      using m by (auto simp: cell_def filter_empty_conv simp flip: set_mset_mset)
    then have "r \<notin> fst ` set (pd_by_rate P ?sub)" unfolding g(2) by auto
    then have "map_of (map (\<lambda>(k, g). (k, pd_median P (map col g))) (pd_by_rate P ?sub)) r = None"
      by (force simp: map_of_eq_None_iff)
    with True show ?thesis by (simp add: cell_median_def)
  next
    case False
    then have "r \<in> target_pps ` set ?sub"
      using m by (auto simp: cell_def filter_empty_conv simp flip: set_mset_mset)
    then have "(r, filter (\<lambda>x. target_pps x = r) ?sub) \<in> set (pd_by_rate P ?sub)" unfolding g(2) by auto
    then have "(r, pd_median P (map col (filter (\<lambda>x. target_pps x = r) ?sub))) \<in>
        set (map (\<lambda>(k, g). (k, pd_median P (map col g))) (pd_by_rate P ?sub))" by force
    moreover have "distinct (map fst (map (\<lambda>(k, g). (k, pd_median P (map col g))) (pd_by_rate P ?sub)))"
      using g(1) by (simp add: comp_def case_prod_beta)
    ultimately show ?thesis using False med by (simp add: cell_median_def)
  qed
  then show ?thesis by (simp add: rate_medians_def)
qed

text \<open>What one bar series shows: the medians of its rule count at every rate.\<close>

definition bar_shows :: "'f pandas \<Rightarrow> 'f run list \<Rightarrow> int list \<Rightarrow> int \<Rightarrow> 'f bars \<Rightarrow> bool" where
  "bar_shows P df rates n b \<longleftrightarrow> br_height b = map (\<lambda>r. cell_median P p99_us df r n) rates \<and>
     br_marks b = map (\<lambda>r. cell_median P p50_us df r n) rates \<and> bar_colors (str_int n) = Some (br_color b) \<and>
     br_label b = ''N='' @ str_int n @ '' (p99)''"

lemma bar_loop_bars:
  assumes P: "pandas_laws P"
    and col: "list_all (\<lambda>n. bar_colors (str_int n) \<noteq> None) (map snd ins)"
  shows "\<exists>bs'. bar_loop P df rates ins bs = Inr (bs @ bs') \<and> list_all2 (bar_shows P df rates) (map snd ins) bs'"
  using col
proof (induction ins arbitrary: bs)
  case (Cons a ns)
  obtain i n where a: "a = (i, n)" by (cases a)
  with Cons.prems obtain c where c: "bar_colors (str_int n) = Some c" by auto
  let ?bar = "\<lparr>br_x = map (\<lambda>j. ct_pos P j (int i - 1)) [0..<length rates],
     br_height = map (\<lambda>r. cell_median P p99_us df r n) rates, br_color = c,
     br_label = ''N='' @ str_int n @ '' (p99)'', br_marks = map (\<lambda>r. cell_median P p50_us df r n) rates\<rparr>"
  obtain bs' where bs': "bar_loop P df rates ns (bs @ [?bar]) = Inr ((bs @ [?bar]) @ bs')"
    "list_all2 (bar_shows P df rates) (map snd ns) bs'"
    using Cons.IH [of "bs @ [?bar]"] Cons.prems by auto
  have "bar_loop P df rates (a # ns) bs = Inr (bs @ ?bar # bs')"
    using bs'(1) by (simp add: a c Let_def rate_medians_eq [OF P])
  moreover have "bar_shows P df rates n ?bar" by (simp add: bar_shows_def c)
  ultimately show ?case using bs'(2) a by (intro exI [of _ "?bar # bs'"]) simp
qed simp

lemma bar_loop_error:
  "\<not> list_all (\<lambda>n. bar_colors (str_int n) \<noteq> None) (map snd ins) \<Longrightarrow> bar_loop P df rates ins bs = Inl KeyError"
proof (induction P df rates ins bs rule: bar_loop.induct)
  case (2 P df rates i n ns bs)
  then show ?case by (cases "bar_colors (str_int n)") (simp_all add: Let_def)
qed simp

lemma headline_cells:
  assumes "distinct rates" "r \<in> set rates" "n \<in> {100, 500, 1000}"
  shows "map_of (headline P df rates) (r, n) = (if cell df r n = [] then None
    else Some (pd_median P (map run_total_ms (cell df r n)), pd_median P (map p50_us (cell df r n)),
      pd_median P (map p95_us (cell df r n)), pd_median P (map p99_us (cell df r n))))"
proof -
  let ?per = "\<lambda>r. concat (map (\<lambda>n. let sub = cell df r n in
     if length sub \<noteq> 0
     then [((r, n), pd_median P (map run_total_ms sub), pd_median P (map p50_us sub), pd_median P (map p95_us sub),
            pd_median P (map p99_us sub))]
     else []) [100, 500, 1000])"
  have other: "map_of (?per r') (r, n) = None" if "r' \<noteq> r" for r'
    using that by (auto simp: Let_def)
  have here: "map_of (?per r) (r, n) = (if cell df r n = [] then None
    else Some (pd_median P (map run_total_ms (cell df r n)), pd_median P (map p50_us (cell df r n)),
      pd_median P (map p95_us (cell df r n)), pd_median P (map p99_us (cell df r n))))"
    using assms(3) by (auto simp: Let_def)
  have "headline P df rates = concat (map ?per rates)" by (simp add: headline_def cell_def)
  moreover have "map_of (concat (map ?per rs)) (r, n) = (if r \<in> set rs then map_of (?per r) (r, n) else None)"
    if "distinct rs" for rs
    using that
  proof (induction rs)
    case (Cons r' rs)
    then show ?case using other [of r'] by (cases "r' = r") (auto simp: map_add_def split: option.splits)
  qed simp
  ultimately show ?thesis using here assms(1,2) by simp
qed

lemma dec_digits_value: "foldl (\<lambda>a c. a * 10 + the (digit_val c)) 0 (dec_digits n) = int n"
proof (induction n rule: dec_digits.induct)
  case (1 n)
  have "n mod 10 < 16" "n < 10 \<Longrightarrow> n < 16" using mod_less_divisor [of 10 n] by linarith+
  moreover have "int (n div 10) * 10 + int (n mod 10) = int (n div 10 * 10 + n mod 10)" by (simp only: of_nat_add of_nat_mult of_nat_numeral)
  ultimately show ?case using 1 by (cases "n < 10") (simp_all add: dec_digits.simps [of n])
qed

lemma dec_digits_not_minus: "dec_digits n \<noteq> CHR ''-'' # s"
proof (induction n arbitrary: s rule: dec_digits.induct)
  case (1 n)
  show ?case
  proof (cases "n < 10")
    case True
    then show ?thesis by (simp add: dec_digits.simps [of n])
  next
    case False
    have "dec_digits (n div 10) \<noteq> []" by (simp add: dec_digits.simps [of "n div 10"])
    with 1 [OF False] False show ?thesis by (simp add: dec_digits.simps [of n] append_eq_Cons_conv)
  qed
qed

lemma str_int_inj: "str_int a = str_int b \<longleftrightarrow> a = b"
proof
  have dec: "n = m" if "dec_digits n = dec_digits m" for n m
    using arg_cong [OF that, of "foldl (\<lambda>a c. a * 10 + the (digit_val c)) 0"] by (simp add: dec_digits_value)
  assume eq: "str_int a = str_int b"
  consider "a < 0" "b < 0" | "a \<ge> 0" "b \<ge> 0" | "a < 0" "b \<ge> 0" | "a \<ge> 0" "b < 0" by linarith
  then show "a = b"
    by cases (use eq dec [of "nat (- a)" "nat (- b)"] dec [of "nat a" "nat b"] in
      \<open>auto simp: str_int_def dec_digits_not_minus dec_digits_not_minus [THEN not_sym]\<close>)
qed simp

text \<open>A series has a colour exactly for the three rule counts of the experiment.\<close>

definition rule_counts :: "int set" where
  "rule_counts = {100, 500, 1000}"

lemma bar_colors_known: "bar_colors (str_int n) \<noteq> None \<longleftrightarrow> n \<in> rule_counts"
proof -
  have "str_int 100 = ''100'' \<and> str_int 500 = ''500'' \<and> str_int 1000 = ''1000''" by code_simp
  then have "bar_colors (str_int n) \<noteq> None \<longleftrightarrow> str_int n \<in> {str_int 100, str_int 500, str_int 1000}"
    by (auto simp: bar_colors_def split: if_splits)
  then show ?thesis by (simp add: str_int_inj rule_counts_def)
qed

text \<open>
  When all files can be written: the script writes the aggregate table; then it raises \<^verbatim>\<open>KeyError\<close> on measurements that have another rule count
  than 100, 500 and 1000. Otherwise it saves, twice, a chart with one series of bars per rule count, in increasing order,
  and at every rate its bar is as high as the p99 and its cross as the p50 that the headline prints of the same
  cell: figure and text agree. A cell without runs has neither.
\<close>

lemma contention_consistent:
  assumes P: "pandas_laws P" and df: "pd_read_csv P (path_join (ct_results P) ''contention_repeats_raw.csv'') = Inr df"
    and can_save: "\<forall>p. ct_write P p = Inr ()"
  defines "Ns \<equiv> sorted_list_of_set (run_rules ` set df)" and "rates \<equiv> sorted_list_of_set (target_pps ` set df)"
    and "out \<equiv> path_join (ct_results P) ''fig_contention.pdf''"
  shows "if run_rules ` set df \<subseteq> rule_counts
    then \<exists>c bs. contention_main P fs = (Inr c, fs @ [Table (agg_file P df), Chart out bs (map tick_label rates),
          Chart (str_replace ''.pdf'' ''.png'' out) bs (map tick_label rates)]) \<and>
      list_all2 (\<lambda>n b.
        br_height b = map (\<lambda>r. map_option (\<lambda>(_, _, _, p99). p99) (map_of (ct_headline c) (r, n))) rates \<and>
        br_marks b = map (\<lambda>r. map_option (\<lambda>(_, p50, _, _). p50) (map_of (ct_headline c) (r, n))) rates \<and>
        br_label b = ''N='' @ str_int n @ '' (p99)'') Ns bs
    else contention_main P fs = (Inl KeyError, fs @ [Table (agg_file P df)])"
proof -
  let ?Ns = "sort (pd_unique P (map run_rules df))" and ?rates = "sort (pd_unique P (map target_pps df))"
  have u: "distinct (pd_unique P xs)" "set (pd_unique P xs) = set xs" for xs
    using P by (simp_all add: pandas_laws_def)
  then have sl: "sort (pd_unique P xs) = sorted_list_of_set (set xs)" for xs
    using sorted_list_of_set_sort_remdups [of "pd_unique P xs"] by (simp only: distinct_remdups_id)
  have lists: "?Ns = Ns" "?rates = rates" by (simp_all add: sl Ns_def rates_def)
  have ns: "map snd (enumerate 0 ?Ns) = ?Ns" by simp
  have known: "list_all (\<lambda>n. bar_colors (str_int n) \<noteq> None) ?Ns \<longleftrightarrow> run_rules ` set df \<subseteq> rule_counts"
    unfolding list_all_iff bar_colors_known by (auto simp: u)
  note run = contention_main_def df can_save py_bind_def py_lift_def py_return_def to_csv_def save_chart_def Let_def
  show ?thesis
  proof (cases "run_rules ` set df \<subseteq> rule_counts")
    case False
    then have "bar_loop P df ?rates (enumerate 0 ?Ns) [] = Inl KeyError"
      using bar_loop_error [of "enumerate 0 ?Ns" P df ?rates "[]"] known by (simp only: ns) simp
    with False show ?thesis by (simp add: run)
  next
    case True
    then obtain bs where bs: "bar_loop P df ?rates (enumerate 0 ?Ns) [] = Inr bs" "list_all2 (bar_shows P df ?rates) ?Ns bs"
      using bar_loop_bars [OF P, of "enumerate 0 ?Ns" df ?rates "[]"] known by (simp only: ns) auto
    have print: "map_option (\<lambda>(_, _, _, p99). p99) (map_of (headline P df ?rates) (r, n)) = cell_median P p99_us df r n"
      "map_option (\<lambda>(_, p50, _, _). p50) (map_of (headline P df ?rates) (r, n)) = cell_median P p50_us df r n"
      if "r \<in> set ?rates" "n \<in> set ?Ns" for r n
    proof -
      have "n \<in> {100, 500, 1000}" using that(2) True by (auto simp: u rule_counts_def)
      then show "map_option (\<lambda>(_, _, _, p99). p99) (map_of (headline P df ?rates) (r, n)) = cell_median P p99_us df r n"
        "map_option (\<lambda>(_, p50, _, _). p50) (map_of (headline P df ?rates) (r, n)) = cell_median P p50_us df r n"
        using headline_cells [of ?rates r n P df] that(1) u(1) by (simp_all add: cell_median_def)
    qed
    have "list_all2 (\<lambda>n b. br_height b = map (\<lambda>r. map_option (\<lambda>(_, _, _, p99). p99) (map_of (headline P df ?rates) (r, n))) ?rates \<and>
        br_marks b = map (\<lambda>r. map_option (\<lambda>(_, p50, _, _). p50) (map_of (headline P df ?rates) (r, n))) ?rates \<and>
        br_label b = ''N='' @ str_int n @ '' (p99)'') ?Ns bs"
      using bs(2) by (rule list.rel_mono_strong) (auto simp: bar_shows_def print)
    with True bs(1) show ?thesis unfolding lists by (simp add: run lists out_def)
  qed
qed

text \<open>A file that cannot be written ends the script with its error, before anything is printed of the headline.\<close>

lemma contention_write_error:
  assumes "pd_read_csv P (path_join (ct_results P) ''contention_repeats_raw.csv'') = Inr df"
  shows "ct_write P (path_join (ct_results P) ''contention_agg.csv'') = Inl e \<Longrightarrow> contention_main P fs = (Inl e, fs)"
    and "ct_write P (path_join (ct_results P) ''contention_agg.csv'') = Inr () \<Longrightarrow>
      bar_loop P df (sort (pd_unique P (map target_pps df))) (enumerate 0 (sort (pd_unique P (map run_rules df)))) [] = Inr bs \<Longrightarrow>
      ct_write P (path_join (ct_results P) ''fig_contention.pdf'') = Inl e \<Longrightarrow>
      contention_main P fs = (Inl e, fs @ [Table (agg_file P df)])"
  using assms
  by (simp_all add: contention_main_def to_csv_def save_chart_def agg_file_def py_bind_def py_lift_def Let_def)

text \<open>An instance: tables in memory, medians of natural numbers.\<close>

definition demo_pandas :: "nat run list \<Rightarrow> nat pandas" where
  "demo_pandas df = \<lparr>ct_results = ''results'', pd_read_csv = \<lambda>_. Inr df, ct_write = \<lambda>_. Inr (), pd_unique = remdups,
     pd_by_rate = \<lambda>rs. map (\<lambda>k. (k, filter (\<lambda>r. target_pps r = k) rs)) (remdups (map target_pps rs)),
     pd_by_cell = \<lambda>rs. map (\<lambda>k. (k, filter (\<lambda>r. (target_pps r, run_rules r) = k) rs))
       (remdups (map (\<lambda>r. (target_pps r, run_rules r)) rs)),
     pd_sort_rate = sort_key target_pps, pd_median = \<lambda>xs. sort xs ! (length xs div 2), pd_min = \<lambda>xs. Min (set xs),
     pd_max = \<lambda>xs. Max (set xs), ct_pos = \<lambda>j _. j, ct_percent = \<lambda>a b. nat (100 * a div b)\<rparr>"

lemma demo_pandas_laws: "pandas_laws (demo_pandas df)"
proof -
  have median: "sort xs ! (length xs div 2) = sort ys ! (length ys div 2)" if "mset xs = mset ys" for xs ys :: "nat list"
    using that mset_eq_length [OF that] properties_for_sort [of "sort ys" xs] by simp
  show ?thesis
    unfolding pandas_laws_def demo_pandas_def
    by (auto simp: comp_def image_image case_prod_beta intro: median)
qed

end
