(* ===== verification/Spec2Isabelle.thy ===== *)
theory Spec2Isabelle
  imports Upf_System Agent_Downlink Agent_Urr Gtp5g_Link Eupf_Bench Pfcp_Session Toggle_Bundle Plot_Contention
begin

text \<open>
  A verification library for the eBPF user plane function: the control-plane agent
  (\<^verbatim>\<open>src/loader\<close>), the BPF datapath (\<^verbatim>\<open>src/bpf\<close>), the netlink clients of the gtp5g baseline and the
  analysis of the consistency experiment (\<^verbatim>\<open>src/results_native\<close>).

  \<^bold>\<open>The system.\<close> The agent writes rules into pinned BPF maps through the \<^verbatim>\<open>bpf(2)\<close> system call. Uplink
  frames pass \<^verbatim>\<open>upf_xdp_uplink\<close> (parse GTP-U, look the TEID and the PDR up, drop or pass) and then
  \<^verbatim>\<open>upf_tc_ingress\<close> (read the PDR's decision bundle, enforce FAR, QER and URR, decapsulate and
  redirect); downlink packets pass \<^verbatim>\<open>upf_tc_egress\<close> (encapsulate for the UE's tunnel). The programs
  only read the rule maps; they write counters, token buckets, usage reports and perf events. A rule
  changes under traffic by the double-buffered bundle of \<^verbatim>\<open>modify_tc_bundle\<close>; the experiment captures
  the decision events and \<^verbatim>\<open>analyze.py\<close> looks for torn ones.

  \<^bold>\<open>Theories and code.\<close>
  \<^item> \<^verbatim>\<open>Prelude\<close>: machine types, Python exceptions, the state-and-exception monad \<open>py\<close> with its
    triples, slices. \<^verbatim>\<open>Py_Struct\<close>: \<^verbatim>\<open>struct.pack/unpack\<close> with \<^verbatim>\<open>struct.error\<close>. \<^verbatim>\<open>Py_Text\<close>: JSON values,
    \<^verbatim>\<open>int(s, 0)\<close>, number formatting.
  \<^item> \<^verbatim>\<open>Bpf_Syscall\<close>: \<^verbatim>\<open>loader/bpf_syscall.py\<close>, function by function, with the class \<^verbatim>\<open>PinnedMapCache\<close> as a
    record. \<^verbatim>\<open>Bpf_Kernel\<close>: the locale \<open>bpf_kernel\<close>, the documented behaviour of the system call on
    hash, LRU hash and array maps that the wrapper relies on; the lemmas on the cache are proved in
    it, and \<open>traced\<close> records the map contents after every system call. \<^verbatim>\<open>Ref_Kernel\<close>: an executable
    kernel and its interpretation \<open>rk\<close> of the locale.
  \<^item> \<^verbatim>\<open>Upf_Maps\<close>: \<^verbatim>\<open>bpf/upf_maps.h\<close>, the structures as records, their loads from bytes, the map
    declarations, and \<open>tables_of\<close>, the typed view of the map bytes that the datapath has.
  \<^item> \<^verbatim>\<open>Agent_Encode\<close>, \<^verbatim>\<open>Agent\<close>: the encoders and rule operations of \<^verbatim>\<open>loader/agent.py\<close>. \<^verbatim>\<open>Agent_Rules\<close>,
    \<^verbatim>\<open>Agent_Modify\<close>, \<^verbatim>\<open>Agent_Theorems\<close>: their effect on the tables, every error branch, and what is
    observable between system calls. \<^verbatim>\<open>Agent_Batch\<close>: \<^verbatim>\<open>bootstrap_initial\<close>, \<^verbatim>\<open>measure_rule_update\<close>.
    \<^verbatim>\<open>Agent_Metrics\<close>, \<^verbatim>\<open>Agent_Urr\<close>: \<^verbatim>\<open>read_metrics\<close>, \<^verbatim>\<open>prometheus_text\<close>, \<^verbatim>\<open>read_urr\<close>, \<^verbatim>\<open>map_dump\<close>. \<^verbatim>\<open>Agent_Http\<close>:
    \<^verbatim>\<open>Handler.do_GET\<close>. \<^verbatim>\<open>Agent_Server\<close>: \<^verbatim>\<open>main\<close> and \<^verbatim>\<open>serve\<close>, the requests
    handled one after the other. \<^verbatim>\<open>Agent_Downlink\<close>: \<^verbatim>\<open>install_dl_ue\<close>, \<^verbatim>\<open>install_upf_config\<close> and their composition
    with the egress program.
  \<^item> \<^verbatim>\<open>Upf_Datapath\<close>: the datapath state \<open>dp\<close> (tables, counters, buckets, usage reports, events) and
    the monad \<open>prog\<close>, in which an access outside the packet is a stuck execution \<open>None\<close>.
    \<^verbatim>\<open>Upf_Xdp\<close>: \<^verbatim>\<open>bpf/upf_xdp.c\<close>. \<^verbatim>\<open>Upf_Qer\<close>, \<^verbatim>\<open>Upf_Tc\<close>: \<^verbatim>\<open>bpf/upf_tc.c\<close>, with the build switches as a
    record; the token bucket is a locale interpreted by both builds. \<^verbatim>\<open>Upf_Egress\<close>:
    \<^verbatim>\<open>bpf/upf_tc_egress.c\<close>. \<^verbatim>\<open>Upf_Pipeline\<close>: packets served while the maps change.
    \<^verbatim>\<open>Upf_System\<close>: agent and datapath as one state machine \<open>upf_step\<close> (a request, a frame at XDP, a passed
    packet at TC, a downlink packet; the two hooks of a frame look up in separate contents of the maps), the invariant
    \<open>linked\<close> of the rule maps and the books of the pipeline.
  \<^item> \<^verbatim>\<open>Netlink\<close>, \<^verbatim>\<open>Gtp5g_Genl\<close>, \<^verbatim>\<open>Gtp5g_Link\<close>: \<^verbatim>\<open>gtp5g_genl.py\<close> and \<^verbatim>\<open>gtp5g_link_add.py\<close>; the netlink
    format (\<open>parse_attrs\<close>) and the rule decoders are the specification the messages are checked
    against. \<^verbatim>\<open>Analyze\<close>: \<^verbatim>\<open>analyze.py\<close>. \<^verbatim>\<open>Eupf_Bench\<close>: \<^verbatim>\<open>bench_eupf_ruleupdate.py\<close>.
    \<^verbatim>\<open>Toggle_Bundle\<close>: \<^verbatim>\<open>test/toggle_bundle.py\<close> and the experiment it drives, from the rule changes
    through the decided packets to the report of the analysis. \<^verbatim>\<open>Pfcp_Session\<close>:
    \<^verbatim>\<open>pfcp_session_establish.py\<close>, the request as a tree of information elements and the exchange.
  \<^item> \<^verbatim>\<open>Plots\<close>: \<^verbatim>\<open>scripts/make_plots.py\<close>, the two figures as the lines that are drawn, the files they are saved to, and their meaning in
    terms of the samples. \<^verbatim>\<open>Plot_Contention\<close>: \<^verbatim>\<open>scripts/make_plot_contention.py\<close>, the aggregate table, the bars and
    the headline numbers, and their agreement.

  \<^bold>\<open>What is shown.\<close> Of the agent: every operation's outcome on every branch, referential integrity
  in every observable state, atomicity of rule changes, and the leak and the crash of two error
  paths; and that the process keeps answering. Of the datapath: memory safety on every frame, refinement of an abstract classification,
  balanced counters, rate bounds of both token buckets (with the wrap-around and the overshoot that
  the code has), exact effect of forwarding, rejection and encapsulation, validity of the outer
  header and the round trip between egress and ingress. Of the clients: attribute and message round
  trips, the termination and result of the family lookup, and the acknowledgement that is read out
  of step. Of the plots: that every file saved shows the measurements that were read. This theory holds the properties that span agent, datapath and analysis: no packet
  is decided by a mixture of two rule versions, and in every reachable state of the whole system each
  frame that XDP admits is accounted for by one TC outcome, by a TC miss, which is a race with the removal of its
  session, or by its place between the two hooks.

  \<^bold>\<open>Parameters and their hypotheses.\<close> The system call (\<open>bpf_kernel\<close>), the clock
  (\<open>clock_neutral\<close> in the agent, any function in the datapath), \<^verbatim>\<open>bpf_skb_adjust_room\<close>
  (\<open>decap_law\<close>, \<open>encap_law\<close>), \<^verbatim>\<open>bpf_redirect\<close>, \<^verbatim>\<open>socket.inet_aton\<close> (\<open>aton_law\<close>), the kernel behind a
  netlink socket, the subprocess of bpftool and the dump it prints (in its documented form, \<open>dumps_metrics\<close>), and the floating-point
  operations of the reports (\<open>index_laws\<close> and \<open>quantile_laws\<close> for the percentile products), the HTTP
  server of eUPF and the creation of the listening socket, the sorting of numpy (\<open>numpy_laws\<close>), the reading and saving of files by pandas and matplotlib, which may raise, the grouping and
  medians of pandas (\<open>pandas_laws\<close>), and the message encoding of scapy. Each hypothesis has an
  instance in the witnesses.

  \<^bold>\<open>Bounds and fuel.\<close> No definition uses fuel: loops are structural or have a termination proof, the
  clock-driven loop of the experiment is a partial function that is proved to return, and a receive
  that would block forever is the value \<open>None\<close>. Integers of the C code are words of their width, Python
  integers are unbounded with the range checks of \<^verbatim>\<open>struct\<close> written out. One run of a program looks up in one contents of the maps; the interleaving is between system calls and program runs, so that XDP and
  TC may see different contents for the same frame. This
  is the granularity of the bundle protocol, since a program reads the bundle entry once.

  \<^bold>\<open>Not modelled.\<close> The parsing of command lines (\<^verbatim>\<open>argparse\<close>) and the library code of the HTTP server
  around the handler and its loop; the appearance of the figures (fonts, sizes, grids, legends, axis limits), which is
  matplotlib's; the bytes of the PFCP message, which are scapy's; the other test drivers, traffic generators and benchmarks; loading and attaching of the programs; and the
  BPF verifier, whose memory-safety guarantee is proved here of the programs themselves.
\<close>

section \<open>Properties that span components\<close>

text \<open>
  C1. No packet is ever decided by a mixture of two rule versions. While \<^verbatim>\<open>modify_tc_bundle\<close> changes the
  FAR and QER of a PDR, let any packets arrive, each handled by \<^verbatim>\<open>upf_tc_ingress\<close> in whatever state of
  the maps the operation has reached. Then every decision event that the packets of this PDR emit
  carries the FAR, QER and generation of the old tuple or of the new one, completely; and when both
  pairs are configured ones, \<^verbatim>\<open>analyze.py\<close> reports, on the capture of these events, all of them and
  none torn.
\<close>

theorem modify_never_torn:
  assumes "bpf_kernel sys pinned view fd_path fd_avail"
    and "world_ok pinned (fd_path \<circ> fst) (fd_avail \<circ> fst) upf_defs w" and "in_u32 p"
    and "tc_bundle_map (tabs (view \<circ> fst) w) (word_of_int p) = Some b"
    and "modify_fits (Some f) (Some q) None None (active_slot b)"
  defines "old \<equiv> active_slot b"
  shows "\<exists>w' olds gen. modify_tc_bundle (traced sys) p (Some f) (Some q) None None w = (Inr gen, w') \<and>
    observed view w' = observed view w @ olds @ [rules (view \<circ> fst) w'] \<and>
    (\<forall>traffic s. (\<forall>T \<in> fst ` set traffic. T \<in> insert (tabs (view \<circ> fst) w) (tables_of ` set (olds @ [rules (view \<circ> fst) w']))) \<longrightarrow>
      (\<exists>s' evs. serve B H traffic s = Some s' \<and> perf_events s' = perf_events s @ evs \<and>
        (\<forall>(f', q', g', p') \<in> set (decisions_of (word_of_int p) evs).
           (f', q', g') = (slot_far_id old, slot_qer_id old, slot_generation old) \<or>
           (f', q', g') = (word_of_int f, word_of_int q, word_of_int gen)) \<and>
        ((uint (slot_far_id old), uint (slot_qer_id old)) \<in> set valid_pairs \<and> (f, q) \<in> set valid_pairs \<longrightarrow>
          (\<exists>r. analyze_main (capture_lines h pad (decisions_of (word_of_int p) evs)) = Inr r \<and>
            total_events r = length (decisions_of (word_of_int p) evs) \<and> torn_events r = 0))))"
proof -
  let ?p = "word_of_int p :: u32"
  let ?new = "modified_slot (Some f) (Some q) None None (active_slot b)"
  obtain w' olds where
    run: "modify_tc_bundle (traced sys) p (Some f) (Some q) None None w = (Inr (uint (slot_generation old) + 1), w')"
    and t': "tabs (view \<circ> fst) w' = (tabs (view \<circ> fst) w)\<lparr>tc_bundle_map :=
      (tc_bundle_map (tabs (view \<circ> fst) w))(?p \<mapsto> committed ?new b)\<rparr>"
    and obs: "observed view w' = observed view w @ olds @ [rules (view \<circ> fst) w']"
    and olds: "\<forall>A \<in> set olds. same_but_bundle ?p (tabs (view \<circ> fst) w) (tables_of A) \<and>
       packet_decision (tables_of A) ?p = Some (decision (active_slot b))"
    unfolding old_def by (rule bpf_kernel.modify_observed [OF assms(1-5)])
  have new: "packet_decision (tables_of (rules (view \<circ> fst) w')) ?p = Some (decision ?new)"
    using t' by (simp add: packet_decision_def active_committed flip: tabs_def)
  have now: "packet_decision (tabs (view \<circ> fst) w) ?p = Some (decision old)"
    using assms(4) by (simp add: packet_decision_def old_def)
  have slot: "slot_far_id ?new = word_of_int f" "slot_qer_id ?new = word_of_int q"
    "slot_generation ?new = word_of_int (uint (slot_generation old) + 1)"
    by (simp_all add: modified_slot_def mk_slot_def or_else_def old_def)
  have fq: "uint (word_of_int f :: u32) = f" "uint (word_of_int q :: u32) = q"
    using assms(5) by (simp_all add: modify_fits_def or_else_def uint_word_of_int_u32)
  have traffic: "\<exists>s' evs. serve B H traffic s = Some s' \<and> perf_events s' = perf_events s @ evs \<and>
        (\<forall>(f', q', g', p') \<in> set (decisions_of ?p evs).
           (f', q', g') = (slot_far_id old, slot_qer_id old, slot_generation old) \<or>
           (f', q', g') = (word_of_int f, word_of_int q, word_of_int (uint (slot_generation old) + 1))) \<and>
        ((uint (slot_far_id old), uint (slot_qer_id old)) \<in> set valid_pairs \<and> (f, q) \<in> set valid_pairs \<longrightarrow>
          (\<exists>r. analyze_main (capture_lines h pad (decisions_of ?p evs)) = Inr r \<and>
            total_events r = length (decisions_of ?p evs) \<and> torn_events r = 0))"
    if "\<forall>T \<in> fst ` set traffic. T \<in> insert (tabs (view \<circ> fst) w) (tables_of ` set (olds @ [rules (view \<circ> fst) w']))"
    for traffic s
  proof -
    have "\<forall>T \<in> fst ` set traffic. packet_decision T ?p \<in> {Some (decision old), Some (decision ?new)}"
      using that olds now new by (auto simp: old_def)
    then obtain s' evs where sv: "serve B H traffic s = Some s'" "perf_events s' = perf_events s @ evs"
      and ev: "\<forall>(f', q', g', p') \<in> set (decisions_of ?p evs).
           (f', q', g') = (slot_far_id old, slot_qer_id old, slot_generation old) \<or>
           (f', q', g') = (word_of_int f, word_of_int q, word_of_int (uint (slot_generation old) + 1))"
      unfolding slot [symmetric] by (rule serve_old_or_new)
    show ?thesis
    proof (rule exI [of _ s'], rule exI [of _ evs], intro conjI impI)
      assume "(uint (slot_far_id old), uint (slot_qer_id old)) \<in> set valid_pairs \<and> (f, q) \<in> set valid_pairs"
      then show "\<exists>r. analyze_main (capture_lines h pad (decisions_of ?p evs)) = Inr r \<and>
          total_events r = length (decisions_of ?p evs) \<and> torn_events r = 0"
        using ev fq by (intro captured_not_torn) fastforce
    qed (rule sv ev)+
  qed
  show ?thesis
    by (rule exI [of _ w'], rule exI [of _ olds], rule exI [of _ "uint (slot_generation old) + 1"])
      (intro conjI run obs allI impI traffic, blast)
qed

theorem modify_never_torn_witness:
  "\<exists>w' olds. modify_tc_bundle (traced upf_sys) 8192 (Some 3) (Some 3) None None one_traced = (Inr 1, w') \<and>
     observed upf_view w' = observed upf_view one_traced @ olds @ [rules (upf_view \<circ> fst) w'] \<and>
     (\<exists>s' evs r. serve demo_build demo_helpers
          [(tabs (upf_view \<circ> fst) one_traced, demo_skb), (tables_of (rules (upf_view \<circ> fst) w'), demo_skb)] demo_dl_state = Some s' \<and>
        perf_events s' = perf_events demo_dl_state @ evs \<and>
        analyze_main (capture_lines '' @1 CPU: 0'' [0, 0, 0, 0] (decisions_of 8192 evs)) = Inr r \<and> torn_events r = 0)"
proof -
  let ?b = "mk_bundle 0 (mk_slot 1 1 1 100 0) (mk_slot 1 1 1 100 0)"
  have b: "tc_bundle_map (tabs (upf_view \<circ> fst) one_traced) (word_of_int 8192) = Some ?b"
    by (simp add: one_traced_tables)
  have slot: "active_slot ?b = mk_slot 1 1 1 100 0" by (simp add: active_slot_def mk_bundle_def)
  have fits: "modify_fits (Some 3) (Some 3) None None (active_slot ?b)"
    unfolding slot by (simp add: modify_fits_def mk_slot_def or_else_def in_u32_def)
  have p: "in_u32 8192" by (simp add: in_u32_def)
  have v: "(uint (slot_far_id (active_slot ?b)), uint (slot_qer_id (active_slot ?b))) \<in> set valid_pairs"
    "(3, 3) \<in> set valid_pairs" unfolding slot by (simp_all add: mk_slot_def valid_pairs_def)
  have gen: "uint (slot_generation (active_slot ?b)) + 1 = 1" unfolding slot by (simp add: mk_slot_def)
  note torn = modify_never_torn [OF rk.bpf_kernel_axioms one_traced_facts(1) p b fits, of demo_build demo_helpers
      "'' @1 CPU: 0''" "[0, 0, 0, 0]"]
  show ?thesis
    using torn
  proof (elim exE conjE, goal_cases)
    case (1 w' olds gen)
    let ?traffic = "[(tabs (upf_view \<circ> fst) one_traced, demo_skb), (tables_of (rules (upf_view \<circ> fst) w'), demo_skb)]"
    have "gen = 1" using 1(1) modify_result [OF rk.bpf_kernel_axioms one_traced_facts(1) p b fits] gen by simp
    moreover have "\<forall>T \<in> fst ` set ?traffic. T \<in> insert (tabs (upf_view \<circ> fst) one_traced)
        (tables_of ` set (olds @ [rules (upf_view \<circ> fst) w']))" by simp
    then obtain s' evs r where "serve demo_build demo_helpers ?traffic demo_dl_state = Some s'"
      "perf_events s' = perf_events demo_dl_state @ evs" "torn_events r = 0"
      "analyze_main (capture_lines '' @1 CPU: 0'' [0, 0, 0, 0] (decisions_of (word_of_int 8192) evs)) = Inr r"
      using 1(3) [THEN spec [of _ ?traffic], THEN spec [of _ demo_dl_state], THEN mp] v by auto
    ultimately show ?case using 1(1,2) by auto
  qed
qed

text \<open>
  C5. The whole system accounts for every hit. Let the agent bootstrap (on tables that are linked, for
  example empty ones, with at most 61440 initial sessions), and let any requests, frames at the XDP hook, passed packets
  at the TC hook and downlink packets follow, each program run in any contents that the maps have had between two
  system calls, the two hooks of a frame in different ones, also when requests raise
  and leave rules behind. Then, in every contents of the maps, every session has its PDR, its bundle and a FAR, and
  belongs to its own PDR. The frames that XDP has counted as hits are, one for one (modulo 2^64), those that TC
  has dropped or buffered by FAR, dropped by QER, failed to decapsulate or forwarded, those that TC has counted as a miss, and those still on
  the way from XDP to TC. A G-PDU on the way had its session when XDP saw it. TC counts a miss for it, and leaves it to the stack
  unmodified, exactly when that session is gone from the maps that TC sees, the race that the program's comments describe;
  otherwise it counts one outcome.
\<close>

theorem system_accounts_hits:
  assumes "bpf_kernel (env_sys E) pinned view fd_path fd_avail"
    and "clock_neutral view fd_path fd_avail (env_clock E)"
    and "world_ok pinned (fd_path \<circ> fst) (fd_avail \<circ> fst) upf_defs w0"
    and "\<forall>T \<in> visible view w0. linked T" and "n \<le> 61440"
    and "bootstrap_initial (traced (env_sys E)) n out w0 = (Inr (), w1)"
    and "(upf_step E view B H)\<^sup>*\<^sup>* (w1, s1, []) (w, s, q)"
  shows "(\<forall>T \<in> visible view w. linked T) \<and>
    metrics s M_HIT - metrics s1 M_HIT = (tc_outcomes s - tc_outcomes s1) +
      (metrics s M_TC_MISS_FAR - metrics s1 M_TC_MISS_FAR) + of_nat (in_flight q) \<and>
    (\<forall>(T0, sk) \<in> set q. \<forall>T \<in> visible view w. \<exists>r sk' s'.
       upf_tc_ingress B H sk (s\<lparr>tables := T\<rparr>) = Some ((r, sk'), s') \<and>
       (case classify (skb_data sk) of
          GPdu teid ihl \<Rightarrow> teid_session T0 teid \<noteq> None \<and>
            (if teid_session T teid = None
             then r = TC_ACT_OK \<and> sk' = sk \<and> metrics s' = bumped [M_TC_MISS_FAR] (metrics s)
             else tc_outcomes s' = tc_outcomes s + 1 \<and> metrics s' M_TC_MISS_FAR = metrics s M_TC_MISS_FAR)
        | _ \<Rightarrow> r = TC_ACT_OK \<and> sk' = sk \<and> metrics s' = metrics s))"
proof -
  have "seen_ok pinned view fd_path fd_avail linked linked w0"
    using assms(3,4) by (simp add: seen_ok_def visible_def)
  then have "seen_ok pinned view fd_path fd_avail linked linked1 w1"
    using py_hoareD(1) [OF bpf_kernel.bootstrap_linked [OF assms(1,5)] _ assms(6)] by simp
  from upf_steps_invariant [OF assms(1,2) this assms(7)]
  have inv: "seen_ok pinned view fd_path fd_avail linked linked1 w" "\<forall>x \<in> set q. xdp_admitted x"
    "undecided s = undecided s1 + of_nat (in_flight q)" by simp_all
  have vis: "linked T" if "T \<in> visible view w" for T
    using that inv(1) by (auto simp: seen_ok_def visible_def)
  have "\<exists>r sk' s'. upf_tc_ingress B H sk (s\<lparr>tables := T\<rparr>) = Some ((r, sk'), s') \<and>
       (case classify (skb_data sk) of
          GPdu teid ihl \<Rightarrow> teid_session T0 teid \<noteq> None \<and>
            (if teid_session T teid = None
             then r = TC_ACT_OK \<and> sk' = sk \<and> metrics s' = bumped [M_TC_MISS_FAR] (metrics s)
             else tc_outcomes s' = tc_outcomes s + 1 \<and> metrics s' M_TC_MISS_FAR = metrics s M_TC_MISS_FAR)
        | _ \<Rightarrow> r = TC_ACT_OK \<and> sk' = sk \<and> metrics s' = metrics s)"
    if "(T0, sk) \<in> set q" "T \<in> visible view w" for T0 sk T
    by (rule pending_outcome) (use inv(2) vis that in auto)
  moreover have "metrics s M_HIT - metrics s1 M_HIT = (tc_outcomes s - tc_outcomes s1) +
      (metrics s M_TC_MISS_FAR - metrics s1 M_TC_MISS_FAR) + of_nat (in_flight q)"
    using inv(3) by (simp add: undecided_def algebra_simps)
  ultimately show ?thesis using vis by blast
qed

theorem system_accounts_hits_witness:
  "\<exists>w1 s1 r w2 x s2. bootstrap_initial (traced upf_sys) 1 2 start_traced = (Inr (), w1) \<and>
     upf_xdp_uplink demo_gpdu (demo_dl_state\<lparr>tables := tabs (upf_view \<circ> fst) w1\<rparr>) = Some (XDP_PASS, s1) \<and>
     metrics s1 M_HIT - metrics demo_dl_state M_HIT = (tc_outcomes s1 - tc_outcomes demo_dl_state) +
       (metrics s1 M_TC_MISS_FAR - metrics demo_dl_state M_TC_MISS_FAR) + 1 \<and>
     do_GET (traced_env demo_env) ''/ruleupdate?n=5000'' w1 = (r, w2) \<and>
     upf_tc_ingress demo_build demo_helpers demo_skb (s1\<lparr>tables := tabs (upf_view \<circ> fst) w2\<rparr>) = Some (x, s2) \<and>
     metrics s2 M_HIT - metrics demo_dl_state M_HIT = (tc_outcomes s2 - tc_outcomes demo_dl_state) +
       (metrics s2 M_TC_MISS_FAR - metrics demo_dl_state M_TC_MISS_FAR)"
proof -
  have k: "bpf_kernel (env_sys demo_env) upf_pinned upf_view rk_fd_path rk_fd_avail"
    and sys: "env_sys demo_env = upf_sys"
    using rk.bpf_kernel_axioms by (simp_all add: demo_env_def)
  have c: "clock_neutral upf_view rk_fd_path rk_fd_avail (env_clock demo_env)"
    by (simp add: demo_env_def clock_neutral_def)
  have start: "\<forall>T \<in> visible upf_view start_traced. linked T"
    by (simp add: visible_def start_observed linked_def refs_ok_def fars_ok_def start_traced_tabs start_tabs)
  have "batch_room (nat 1) (tabs (upf_view \<circ> fst) start_traced)"
    using start_room [of 1] by (simp add: start_traced_tabs)
  then obtain w1 T where boot: "bootstrap_initial (traced (env_sys demo_env)) 1 2 start_traced = (Inr (), w1)"
    and b: "batch 0x1000 0x2000 (nat 1) T (tabs (upf_view \<circ> fst) w1)"
    unfolding sys
    by (rule bpf_kernel.bootstrap_spec [OF rk.traced_kernel start_traced_ok, of 1 2]) (simp_all add: in_u32_def)
  let ?T1 = "tabs (upf_view \<circ> fst) w1"
  let ?step = "upf_step demo_env upf_view demo_build demo_helpers"
  have se: "teid_session ?T1 4096 = Some (mk_session 8192 1 1)" "pdr_table ?T1 8192 \<noteq> None"
    using b by (simp_all add: batch_def ids_def)
  have g: "classify (skb_data demo_skb) = GPdu 4096 20" by (simp add: demo_skb_def demo_classify)
  obtain s1 where xdp: "upf_xdp_uplink (skb_data demo_skb) (demo_dl_state\<lparr>tables := ?T1\<rparr>) = Some (XDP_PASS, s1)"
    using se by (simp add: xdp_refines_spec g mk_session_def)
  obtain r w2 where get: "do_GET (traced_env demo_env) ''/ruleupdate?n=5000'' w1 = (r, w2)" by (rule prod.exhaust)
  let ?T2 = "tabs (upf_view \<circ> fst) w2"
  have vis: "?T1 \<in> visible upf_view w1" "?T2 \<in> visible upf_view w2" by (simp_all add: visible_def)
  note hits = system_accounts_hits [OF k c start_traced_ok start _ boot]
  have 1: "?step\<^sup>*\<^sup>* (w1, demo_dl_state, []) (w1, s1, [(?T1, demo_skb)])"
    using upf_step.xdp [where q = "[]", OF vis(1) xdp] by auto
  then have 2: "?step\<^sup>*\<^sup>* (w1, demo_dl_state, []) (w2, s1, [(?T1, demo_skb)])"
    using upf_step.request [OF get] by (rule rtranclp.rtrancl_into_rtrancl)
  obtain x s2 where tc: "upf_tc_ingress demo_build demo_helpers demo_skb (s1\<lparr>tables := ?T2\<rparr>) = Some (x, s2)"
    using hits [OF _ 2] vis(2) by fastforce
  have 3: "?step\<^sup>*\<^sup>* (w1, demo_dl_state, []) (w2, s2, [])"
    using 2 upf_step.tc [where ?q1.0 = "[]" and ?q2.0 = "[]", OF vis(2) tc] by (auto intro: rtranclp.rtrancl_into_rtrancl)
  from hits [OF _ 1] hits [OF _ 3] boot get xdp tc g show ?thesis
    unfolding sys by (auto simp: is_gpdu_def demo_skb_def)
qed

end
